(* ===== verification/UN_Prelude.thy ===== *)
theory UN_Prelude
  imports Main "HOL-Library.Word" "HOL-Library.Char_ord" "HOL-Library.List_Lexorder"
begin

text \<open>
  The shared layer of the development: the faults a C++ operation can end in and the
  result type that carries them, the idioms of the standard containers the code uses
  (linear search in a \<open>std::list\<close>, add-unless-present, erase-the-first, the ordered
  \<open>std::map\<close> and \<open>std::set\<close>), and the few C string routines (\<open>strtok\<close>,
  \<open>sscanf\<close> of an unsigned number, decimal output of a stream).

  Two interfaces are stated as locales. \<open>registry\<close> is the contract of a list searched
  with a user-defined \<open>operator==\<close>: every endpoint list, the VNF list and the rule list
  of a graph are interpretations of it. \<open>ordered_map\<close> is the contract of \<open>std::map\<close>.
\<close>

named_theorems registry_simps "membership after the list operations of a registry"
named_theorems omap_simps "lookups after the operations of an ordered map"

section \<open>Faults and results\<close>

text \<open>
  \<open>AssertFailure\<close> is a failed \<open>assert\<close>, \<open>NullPointer\<close> a call of \<open>strlen\<close> or
  \<open>strcpy\<close> on \<open>NULL\<close>, \<open>EndIterator\<close> the use of the value behind \<open>end()\<close>,
  \<open>Uninitialised\<close> the use of a local variable nothing was stored in, \<open>OutOfBounds\<close>
  an index or a copy past the end of a vector or buffer, \<open>Dangling\<close> the use of an object that
  was deleted or of an iterator whose element was erased, \<open>BadVersion\<close> the \<open>eBadVersion\<close> of
  rofl, the other three the exception classes of the orchestrator.
\<close>

datatype fault =
    AssertFailure
  | NullPointer
  | EndIterator
  | Uninitialised
  | BadVersion
  | OutOfBounds
  | Dangling
  | GraphManagerException
  | SwitchManagerException
  | GraphException

type_synonym 'a result = "fault + 'a"

definition bindR :: "'a result \<Rightarrow> ('a \<Rightarrow> 'b result) \<Rightarrow> 'b result" where
  "bindR m f = (case m of Inl e \<Rightarrow> Inl e | Inr x \<Rightarrow> f x)"

definition assertR :: "bool \<Rightarrow> unit result" where
  "assertR b = (if b then Inr () else Inl AssertFailure)"

definition optionR :: "fault \<Rightarrow> 'a option \<Rightarrow> 'a result" where
  "optionR e x = (case x of None \<Rightarrow> Inl e | Some v \<Rightarrow> Inr v)"

lemma bindR_simps [simp]:
  "bindR (Inl e) f = Inl e" "bindR (Inr x) f = f x"
  by (simp_all add: bindR_def)

lemma bindR_Inr_iff: "bindR m f = Inr y \<longleftrightarrow> (\<exists>x. m = Inr x \<and> f x = Inr y)"
  by (cases m) auto

lemma bindR_split:
  "P (bindR m f) \<longleftrightarrow> (\<forall>e. m = Inl e \<longrightarrow> P (Inl e)) \<and> (\<forall>x. m = Inr x \<longrightarrow> P (f x))"
  by (cases m) auto

lemma assertR_simps [simp]:
  "assertR True = Inr ()" "assertR False = Inl AssertFailure"
  "assertR b = Inr u \<longleftrightarrow> b" "assertR b = Inl e \<longleftrightarrow> \<not> b \<and> e = AssertFailure"
  by (auto simp: assertR_def)

lemma optionR_simps [simp]:
  "optionR e None = Inl e" "optionR e (Some x) = Inr x"
  "optionR e v = Inr y \<longleftrightarrow> v = Some y"
  by (auto simp: optionR_def split: option.splits)

text \<open>A loop whose body may fault: it stops at the first fault.\<close>

fun mapR :: "('a \<Rightarrow> 'b result) \<Rightarrow> 'a list \<Rightarrow> 'b list result" where
  "mapR f [] = Inr []"
| "mapR f (x # xs) = bindR (f x) (\<lambda>y. bindR (mapR f xs) (\<lambda>ys. Inr (y # ys)))"

fun foldR :: "('a \<Rightarrow> 's \<Rightarrow> 's result) \<Rightarrow> 'a list \<Rightarrow> 's \<Rightarrow> 's result" where
  "foldR f [] s = Inr s"
| "foldR f (x # xs) s = bindR (f x s) (foldR f xs)"

lemma foldR_append: "foldR f (xs @ ys) s = bindR (foldR f xs s) (foldR f ys)"
  by (induction xs arbitrary: s) (auto split: bindR_split simp: bindR_def split: sum.splits)

lemma foldR_invariant:
  assumes "foldR f xs s = Inr t" and "P s"
    and "\<And>x s t. x \<in> set xs \<Longrightarrow> P s \<Longrightarrow> f x s = Inr t \<Longrightarrow> P t"
  shows "P t"
  using assms
proof (induction xs arbitrary: s)
  case Nil
  then show ?case by simp
next
  case (Cons x xs)
  from Cons.prems(1) obtain u where u: "f x s = Inr u" "foldR f xs u = Inr t"
    by (auto simp: bindR_Inr_iff)
  moreover from Cons.prems(2) u(1) have "P u"
    by (rule Cons.prems(3)[rotated]) simp
  ultimately show ?case
    using Cons.IH[of u] Cons.prems(3) by (meson list.set_intros(2))
qed

lemma mapR_Inr_iff:
  "mapR f xs = Inr ys \<longleftrightarrow> list_all2 (\<lambda>x y. f x = Inr y) xs ys"
  by (induction xs arbitrary: ys)
    (auto simp: bindR_Inr_iff list_all2_Cons1)

lemma mapR_set:
  assumes "mapR f xs = Inr ys"
  shows "y \<in> set ys \<longleftrightarrow> (\<exists>x \<in> set xs. f x = Inr y)"
  using assms by (induction xs arbitrary: ys) (auto simp: bindR_Inr_iff)

section \<open>Lists searched with a user-defined equality\<close>

definition present :: "('a \<Rightarrow> 'a \<Rightarrow> bool) \<Rightarrow> 'a \<Rightarrow> 'a list \<Rightarrow> bool" where
  "present eq x xs = (\<exists>e \<in> set xs. eq e x)"

definition add_unique :: "('a \<Rightarrow> 'a \<Rightarrow> bool) \<Rightarrow> 'a \<Rightarrow> 'a list \<Rightarrow> bool \<times> 'a list" where
  "add_unique eq x xs = (if present eq x xs then (False, xs) else (True, xs @ [x]))"

fun erase_first :: "('a \<Rightarrow> bool) \<Rightarrow> 'a list \<Rightarrow> 'a list option" where
  "erase_first P [] = None"
| "erase_first P (x # xs) =
     (if P x then Some xs else map_option (Cons x) (erase_first P xs))"

definition fresh_from :: "('a \<Rightarrow> 'a \<Rightarrow> bool) \<Rightarrow> 'a list \<Rightarrow> 'a list \<Rightarrow> 'a list" where
  "fresh_from eq old new = filter (\<lambda>n. \<not> (\<exists>x \<in> set old. eq n x)) new"

fun uniq_by :: "('a \<Rightarrow> 'a \<Rightarrow> bool) \<Rightarrow> 'a list \<Rightarrow> bool" where
  "uniq_by eq [] = True"
| "uniq_by eq (x # xs) = ((\<forall>y \<in> set xs. \<not> eq x y) \<and> uniq_by eq xs)"

definition updated_list :: "('a \<Rightarrow> 'a \<Rightarrow> bool) \<Rightarrow> 'a list \<Rightarrow> 'a list \<Rightarrow> 'a list" where
  "updated_list eq old new =
     filter (\<lambda>x. \<exists>y \<in> set new. eq x y) old @ fresh_from eq old new"

definition add_all :: "('a \<Rightarrow> 'a \<Rightarrow> bool) \<Rightarrow> 'a list \<Rightarrow> 'a list \<Rightarrow> 'a list" where
  "add_all eq ys xs = fold (\<lambda>y acc. snd (add_unique eq y acc)) ys xs"

fun erase_all :: "('a \<Rightarrow> 'a \<Rightarrow> bool) \<Rightarrow> 'a list \<Rightarrow> 'a list \<Rightarrow> 'a list option" where
  "erase_all eq [] xs = Some xs"
| "erase_all eq (y # ys) xs =
     Option.bind (erase_first (\<lambda>e. eq e y) xs) (erase_all eq ys)"

lemma erase_first_None_iff: "erase_first P xs = None \<longleftrightarrow> (\<forall>x \<in> set xs. \<not> P x)"
  by (induction xs) auto

lemma erase_first_SomeD:
  assumes "erase_first P xs = Some ys"
  obtains as x bs where "xs = as @ x # bs" "ys = as @ bs" "P x" "\<forall>a \<in> set as. \<not> P a"
  using assms
proof (induction xs arbitrary: ys thesis)
  case Nil
  then show ?case by simp
next
  case (Cons z zs)
  show ?case
  proof (cases "P z")
    case True
    with Cons.prems show ?thesis by (metis append_Nil empty_iff erase_first.simps(2) list.set(1) option.inject)
  next
    case False
    with Cons.prems(2) obtain ws where ws: "erase_first P zs = Some ws" "ys = z # ws"
      by auto
    from ws(1) obtain as x bs where "zs = as @ x # bs" "ws = as @ bs" "P x" "\<forall>a \<in> set as. \<not> P a"
      by (rule Cons.IH[rotated])
    with ws(2) False show ?thesis
      by (intro Cons.prems(1)[of "z # as" x bs]) auto
  qed
qed

lemma find_SomeD:
  assumes "find P xs = Some x"
  obtains as bs where "xs = as @ x # bs" "P x" "\<forall>a \<in> set as. \<not> P a"
  using assms
proof (induction xs arbitrary: thesis)
  case Nil
  then show ?case by simp
next
  case (Cons y ys)
  show ?case
  proof (cases "P y")
    case True
    with Cons.prems show ?thesis by (intro Cons.prems(1)[of "[]" ys]) auto
  next
    case False
    with Cons.prems(2) have "find P ys = Some x" by simp
    then obtain as bs where "ys = as @ x # bs" "P x" "\<forall>a \<in> set as. \<not> P a"
      by (rule Cons.IH[rotated])
    with False show ?thesis by (intro Cons.prems(1)[of "y # as" bs]) auto
  qed
qed

lemma erase_first_set: "erase_first P xs = Some ys \<Longrightarrow> set ys \<subseteq> set xs"
  by (erule erase_first_SomeD) auto

lemma erase_first_length: "erase_first P xs = Some ys \<Longrightarrow> length xs = Suc (length ys)"
  by (erule erase_first_SomeD) auto

lemma erase_first_append_hit:
  "\<forall>a \<in> set as. \<not> P a \<Longrightarrow> P x \<Longrightarrow> erase_first P (as @ x # bs) = Some (as @ bs)"
  by (induction as) auto

lemma uniq_by_append:
  "uniq_by eq (xs @ ys) \<longleftrightarrow> uniq_by eq xs \<and> uniq_by eq ys \<and> (\<forall>x \<in> set xs. \<forall>y \<in> set ys. \<not> eq x y)"
  by (induction xs) auto

lemma uniq_by_filter: "uniq_by eq xs \<Longrightarrow> uniq_by eq (filter P xs)"
  by (induction xs) auto

lemma uniq_by_fresh_from [intro]: "uniq_by eq new \<Longrightarrow> uniq_by eq (fresh_from eq old new)"
  by (simp add: fresh_from_def uniq_by_filter)

lemma add_all_uniq: "uniq_by eq (xs @ ys) \<Longrightarrow> add_all eq ys xs = xs @ ys"
proof (induction ys arbitrary: xs)
  case Nil
  then show ?case by (simp add: add_all_def)
next
  case (Cons y ys)
  have "\<not> present eq y xs"
    using Cons.prems by (auto simp: uniq_by_append present_def)
  then have "add_all eq (y # ys) xs = add_all eq ys (xs @ [y])"
    by (simp add: add_all_def add_unique_def)
  with Cons show ?case by simp
qed

lemma fold_if_filter:
  "fold (\<lambda>x s. if P x then s else f x s) xs s = fold f (filter (\<lambda>x. \<not> P x) xs) s"
  by (induction xs arbitrary: s) auto

text \<open>
  The contract: \<open>operator==\<close> is an equivalence. Under it the list is a finite set of
  equivalence classes and the loops of the code are the set operations.
\<close>

locale registry =
  fixes same :: "'a \<Rightarrow> 'a \<Rightarrow> bool"
  assumes same_refl: "same x x"
    and same_sym: "same x y \<Longrightarrow> same y x"
    and same_trans: "same x y \<Longrightarrow> same y z \<Longrightarrow> same x z"
begin

lemma same_commute: "same x y \<longleftrightarrow> same y x"
  using same_sym by blast

lemma present_cong: "same x y \<Longrightarrow> present same x xs \<longleftrightarrow> present same y xs"
  unfolding present_def using same_sym same_trans by blast

lemma present_member [intro]: "x \<in> set xs \<Longrightarrow> present same x xs"
  unfolding present_def using same_refl by blast

lemma present_add_unique [registry_simps]:
  "present same y (snd (add_unique same x xs)) \<longleftrightarrow> present same y xs \<or> same x y"
proof (cases "present same x xs")
  case True
  then show ?thesis
    using present_cong[of x y xs] by (auto simp: add_unique_def)
next
  case False
  then show ?thesis
    by (auto simp: add_unique_def present_def)
qed

lemma uniq_add_unique:
  "uniq_by same xs \<Longrightarrow> uniq_by same (snd (add_unique same x xs))"
  by (auto simp: add_unique_def uniq_by_append present_def)

lemma present_add_all [registry_simps]:
  "present same y (add_all same ys xs) \<longleftrightarrow> present same y xs \<or> present same y ys"
proof (induction ys arbitrary: xs)
  case Nil
  then show ?case by (simp add: add_all_def present_def)
next
  case (Cons z zs)
  have "add_all same (z # zs) xs = add_all same zs (snd (add_unique same z xs))"
    by (simp add: add_all_def)
  then show ?case
    by (auto simp: Cons.IH present_add_unique) (auto simp: present_def)
qed

lemma uniq_same_eq:
  "uniq_by same xs \<Longrightarrow> x \<in> set xs \<Longrightarrow> y \<in> set xs \<Longrightarrow> same x y \<Longrightarrow> x = y"
  by (induction xs) (auto dest: same_sym)

lemma uniq_add_all: "uniq_by same xs \<Longrightarrow> uniq_by same (add_all same ys xs)"
  by (induction ys arbitrary: xs) (simp_all add: add_all_def uniq_add_unique)

lemma erase_first_defined:
  "erase_first (\<lambda>e. same e x) xs \<noteq> None \<longleftrightarrow> present same x xs"
  by (auto simp: erase_first_None_iff present_def)

lemma present_erase_first [registry_simps]:
  assumes "uniq_by same xs" "erase_first (\<lambda>e. same e x) xs = Some ys"
  shows "present same y ys \<longleftrightarrow> present same y xs \<and> \<not> same x y"
proof -
  from assms(2) obtain as z bs where d: "xs = as @ z # bs" "ys = as @ bs" "same z x"
    by (rule erase_first_SomeD)
  with assms(1) have n: "\<forall>a \<in> set as \<union> set bs. \<not> same a z"
    by (auto simp: uniq_by_append dest: same_sym)
  show ?thesis
  proof
    assume "present same y ys"
    then obtain e where e: "e \<in> set as \<union> set bs" "same e y"
      by (auto simp: present_def d)
    moreover have "\<not> same x y"
      using e n d(3) same_sym same_trans by blast
    ultimately show "present same y xs \<and> \<not> same x y"
      by (auto simp: present_def d)
  next
    assume "present same y xs \<and> \<not> same x y"
    moreover from this have "\<not> same z y"
      using d(3) same_sym same_trans by blast
    ultimately show "present same y ys"
      by (auto simp: present_def d)
  qed
qed

lemma uniq_erase_first:
  "uniq_by same xs \<Longrightarrow> erase_first (\<lambda>e. same e x) xs = Some ys \<Longrightarrow> uniq_by same ys"
  by (erule erase_first_SomeD) (auto simp: uniq_by_append)

lemma erase_all_present:
  assumes "uniq_by same xs" "uniq_by same ys" "\<forall>y \<in> set ys. present same y xs"
  shows "\<exists>zs. erase_all same ys xs = Some zs \<and> uniq_by same zs \<and>
    (\<forall>v. present same v zs \<longleftrightarrow> present same v xs \<and> \<not> present same v ys)"
  using assms
proof (induction ys arbitrary: xs)
  case Nil
  then show ?case by (simp add: present_def)
next
  case (Cons y ys)
  from Cons.prems(3) have "present same y xs" by simp
  then obtain us where us: "erase_first (\<lambda>e. same e y) xs = Some us"
    using erase_first_defined by fastforce
  have u: "uniq_by same us"
    by (rule uniq_erase_first[OF Cons.prems(1) us])
  have p: "present same v us \<longleftrightarrow> present same v xs \<and> \<not> same y v" for v
    by (rule present_erase_first[OF Cons.prems(1) us])
  have "\<forall>v \<in> set ys. present same v us"
    using Cons.prems(2,3) p by auto
  then obtain zs where zs: "erase_all same ys us = Some zs" "uniq_by same zs"
    "\<forall>v. present same v zs \<longleftrightarrow> present same v us \<and> \<not> present same v ys"
    using Cons.IH[OF u] Cons.prems(2) by auto
  then show ?case
    using us p by (auto simp: present_def)
qed

lemma present_fresh_from [registry_simps]:
  "present same v (fresh_from same old new) \<longleftrightarrow> present same v new \<and> \<not> present same v old"
proof -
  have "(\<exists>x \<in> set old. same e x) \<longleftrightarrow> present same v old" if "same e v" for e
    using present_cong[OF that, of old] by (auto simp: present_def same_commute)
  then show ?thesis
    by (auto simp: present_def fresh_from_def)
qed

text \<open>
  Adding what is missing and then erasing what is no longer wanted keeps the old elements
  that the new list has, in their order, followed by the new ones.
\<close>

lemma erase_all_Cons_other:
  "\<forall>y \<in> set ys. \<not> same x y \<Longrightarrow>
     erase_all same ys (x # xs) = map_option (Cons x) (erase_all same ys xs)"
proof (induction ys arbitrary: xs)
  case Nil
  then show ?case by simp
next
  case (Cons y ys)
  then show ?case by (cases "erase_first (\<lambda>e. same e y) xs") auto
qed

lemma erase_all_filter:
  assumes "uniq_by same xs"
  shows "erase_all same (filter P xs) xs = Some (filter (\<lambda>x. \<not> P x) xs)"
  using assms
proof (induction xs)
  case Nil
  then show ?case by simp
next
  case (Cons x xs)
  then show ?case
    using erase_all_Cons_other[of "filter P xs" x xs] by (auto simp: same_refl)
qed

lemma fresh_from_extended:
  "fresh_from same new (old @ fresh_from same old new) = filter (\<lambda>x. \<not> (\<exists>y \<in> set new. same x y)) old"
  unfolding fresh_from_def using same_refl by (auto simp: filter_empty_conv)

lemma uniq_extended:
  assumes "uniq_by same old" "uniq_by same new"
  shows "uniq_by same (old @ fresh_from same old new)"
  using assms same_sym by (auto simp: uniq_by_append fresh_from_def uniq_by_filter)

lemma update_by_diffs:
  assumes "uniq_by same old" "uniq_by same new"
  shows "erase_all same (fresh_from same new (old @ fresh_from same old new))
      (old @ fresh_from same old new) = Some (updated_list same old new)"
proof -
  let ?P = "\<lambda>x. \<not> (\<exists>y \<in> set new. same x y)"
  have "fresh_from same new (old @ fresh_from same old new) =
      filter ?P (old @ fresh_from same old new)"
    unfolding fresh_from_def by simp
  moreover have "filter (\<lambda>x. \<not> ?P x) (old @ fresh_from same old new) = updated_list same old new"
    unfolding updated_list_def fresh_from_def using same_refl by (auto intro: filter_cong)
  ultimately show ?thesis
    using erase_all_filter[OF uniq_extended[OF assms], of ?P] by simp
qed

lemma present_updated_list [registry_simps]:
  "present same v (updated_list same old new) \<longleftrightarrow> present same v new"
proof -
  have "present same v (updated_list same old new) \<longleftrightarrow>
      (\<exists>x \<in> set old. (\<exists>y \<in> set new. same x y) \<and> same x v) \<or> present same v (fresh_from same old new)"
    by (auto simp: updated_list_def present_def)
  also have "\<dots> \<longleftrightarrow> present same v new"
  proof -
    have "present same v new" if "x \<in> set old" "y \<in> set new" "same x y" "same x v" for x y
      unfolding present_def using that same_sym same_trans by blast
    moreover have "\<exists>x \<in> set old. (\<exists>y \<in> set new. same x y) \<and> same x v"
      if "present same v new" "present same v old"
      using that unfolding present_def by (meson same_sym same_trans)
    ultimately show ?thesis
      unfolding present_fresh_from by blast
  qed
  finally show ?thesis .
qed

lemma uniq_updated_list:
  "uniq_by same old \<Longrightarrow> uniq_by same new \<Longrightarrow> uniq_by same (updated_list same old new)"
  unfolding updated_list_def using same_sym
  by (auto simp: uniq_by_append uniq_by_filter fresh_from_def)

end

section \<open>Ordered maps and sets\<close>

text \<open>
  \<open>std::map<string,V>\<close> is the list of its pairs in increasing key order, which is the
  order the iterators visit them in; \<open>std::set<string>\<close> is the increasing list of its
  elements. The order on \<open>string\<close> is the bytewise lexicographic order of
  \<open>std::string::operator<\<close>.
\<close>

type_synonym ('k, 'v) omap = "('k \<times> 'v) list"
type_synonym 'k oset = "'k list"

fun om_put :: "'k::linorder \<Rightarrow> 'v \<Rightarrow> ('k, 'v) omap \<Rightarrow> ('k, 'v) omap" where
  "om_put k v [] = [(k, v)]"
| "om_put k v ((k', v') # m) =
     (if k < k' then (k, v) # (k', v') # m
      else if k = k' then (k, v) # m
      else (k', v') # om_put k v m)"

definition om_erase :: "'k \<Rightarrow> ('k, 'v) omap \<Rightarrow> ('k, 'v) omap" where
  "om_erase k m = filter (\<lambda>(k', _). k' \<noteq> k) m"

definition om_count :: "('k, 'v) omap \<Rightarrow> 'k \<Rightarrow> bool" where
  "om_count m k = (map_of m k \<noteq> None)"

text \<open>\<open>insert\<close> keeps the value that is already there.\<close>

definition om_insert :: "'k::linorder \<Rightarrow> 'v \<Rightarrow> ('k, 'v) omap \<Rightarrow> ('k, 'v) omap" where
  "om_insert k v m = (if om_count m k then m else om_put k v m)"

abbreviation om_wf :: "('k::linorder, 'v) omap \<Rightarrow> bool" where
  "om_wf m \<equiv> sorted_wrt (<) (map fst m)"

lemma map_of_om_put [omap_simps]: "map_of (om_put k v m) = (map_of m)(k \<mapsto> v)"
  by (induction k v m rule: om_put.induct) (auto simp: fun_eq_iff)

lemma map_of_om_erase [omap_simps]: "map_of (om_erase k m) = (map_of m)(k := None)"
  by (induction m) (auto simp: om_erase_def fun_eq_iff)

lemma map_of_om_insert [omap_simps]:
  "map_of (om_insert k v m) = (if map_of m k = None then (map_of m)(k \<mapsto> v) else map_of m)"
  by (simp add: om_insert_def om_count_def map_of_om_put)

lemma set_om_put: "set (map fst (om_put k v m)) = insert k (set (map fst m))"
  by (induction k v m rule: om_put.induct) auto

lemma om_wf_distinct: "om_wf m \<Longrightarrow> distinct (map fst m)"
  by (simp add: strict_sorted_iff)

lemma om_wf_put: "om_wf m \<Longrightarrow> om_wf (om_put k v m)"
proof (induction k v m rule: om_put.induct)
  case (1 k v)
  then show ?case by simp
next
  case (2 k v k' v' m)
  have "set (map fst (om_put k v m)) = insert k (set (map fst m))"
    by (rule set_om_put)
  with 2 show ?case by (auto simp del: set_map)
qed

lemma om_wf_erase: "om_wf m \<Longrightarrow> om_wf (om_erase k m)"
  unfolding om_erase_def by (induction m) auto

locale ordered_map =
  fixes find :: "'m \<Rightarrow> 'k \<Rightarrow> 'v option"
    and put :: "'k \<Rightarrow> 'v \<Rightarrow> 'm \<Rightarrow> 'm"
    and erase :: "'k \<Rightarrow> 'm \<Rightarrow> 'm"
    and invar :: "'m \<Rightarrow> bool"
  assumes find_put: "find (put k v m) = (find m)(k \<mapsto> v)"
    and find_erase: "find (erase k m) = (find m)(k := None)"
    and invar_put: "invar m \<Longrightarrow> invar (put k v m)"
    and invar_erase: "invar m \<Longrightarrow> invar (erase k m)"
begin

lemma find_fold_put:
  "find (fold (\<lambda>(k, v). put k v) kvs m) = find m ++ map_of (rev kvs)"
proof (induction kvs arbitrary: m)
  case Nil
  then show ?case by simp
next
  case (Cons kv kvs)
  show ?case
    by (cases kv) (simp add: Cons.IH find_put map_add_def fun_eq_iff split: option.splits)
qed

lemma invar_fold_put: "invar m \<Longrightarrow> invar (fold (\<lambda>(k, v). put k v) kvs m)"
  by (induction kvs arbitrary: m) (auto simp: invar_put)

lemma put_then_erase: "find (erase k (put k v m)) = (find m)(k := None)"
  by (simp add: find_erase find_put)

lemma find_put_other: "k' \<noteq> k \<Longrightarrow> find (put k v m) k' = find m k'"
  by (simp add: find_put)

end

interpretation omap: ordered_map map_of om_put om_erase om_wf
  by unfold_locales (auto simp: omap_simps om_wf_put om_wf_erase)

definition os_insert :: "'k::linorder \<Rightarrow> 'k oset \<Rightarrow> 'k oset" where
  "os_insert x s = insort_insert x s"

lemma set_os_insert [simp]: "set (os_insert x s) = insert x (set s)"
  by (simp add: os_insert_def set_insort_insert)

lemma sorted_os_insert: "sorted s \<Longrightarrow> sorted (os_insert x s)"
  by (simp add: os_insert_def sorted_insort_insert)

lemma distinct_os_insert: "distinct s \<Longrightarrow> distinct (os_insert x s)"
  by (simp add: os_insert_def distinct_insort_insert)

section \<open>C strings\<close>

text \<open>
  A \<open>char*\<close> that may be \<open>NULL\<close> is a \<open>string option\<close>. Strings hold no NUL byte.
\<close>

type_synonym cstr = "string option"

definition digit :: "nat \<Rightarrow> char" where
  "digit d = char_of (48 + d)"

fun dec :: "nat \<Rightarrow> string" where
  "dec n = (if n < 10 then [digit n] else dec (n div 10) @ [digit (n mod 10)])"

declare dec.simps [simp del]

definition hex_digit :: "nat \<Rightarrow> char" where
  "hex_digit d = (if d < 10 then char_of (48 + d) else char_of (87 + d))"

fun hex :: "nat \<Rightarrow> string" where
  "hex n = (if n < 16 then [hex_digit n] else hex (n div 16) @ [hex_digit (n mod 16)])"

declare hex.simps [simp del]

definition digit_val :: "char \<Rightarrow> nat" where
  "digit_val c = of_char c - 48"

definition is_digit :: "char \<Rightarrow> bool" where
  "is_digit c = (48 \<le> (of_char c :: nat) \<and> (of_char c :: nat) \<le> 57)"

definition dec_val :: "string \<Rightarrow> nat" where
  "dec_val s = foldl (\<lambda>acc c. acc * 10 + digit_val c) 0 s"

lemma digit_val_digit [simp]: "d < 10 \<Longrightarrow> digit_val (digit d) = d"
  by (simp add: digit_val_def digit_def)

lemma is_digit_digit [simp]: "d < 10 \<Longrightarrow> is_digit (digit d)"
  by (simp add: is_digit_def digit_def)

lemma dec_digits: "\<forall>c \<in> set (dec n). is_digit c"
proof (induction n rule: dec.induct)
  case (1 n)
  show ?case
  proof (cases "n < 10")
    case True
    then show ?thesis by (subst dec.simps) simp
  next
    case False
    with "1.IH" show ?thesis by (subst dec.simps) auto
  qed
qed

lemma dec_nonempty [simp]: "dec n \<noteq> []"
  by (subst dec.simps) simp

lemma dec_val_dec [simp]: "dec_val (dec n) = n"
proof (induction n rule: dec.induct)
  case (1 n)
  show ?case
  proof (cases "n < 10")
    case True
    then show ?thesis by (subst dec.simps) (simp add: dec_val_def)
  next
    case False
    with "1.IH" have "dec_val (dec (n div 10)) = n div 10" by simp
    with False show ?thesis
      by (subst dec.simps) (simp add: dec_val_def)
  qed
qed

lemma dec_inj [simp]: "dec m = dec n \<longleftrightarrow> m = n"
  by (metis dec_val_dec)

lemma underscore_not_dec [simp]: "CHR ''_'' \<notin> set (dec n)"
  using dec_digits[of n] by (auto simp: is_digit_def)

text \<open>
  \<open>sscanf(s, "%u", &x)\<close>: leading white space, an optional sign and digits. The number is
  read as an unsigned long (saturated at its maximum) and stored in 32 bits. \<open>None\<close> means
  no conversion, so the variable keeps its value.
\<close>

definition is_space :: "char \<Rightarrow> bool" where
  "is_space c = ((of_char c :: nat) = 32 \<or> (9 \<le> (of_char c :: nat) \<and> (of_char c :: nat) \<le> 13))"

definition scan_digits :: "string \<Rightarrow> nat option" where
  "scan_digits s =
     (let ds = takeWhile is_digit s
      in if ds = [] then None else Some (min (dec_val ds) (2 ^ 64 - 1)))"

definition sscanf_u :: "string \<Rightarrow> 32 word option" where
  "sscanf_u s =
     (case dropWhile is_space s of
        [] \<Rightarrow> None
      | c # r \<Rightarrow>
          if c = CHR ''-'' then map_option (\<lambda>n. - of_nat n) (scan_digits r)
          else if c = CHR ''+'' then map_option of_nat (scan_digits r)
          else map_option of_nat (scan_digits (c # r)))"

text \<open>\<open>sscanf(s, "%d", &x)\<close>: read as a long, saturated at both ends, and stored in 32 bits.\<close>

definition sscanf_d :: "string \<Rightarrow> int option" where
  "sscanf_d s =
     (let store = (\<lambda>i. sint (word_of_int i :: 32 word))
      in case dropWhile is_space s of
           [] \<Rightarrow> None
         | c # r \<Rightarrow>
             if c = CHR ''-'' then map_option (\<lambda>n. store (max (- int n) (- (2 ^ 63)))) (scan_digits r)
             else if c = CHR ''+'' then map_option (\<lambda>n. store (min (int n) (2 ^ 63 - 1))) (scan_digits r)
             else map_option (\<lambda>n. store (min (int n) (2 ^ 63 - 1))) (scan_digits (c # r)))"

lemma sscanf_u_dec:
  assumes "n < 2 ^ 64"
  shows "sscanf_u (dec n) = Some (of_nat n)"
proof -
  obtain c r where cr: "dec n = c # r"
    using dec_nonempty[of n] by (cases "dec n") auto
  have c: "is_digit c" using dec_digits[of n] cr by simp
  have tw: "takeWhile is_digit (c # r) = c # r"
    using dec_digits[of n] cr by (simp add: takeWhile_eq_all_conv)
  have n: "dec_val (c # r) = n" using cr dec_val_dec[of n] by simp
  have "scan_digits (c # r) = Some n"
    unfolding scan_digits_def Let_def tw using assms n by auto
  moreover have "\<not> is_space c" "c \<noteq> CHR ''-''" "c \<noteq> CHR ''+''"
    using c by (auto simp: is_space_def is_digit_def)
  ultimately show ?thesis
    by (simp add: sscanf_u_def cr)
qed

text \<open>
  \<open>sscanf(s, "%x", &x)\<close>: white space, a sign, an optional \<open>0x\<close> and hexadecimal digits.
\<close>

definition hex_val :: "char \<Rightarrow> nat option" where
  "hex_val c =
     (let n = of_char c :: nat
      in if 48 \<le> n \<and> n \<le> 57 then Some (n - 48)
         else if 97 \<le> n \<and> n \<le> 102 then Some (n - 87)
         else if 65 \<le> n \<and> n \<le> 70 then Some (n - 55)
         else None)"

definition scan_hex :: "string \<Rightarrow> nat option" where
  "scan_hex s =
     (let r = (case s of z # x # r \<Rightarrow>
                 if z = CHR ''0'' \<and> (x = CHR ''x'' \<or> x = CHR ''X'') then r else s
               | _ \<Rightarrow> s);
          ds = takeWhile (\<lambda>c. hex_val c \<noteq> None) r
      in if ds = [] then None
         else Some (min (foldl (\<lambda>acc c. acc * 16 + the (hex_val c)) 0 ds) (2 ^ 64 - 1)))"

definition sscanf_x :: "string \<Rightarrow> 32 word option" where
  "sscanf_x s =
     (case dropWhile is_space s of
        [] \<Rightarrow> None
      | c # r \<Rightarrow>
          if c = CHR ''-'' then map_option (\<lambda>n. - of_nat n) (scan_hex r)
          else if c = CHR ''+'' then map_option of_nat (scan_hex r)
          else map_option of_nat (scan_hex (c # r)))"

text \<open>The successive results of \<open>strtok(s, d)\<close>: the maximal pieces without \<open>d\<close>.\<close>

function strtok :: "char \<Rightarrow> string \<Rightarrow> string list" where
  "strtok d s =
     (case dropWhile (\<lambda>c. c = d) s of
        [] \<Rightarrow> []
      | c # r \<Rightarrow> (c # takeWhile (\<lambda>x. x \<noteq> d) r) # strtok d (dropWhile (\<lambda>x. x \<noteq> d) r))"
  by pat_completeness auto
termination
proof (relation "measure (\<lambda>(d, s). length s)", simp)
  fix d s and c :: char and r
  assume "dropWhile (\<lambda>c. c = d) s = c # r"
  then have "Suc (length r) \<le> length s"
    using length_dropWhile_le[of "\<lambda>c. c = d" s] by simp
  moreover have "length (dropWhile (\<lambda>x. x \<noteq> d) r) \<le> length r"
    by (rule length_dropWhile_le)
  ultimately show "((d, dropWhile (\<lambda>x. x \<noteq> d) r), d, s) \<in> measure (\<lambda>(d, s). length s)"
    by simp
qed

declare strtok.simps [simp del]

definition dec_int :: "int \<Rightarrow> string" where
  "dec_int i = (if i < 0 then CHR ''-'' # dec (nat (- i)) else dec (nat i))"

text \<open>Names glued with an underscore: the number behind the last one is recovered.\<close>

definition underscore_name :: "string \<Rightarrow> nat \<Rightarrow> string" where
  "underscore_name s n = s @ ''_'' @ dec n"

lemma append_sep_inj:
  assumes "xs @ c # ys = us @ c # vs" "c \<notin> set ys" "c \<notin> set vs"
  shows "xs = us \<and> ys = vs"
proof -
  have r: "takeWhile (\<lambda>x. x \<noteq> c) (rev zs @ [c] @ rev ws) = rev zs" if "c \<notin> set zs" for zs ws
    using that by (subst takeWhile_append2) auto
  have "rev (xs @ c # ys) = rev (us @ c # vs)" by (simp only: assms(1))
  then have e: "rev ys @ [c] @ rev xs = rev vs @ [c] @ rev us" by simp
  from arg_cong[OF e, of "takeWhile (\<lambda>x. x \<noteq> c)"] have "rev ys = rev vs"
    unfolding r[OF assms(2)] r[OF assms(3)] .
  with assms(1) show ?thesis by simp
qed

lemma underscore_name_inj [simp]:
  "underscore_name s m = underscore_name t n \<longleftrightarrow> s = t \<and> m = n"
proof
  assume "underscore_name s m = underscore_name t n"
  then have "s @ CHR ''_'' # dec m = t @ CHR ''_'' # dec n"
    by (simp add: underscore_name_def)
  then have "s = t \<and> dec m = dec n"
    by (rule append_sep_inj) simp_all
  then show "s = t \<and> m = n" by simp
qed simp

end
