(* ===== verification/Flow_Match.thy ===== *)
theory Flow_Match
  imports UN_Prelude
begin

text \<open>
  The base class \<open>graph::Match\<close> (\<open>graph/match.h\<close>, \<open>graph/match.cc\<close>): its members in the
  order of the class, the constructor, the setters, \<open>isEqual\<close> and \<open>setAllCommonFields\<close>.
  High-level and low-level matches extend the record, as their classes extend this one.

  \<open>match_key\<close> is the abstract value of a match: \<open>isEqual\<close> is equality of keys, hence an
  equivalence, and \<open>setAllCommonFields\<close> into a new object computes \<open>common_key\<close>, whatever
  the uninitialised storage held.
\<close>

section \<open>Members and constructor\<close>

record Match =
  eth_src :: cstr
  eth_src_mask :: cstr
  eth_dst :: cstr
  eth_dst_mask :: cstr
  isEthType :: bool
  ethType :: "16 word"
  isVlanID :: bool
  vlanID :: "16 word"
  isNoVlan :: bool
  isAnyVlan :: bool
  isVlanPCP :: bool
  vlanPCP :: "8 word"
  isEndpointVlanID :: bool
  isIpDSCP :: bool
  ipDSCP :: "8 word"
  isIpECN :: bool
  ipECN :: "8 word"
  isIpProto :: bool
  ipProto :: "8 word"
  ipv4_src :: cstr
  ipv4_src_mask :: cstr
  ipv4_dst :: cstr
  ipv4_dst_mask :: cstr
  isTcpProtocol :: bool
  isUdpProtocol :: bool
  isSctpProtocol :: bool
  transport_src_port :: "16 word"
  transport_dst_port :: "16 word"
  isIcmpv4Type :: bool
  icmpv4Type :: "8 word"
  isIcmpv4Code :: bool
  icmpv4Code :: "8 word"
  isArpOpcode :: bool
  arpOpcode :: "16 word"
  arp_spa :: cstr
  arp_spa_mask :: cstr
  arp_tpa :: cstr
  arp_tpa_mask :: cstr
  arp_sha :: cstr
  arp_tha :: cstr
  ipv6_src :: cstr
  ipv6_src_mask :: cstr
  ipv6_dst :: cstr
  ipv6_dst_mask :: cstr
  isIpv6Flabel :: bool
  ipv6_flabel :: "32 word"
  ipv6_nd_target :: cstr
  ipv6_nd_sll :: cstr
  ipv6_nd_tll :: cstr
  isIcmpv6Type :: bool
  icmpv6Type :: "8 word"
  isIcmpv6Code :: bool
  icmpv6Code :: "8 word"
  isMplsLabel :: bool
  mplsLabel :: "32 word"
  isMplsTC :: bool
  mplsTC :: "8 word"
  gre_key :: cstr

text \<open>
  The constructor writes the members of its initialiser list and no other; the argument is
  the storage the object is built in, so a member the constructor leaves alone keeps what
  was there.
\<close>

definition Match_new :: "('a) Match_scheme \<Rightarrow> 'a Match_scheme" where
  "Match_new mem = mem\<lparr>
     eth_src := None, eth_src_mask := None, eth_dst := None, eth_dst_mask := None,
     isEthType := False, isVlanID := False, isNoVlan := False, isAnyVlan := False,
     isVlanPCP := False, isEndpointVlanID := False, isIpDSCP := False, isIpECN := False,
     isIpProto := False, ipv4_src := None, ipv4_src_mask := None, ipv4_dst := None,
     ipv4_dst_mask := None, isTcpProtocol := False, isUdpProtocol := False,
     isSctpProtocol := False, transport_src_port := 0, transport_dst_port := 0,
     isIcmpv4Type := False, isIcmpv4Code := False, isArpOpcode := False, arp_spa := None,
     arp_spa_mask := None, arp_tpa := None, arp_tpa_mask := None, arp_sha := None,
     arp_tha := None, ipv6_src := None, ipv6_src_mask := None, ipv6_dst := None,
     ipv6_dst_mask := None, isIpv6Flabel := False, ipv6_flabel := 0, ipv6_nd_target := None,
     ipv6_nd_sll := None, ipv6_nd_tll := None, isIcmpv6Type := False, isIcmpv6Code := False,
     isMplsLabel := False, mplsLabel := 0, isMplsTC := False, mplsTC := 0, gre_key := None\<rparr>"

section \<open>Setters\<close>

text \<open>
  A \<open>char*\<close> setter copies the string it is given; all its callers but one hold a
  non-null pointer, and that one, the last statement of \<open>setAllCommonFields\<close>, is why
  \<open>setGreKey\<close> takes a pointer and can fault in \<open>strlen\<close>.
\<close>

definition setEthSrc :: "string \<Rightarrow> 'a Match_scheme \<Rightarrow> 'a Match_scheme" where
  "setEthSrc s m = m\<lparr>eth_src := Some s\<rparr>"

definition setEthSrcMask :: "string \<Rightarrow> 'a Match_scheme \<Rightarrow> 'a Match_scheme" where
  "setEthSrcMask s m = m\<lparr>eth_src_mask := Some s\<rparr>"

definition setEthDst :: "string \<Rightarrow> 'a Match_scheme \<Rightarrow> 'a Match_scheme" where
  "setEthDst s m = m\<lparr>eth_dst := Some s\<rparr>"

definition setEthDstMask :: "string \<Rightarrow> 'a Match_scheme \<Rightarrow> 'a Match_scheme" where
  "setEthDstMask s m = m\<lparr>eth_dst_mask := Some s\<rparr>"

definition setEthType :: "16 word \<Rightarrow> 'a Match_scheme \<Rightarrow> 'a Match_scheme" where
  "setEthType v m = m\<lparr>ethType := v, isEthType := True\<rparr>"

definition setVlanID :: "16 word \<Rightarrow> 'a Match_scheme \<Rightarrow> 'a Match_scheme" where
  "setVlanID v m = m\<lparr>vlanID := v, isVlanID := True\<rparr>"

definition setVlanIDNoVlan :: "'a Match_scheme \<Rightarrow> 'a Match_scheme" where
  "setVlanIDNoVlan m = m\<lparr>isVlanID := False, isAnyVlan := False, isNoVlan := True\<rparr>"

definition setVlanIDAnyVlan :: "'a Match_scheme \<Rightarrow> 'a Match_scheme" where
  "setVlanIDAnyVlan m = m\<lparr>isVlanID := False, isNoVlan := False, isAnyVlan := True\<rparr>"

definition setVlanPCP :: "8 word \<Rightarrow> 'a Match_scheme \<Rightarrow> 'a Match_scheme" where
  "setVlanPCP v m = m\<lparr>vlanPCP := v, isVlanPCP := True\<rparr>"

definition setIpDSCP :: "8 word \<Rightarrow> 'a Match_scheme \<Rightarrow> 'a Match_scheme" where
  "setIpDSCP v m = m\<lparr>ipDSCP := v, isIpDSCP := True\<rparr>"

definition setIpECN :: "8 word \<Rightarrow> 'a Match_scheme \<Rightarrow> 'a Match_scheme" where
  "setIpECN v m = m\<lparr>ipECN := v, isIpECN := True\<rparr>"

definition setIpProto :: "8 word \<Rightarrow> 'a Match_scheme \<Rightarrow> 'a Match_scheme" where
  "setIpProto v m =
     (let m = m\<lparr>ipProto := v, isIpProto := True\<rparr>
      in if v = 6 then m\<lparr>isTcpProtocol := True\<rparr>
         else if v = 17 then m\<lparr>isUdpProtocol := True\<rparr>
         else if v = 132 then m\<lparr>isSctpProtocol := True\<rparr>
         else m)"

definition setIpv4Src :: "string \<Rightarrow> 'a Match_scheme \<Rightarrow> 'a Match_scheme" where
  "setIpv4Src s m = m\<lparr>ipv4_src := Some s\<rparr>"

definition setIpv4SrcMask :: "string \<Rightarrow> 'a Match_scheme \<Rightarrow> 'a Match_scheme" where
  "setIpv4SrcMask s m = m\<lparr>ipv4_src_mask := Some s\<rparr>"

definition setIpv4Dst :: "string \<Rightarrow> 'a Match_scheme \<Rightarrow> 'a Match_scheme" where
  "setIpv4Dst s m = m\<lparr>ipv4_dst := Some s\<rparr>"

definition setIpv4DstMask :: "string \<Rightarrow> 'a Match_scheme \<Rightarrow> 'a Match_scheme" where
  "setIpv4DstMask s m = m\<lparr>ipv4_dst_mask := Some s\<rparr>"

definition setTransportSrcPort :: "16 word \<Rightarrow> 'a Match_scheme \<Rightarrow> 'a Match_scheme" where
  "setTransportSrcPort v m = m\<lparr>transport_src_port := v\<rparr>"

definition setTransportDstPort :: "16 word \<Rightarrow> 'a Match_scheme \<Rightarrow> 'a Match_scheme" where
  "setTransportDstPort v m = m\<lparr>transport_dst_port := v\<rparr>"

definition setTcpProtocol :: "'a Match_scheme \<Rightarrow> 'a Match_scheme" where
  "setTcpProtocol m = m\<lparr>isTcpProtocol := True\<rparr>"

definition setUdpProtocol :: "'a Match_scheme \<Rightarrow> 'a Match_scheme" where
  "setUdpProtocol m = m\<lparr>isUdpProtocol := True\<rparr>"

definition setSctpProtocol :: "'a Match_scheme \<Rightarrow> 'a Match_scheme" where
  "setSctpProtocol m = m\<lparr>isSctpProtocol := True\<rparr>"

definition setIcmpv4Type :: "8 word \<Rightarrow> 'a Match_scheme \<Rightarrow> 'a Match_scheme" where
  "setIcmpv4Type v m = m\<lparr>icmpv4Type := v, isIcmpv4Type := True\<rparr>"

definition setIcmpv4Code :: "8 word \<Rightarrow> 'a Match_scheme \<Rightarrow> 'a Match_scheme" where
  "setIcmpv4Code v m = m\<lparr>icmpv4Code := v, isIcmpv4Code := True\<rparr>"

definition setArpOpCode :: "16 word \<Rightarrow> 'a Match_scheme \<Rightarrow> 'a Match_scheme" where
  "setArpOpCode v m = m\<lparr>arpOpcode := v, isArpOpcode := True\<rparr>"

definition setArpSpa :: "string \<Rightarrow> 'a Match_scheme \<Rightarrow> 'a Match_scheme" where
  "setArpSpa s m = m\<lparr>arp_spa := Some s\<rparr>"

definition setArpSpaMask :: "string \<Rightarrow> 'a Match_scheme \<Rightarrow> 'a Match_scheme" where
  "setArpSpaMask s m = m\<lparr>arp_spa_mask := Some s\<rparr>"

definition setArpTpa :: "string \<Rightarrow> 'a Match_scheme \<Rightarrow> 'a Match_scheme" where
  "setArpTpa s m = m\<lparr>arp_tpa := Some s\<rparr>"

definition setArpTpaMask :: "string \<Rightarrow> 'a Match_scheme \<Rightarrow> 'a Match_scheme" where
  "setArpTpaMask s m = m\<lparr>arp_tpa_mask := Some s\<rparr>"

definition setArpSha :: "string \<Rightarrow> 'a Match_scheme \<Rightarrow> 'a Match_scheme" where
  "setArpSha s m = m\<lparr>arp_sha := Some s\<rparr>"

definition setArpTha :: "string \<Rightarrow> 'a Match_scheme \<Rightarrow> 'a Match_scheme" where
  "setArpTha s m = m\<lparr>arp_tha := Some s\<rparr>"

definition setIpv6Src :: "string \<Rightarrow> 'a Match_scheme \<Rightarrow> 'a Match_scheme" where
  "setIpv6Src s m = m\<lparr>ipv6_src := Some s\<rparr>"

definition setIpv6SrcMask :: "string \<Rightarrow> 'a Match_scheme \<Rightarrow> 'a Match_scheme" where
  "setIpv6SrcMask s m = m\<lparr>ipv6_src_mask := Some s\<rparr>"

definition setIpv6Dst :: "string \<Rightarrow> 'a Match_scheme \<Rightarrow> 'a Match_scheme" where
  "setIpv6Dst s m = m\<lparr>ipv6_dst := Some s\<rparr>"

definition setIpv6DstMask :: "string \<Rightarrow> 'a Match_scheme \<Rightarrow> 'a Match_scheme" where
  "setIpv6DstMask s m = m\<lparr>ipv6_dst_mask := Some s\<rparr>"

definition setIpv6Flabel :: "32 word \<Rightarrow> 'a Match_scheme \<Rightarrow> 'a Match_scheme" where
  "setIpv6Flabel v m = m\<lparr>ipv6_flabel := v, isIpv6Flabel := True\<rparr>"

definition setIpv6NdTarget :: "string \<Rightarrow> 'a Match_scheme \<Rightarrow> 'a Match_scheme" where
  "setIpv6NdTarget s m = m\<lparr>ipv6_nd_target := Some s\<rparr>"

definition setIpv6NdSll :: "string \<Rightarrow> 'a Match_scheme \<Rightarrow> 'a Match_scheme" where
  "setIpv6NdSll s m = m\<lparr>ipv6_nd_sll := Some s\<rparr>"

definition setIpv6NdTll :: "string \<Rightarrow> 'a Match_scheme \<Rightarrow> 'a Match_scheme" where
  "setIpv6NdTll s m = m\<lparr>ipv6_nd_tll := Some s\<rparr>"

definition setIcmpv6Type :: "8 word \<Rightarrow> 'a Match_scheme \<Rightarrow> 'a Match_scheme" where
  "setIcmpv6Type v m = m\<lparr>icmpv6Type := v, isIcmpv6Type := True\<rparr>"

definition setIcmpv6Code :: "8 word \<Rightarrow> 'a Match_scheme \<Rightarrow> 'a Match_scheme" where
  "setIcmpv6Code v m = m\<lparr>icmpv6Code := v, isIcmpv6Code := True\<rparr>"

definition setMplsLabel :: "32 word \<Rightarrow> 'a Match_scheme \<Rightarrow> 'a Match_scheme" where
  "setMplsLabel v m = m\<lparr>mplsLabel := v, isMplsLabel := True\<rparr>"

definition setMplsTC :: "8 word \<Rightarrow> 'a Match_scheme \<Rightarrow> 'a Match_scheme" where
  "setMplsTC v m = m\<lparr>mplsTC := v, isMplsTC := True\<rparr>"

definition setEndpointVlanID :: "16 word \<Rightarrow> 'a Match_scheme \<Rightarrow> 'a Match_scheme" where
  "setEndpointVlanID v m = m\<lparr>vlanID := v, isEndpointVlanID := True\<rparr>"

definition setGreKey :: "cstr \<Rightarrow> 'a Match_scheme \<Rightarrow> 'a Match_scheme result" where
  "setGreKey p m = (case p of None \<Rightarrow> Inl NullPointer | Some s \<Rightarrow> Inr (m\<lparr>gre_key := Some s\<rparr>))"

lemmas match_setters =
  setEthSrc_def setEthSrcMask_def setEthDst_def setEthDstMask_def setEthType_def setVlanID_def
  setVlanIDNoVlan_def setVlanIDAnyVlan_def setVlanPCP_def setIpDSCP_def setIpECN_def
  setIpProto_def setIpv4Src_def setIpv4SrcMask_def setIpv4Dst_def setIpv4DstMask_def
  setTransportSrcPort_def setTransportDstPort_def setTcpProtocol_def setUdpProtocol_def
  setSctpProtocol_def setIcmpv4Type_def setIcmpv4Code_def setArpOpCode_def setArpSpa_def
  setArpSpaMask_def setArpTpa_def setArpTpaMask_def setArpSha_def setArpTha_def setIpv6Src_def
  setIpv6SrcMask_def setIpv6Dst_def setIpv6DstMask_def setIpv6Flabel_def setIpv6NdTarget_def
  setIpv6NdSll_def setIpv6NdTll_def setIcmpv6Type_def setIcmpv6Code_def setMplsLabel_def
  setMplsTC_def setEndpointVlanID_def setGreKey_def

section \<open>Equality\<close>

text \<open>
  The two comparison patterns of \<open>Match::isEqual\<close>: a string member that may be
  \<open>NULL\<close>, and a member that counts only when its flag is set.
\<close>

definition ptr_eq :: "cstr \<Rightarrow> cstr \<Rightarrow> bool" where
  "ptr_eq p q =
     (\<not> ((p = None \<and> q \<noteq> None) \<or> (p \<noteq> None \<and> q = None)) \<and>
      (case (p, q) of (Some s, Some t) \<Rightarrow> s = t | _ \<Rightarrow> True))"

definition flag_eq :: "bool \<Rightarrow> 'v \<Rightarrow> bool \<Rightarrow> 'v \<Rightarrow> bool" where
  "flag_eq f v g w = (\<not> ((f \<and> \<not> g) \<or> (\<not> f \<and> g)) \<and> \<not> (f \<and> v \<noteq> w))"

definition ports_eq :: "bool \<Rightarrow> bool \<Rightarrow> 'a Match_scheme \<Rightarrow> 'b Match_scheme \<Rightarrow> bool" where
  "ports_eq f g a b =
     (f = g \<and>
      \<not> (f \<and> (transport_src_port a \<noteq> transport_src_port b \<or>
              transport_dst_port a \<noteq> transport_dst_port b)))"

definition isEqual_ethernet :: "'a Match_scheme \<Rightarrow> 'b Match_scheme \<Rightarrow> bool" where
  "isEqual_ethernet a b =
     (ptr_eq (eth_src a) (eth_src b) \<and>
      ptr_eq (eth_src_mask a) (eth_src_mask b) \<and>
      ptr_eq (eth_dst a) (eth_dst b) \<and>
      ptr_eq (eth_dst_mask a) (eth_dst_mask b) \<and>
      flag_eq (isEthType a) (ethType a) (isEthType b) (ethType b))"

definition isEqual_vlan :: "'a Match_scheme \<Rightarrow> 'b Match_scheme \<Rightarrow> bool" where
  "isEqual_vlan a b =
     (flag_eq (isVlanID a) (vlanID a) (isVlanID b) (vlanID b) \<and>
      \<not> ((isNoVlan a \<and> \<not> isNoVlan b) \<or> (\<not> isNoVlan a \<and> isNoVlan b)) \<and>
      \<not> ((isAnyVlan a \<and> \<not> isAnyVlan b) \<or> (\<not> isAnyVlan a \<and> isAnyVlan b)) \<and>
      flag_eq (isVlanPCP a) (vlanPCP a) (isVlanPCP b) (vlanPCP b))"

definition isEqual_ipv4 :: "'a Match_scheme \<Rightarrow> 'b Match_scheme \<Rightarrow> bool" where
  "isEqual_ipv4 a b =
     (flag_eq (isIpDSCP a) (ipDSCP a) (isIpDSCP b) (ipDSCP b) \<and>
      flag_eq (isIpECN a) (ipECN a) (isIpECN b) (ipECN b) \<and>
      flag_eq (isIpProto a) (ipProto a) (isIpProto b) (ipProto b) \<and>
      ptr_eq (ipv4_src a) (ipv4_src b) \<and>
      ptr_eq (ipv4_src_mask a) (ipv4_src_mask b) \<and>
      ptr_eq (ipv4_dst a) (ipv4_dst b) \<and>
      ptr_eq (ipv4_dst_mask a) (ipv4_dst_mask b))"

definition isEqual_transport :: "'a Match_scheme \<Rightarrow> 'b Match_scheme \<Rightarrow> bool" where
  "isEqual_transport a b =
     (ports_eq (isTcpProtocol a) (isTcpProtocol b) a b \<and>
      ports_eq (isUdpProtocol a) (isUdpProtocol b) a b \<and>
      ports_eq (isSctpProtocol a) (isSctpProtocol b) a b)"

definition isEqual_icmpv4 :: "'a Match_scheme \<Rightarrow> 'b Match_scheme \<Rightarrow> bool" where
  "isEqual_icmpv4 a b =
     (flag_eq (isIcmpv4Type a) (icmpv4Type a) (isIcmpv4Type b) (icmpv4Type b) \<and>
      flag_eq (isIcmpv4Code a) (icmpv4Code a) (isIcmpv4Code b) (icmpv4Code b))"

definition isEqual_arp :: "'a Match_scheme \<Rightarrow> 'b Match_scheme \<Rightarrow> bool" where
  "isEqual_arp a b =
     (flag_eq (isArpOpcode a) (arpOpcode a) (isArpOpcode b) (arpOpcode b) \<and>
      ptr_eq (arp_spa a) (arp_spa b) \<and>
      ptr_eq (arp_spa_mask a) (arp_spa_mask b) \<and>
      ptr_eq (arp_tpa a) (arp_tpa b) \<and>
      ptr_eq (arp_tpa_mask a) (arp_tpa_mask b) \<and>
      ptr_eq (arp_sha a) (arp_sha b) \<and>
      ptr_eq (arp_tha a) (arp_tha b))"

definition isEqual_ipv6 :: "'a Match_scheme \<Rightarrow> 'b Match_scheme \<Rightarrow> bool" where
  "isEqual_ipv6 a b =
     (ptr_eq (ipv6_src a) (ipv6_src b) \<and>
      ptr_eq (ipv6_src_mask a) (ipv6_src_mask b) \<and>
      ptr_eq (ipv6_dst a) (ipv6_dst b) \<and>
      ptr_eq (ipv6_dst_mask a) (ipv6_dst_mask b) \<and>
      flag_eq (isIpv6Flabel a) (ipv6_flabel a) (isIpv6Flabel b) (ipv6_flabel b) \<and>
      ptr_eq (ipv6_nd_target a) (ipv6_nd_target b) \<and>
      ptr_eq (ipv6_nd_sll a) (ipv6_nd_sll b) \<and>
      ptr_eq (ipv6_nd_tll a) (ipv6_nd_tll b))"

definition isEqual_icmpv6 :: "'a Match_scheme \<Rightarrow> 'b Match_scheme \<Rightarrow> bool" where
  "isEqual_icmpv6 a b =
     (flag_eq (isIcmpv6Type a) (icmpv6Type a) (isIcmpv6Type b) (icmpv6Type b) \<and>
      flag_eq (isIcmpv6Code a) (icmpv6Code a) (isIcmpv6Code b) (icmpv6Code b))"

definition isEqual_mpls :: "'a Match_scheme \<Rightarrow> 'b Match_scheme \<Rightarrow> bool" where
  "isEqual_mpls a b =
     (flag_eq (isMplsLabel a) (mplsLabel a) (isMplsLabel b) (mplsLabel b) \<and>
      flag_eq (isMplsTC a) (mplsTC a) (isMplsTC b) (mplsTC b))"

definition isEqual_gre :: "'a Match_scheme \<Rightarrow> 'b Match_scheme \<Rightarrow> bool" where
  "isEqual_gre a b =
     (ptr_eq (gre_key a) (gre_key b))"

definition isEqual :: "'a Match_scheme \<Rightarrow> 'b Match_scheme \<Rightarrow> bool" where
  "isEqual a b =
     (isEqual_ethernet a b \<and> isEqual_vlan a b \<and> isEqual_ipv4 a b \<and>
      isEqual_transport a b \<and> isEqual_icmpv4 a b \<and> isEqual_arp a b \<and>
      isEqual_ipv6 a b \<and> isEqual_icmpv6 a b \<and> isEqual_mpls a b \<and> isEqual_gre a b)"

section \<open>Copying the common fields\<close>

text \<open>
  \<open>setAllCommonFields\<close> section by section; \<open>when_ptr\<close> and \<open>when_flag\<close> are its two
  guards, a non-null pointer and a set flag.
\<close>

definition when_ptr :: "cstr \<Rightarrow> (string \<Rightarrow> 'm \<Rightarrow> 'm) \<Rightarrow> 'm \<Rightarrow> 'm" where
  "when_ptr p setter m = (case p of None \<Rightarrow> m | Some s \<Rightarrow> setter s m)"

definition when_flag :: "bool \<Rightarrow> ('m \<Rightarrow> 'm) \<Rightarrow> 'm \<Rightarrow> 'm" where
  "when_flag b setter m = (if b then setter m else m)"

definition setAllCommonFields_ethernet :: "'b Match_scheme \<Rightarrow> 'a Match_scheme \<Rightarrow> 'a Match_scheme" where
  "setAllCommonFields_ethernet src m =
     (let m = when_ptr (eth_src src) setEthSrc m;
          m = when_ptr (eth_src_mask src) setEthSrcMask m;
          m = when_ptr (eth_dst src) setEthDst m;
          m = when_ptr (eth_dst_mask src) setEthDstMask m;
          m = when_flag (isEthType src) (setEthType (ethType src)) m
      in m)"

definition setAllCommonFields_vlan :: "'b Match_scheme \<Rightarrow> 'a Match_scheme \<Rightarrow> 'a Match_scheme" where
  "setAllCommonFields_vlan src m =
     (let m = (if isVlanID src \<or> isEndpointVlanID src then setVlanID (vlanID src) m
               else if isAnyVlan src then setVlanIDAnyVlan m
               else if isNoVlan src then setVlanIDNoVlan m
               else m)
      in when_flag (isVlanPCP src) (setVlanPCP (vlanPCP src)) m)"

definition setAllCommonFields_ipv4 :: "'b Match_scheme \<Rightarrow> 'a Match_scheme \<Rightarrow> 'a Match_scheme" where
  "setAllCommonFields_ipv4 src m =
     (let m = when_flag (isIpDSCP src) (setIpDSCP (ipDSCP src)) m;
          m = when_flag (isIpECN src) (setIpECN (ipECN src)) m;
          m = when_flag (isIpProto src) (setIpProto (ipProto src)) m;
          m = when_ptr (ipv4_src src) setIpv4Src m;
          m = when_ptr (ipv4_src_mask src) setIpv4SrcMask m;
          m = when_ptr (ipv4_dst src) setIpv4Dst m;
          m = when_ptr (ipv4_dst_mask src) setIpv4DstMask m
      in m)"

definition setAllCommonFields_transport :: "'b Match_scheme \<Rightarrow> 'a Match_scheme \<Rightarrow> 'a Match_scheme" where
  "setAllCommonFields_transport src m =
     (if isTcpProtocol src \<or> isUdpProtocol src \<or> isSctpProtocol src
      then setTransportDstPort (transport_dst_port src)
             (setTransportSrcPort (transport_src_port src) m)
      else m)"

definition setAllCommonFields_icmpv4 :: "'b Match_scheme \<Rightarrow> 'a Match_scheme \<Rightarrow> 'a Match_scheme" where
  "setAllCommonFields_icmpv4 src m =
     (let m = when_flag (isIcmpv4Type src) (setIcmpv4Type (icmpv4Type src)) m;
          m = when_flag (isIcmpv4Code src) (setIcmpv4Code (icmpv4Code src)) m
      in m)"

definition setAllCommonFields_arp :: "'b Match_scheme \<Rightarrow> 'a Match_scheme \<Rightarrow> 'a Match_scheme" where
  "setAllCommonFields_arp src m =
     (let m = when_flag (isArpOpcode src) (setArpOpCode (arpOpcode src)) m;
          m = when_ptr (arp_spa src) setArpSpa m;
          m = when_ptr (arp_spa_mask src) setArpSpaMask m;
          m = when_ptr (arp_tpa src) setArpTpa m;
          m = when_ptr (arp_tpa_mask src) setArpTpaMask m;
          m = when_ptr (arp_sha src) setArpSha m;
          m = when_ptr (arp_tha src) setArpTha m
      in m)"

definition setAllCommonFields_ipv6 :: "'b Match_scheme \<Rightarrow> 'a Match_scheme \<Rightarrow> 'a Match_scheme" where
  "setAllCommonFields_ipv6 src m =
     (let m = when_ptr (ipv6_src src) setIpv6Src m;
          m = when_ptr (ipv6_src_mask src) setIpv6SrcMask m;
          m = when_ptr (ipv6_dst src) setIpv6Dst m;
          m = when_ptr (ipv6_dst_mask src) setIpv6DstMask m;
          m = when_flag (isIpv6Flabel src) (setIpv6Flabel (ipv6_flabel src)) m;
          m = when_ptr (ipv6_nd_target src) setIpv6NdTarget m;
          m = when_ptr (ipv6_nd_sll src) setIpv6NdSll m;
          m = when_ptr (ipv6_nd_tll src) setIpv6NdTll m
      in m)"

definition setAllCommonFields_icmpv6 :: "'b Match_scheme \<Rightarrow> 'a Match_scheme \<Rightarrow> 'a Match_scheme" where
  "setAllCommonFields_icmpv6 src m =
     (let m = when_flag (isIcmpv6Type src) (setIcmpv6Type (icmpv6Type src)) m;
          m = when_flag (isIcmpv6Code src) (setIcmpv6Code (icmpv6Code src)) m
      in m)"

definition setAllCommonFields_mpls :: "'b Match_scheme \<Rightarrow> 'a Match_scheme \<Rightarrow> 'a Match_scheme" where
  "setAllCommonFields_mpls src m =
     (let m = when_flag (isMplsLabel src) (setMplsLabel (mplsLabel src)) m;
          m = when_flag (isMplsTC src) (setMplsTC (mplsTC src)) m
      in m)"

text \<open>
  The GRE section: the second guard tests \<open>ipv6_dst\<close> and copies \<open>gre_key\<close> once more.
\<close>

definition setAllCommonFields_gre ::
  "'b Match_scheme \<Rightarrow> 'a Match_scheme \<Rightarrow> 'a Match_scheme result" where
  "setAllCommonFields_gre src m =
     bindR (if gre_key src \<noteq> None then setGreKey (gre_key src) m else Inr m) (\<lambda>m.
     if ipv6_dst src \<noteq> None then setGreKey (gre_key src) m else Inr m)"

definition setAllCommonFields ::
  "'b Match_scheme \<Rightarrow> 'a Match_scheme \<Rightarrow> 'a Match_scheme result" where
  "setAllCommonFields src m =
     (let m = setAllCommonFields_ethernet src m;
          m = setAllCommonFields_vlan src m;
          m = setAllCommonFields_ipv4 src m;
          m = setAllCommonFields_transport src m;
          m = setAllCommonFields_icmpv4 src m;
          m = setAllCommonFields_arp src m;
          m = setAllCommonFields_ipv6 src m;
          m = setAllCommonFields_icmpv6 src m;
          m = setAllCommonFields_mpls src m
      in setAllCommonFields_gre src m)"

section \<open>What the copy writes\<close>

text \<open>
  Each guarded setter as one record update, so that the whole copy is one update whose
  members can be read off.
\<close>

definition orelse :: "cstr \<Rightarrow> cstr \<Rightarrow> cstr" where
  "orelse p q = (case p of None \<Rightarrow> q | Some s \<Rightarrow> Some s)"

lemma orelse_simps [simp]: "orelse p None = p" "orelse None q = q" "orelse (Some s) q = Some s"
  by (simp_all add: orelse_def split: option.split)

lemma when_ptr_updates:
  "when_ptr p setEthSrc m = eth_src_update (orelse p) m"
  "when_ptr p setEthSrcMask m = eth_src_mask_update (orelse p) m"
  "when_ptr p setEthDst m = eth_dst_update (orelse p) m"
  "when_ptr p setEthDstMask m = eth_dst_mask_update (orelse p) m"
  "when_ptr p setIpv4Src m = ipv4_src_update (orelse p) m"
  "when_ptr p setIpv4SrcMask m = ipv4_src_mask_update (orelse p) m"
  "when_ptr p setIpv4Dst m = ipv4_dst_update (orelse p) m"
  "when_ptr p setIpv4DstMask m = ipv4_dst_mask_update (orelse p) m"
  "when_ptr p setArpSpa m = arp_spa_update (orelse p) m"
  "when_ptr p setArpSpaMask m = arp_spa_mask_update (orelse p) m"
  "when_ptr p setArpTpa m = arp_tpa_update (orelse p) m"
  "when_ptr p setArpTpaMask m = arp_tpa_mask_update (orelse p) m"
  "when_ptr p setArpSha m = arp_sha_update (orelse p) m"
  "when_ptr p setArpTha m = arp_tha_update (orelse p) m"
  "when_ptr p setIpv6Src m = ipv6_src_update (orelse p) m"
  "when_ptr p setIpv6SrcMask m = ipv6_src_mask_update (orelse p) m"
  "when_ptr p setIpv6Dst m = ipv6_dst_update (orelse p) m"
  "when_ptr p setIpv6DstMask m = ipv6_dst_mask_update (orelse p) m"
  "when_ptr p setIpv6NdTarget m = ipv6_nd_target_update (orelse p) m"
  "when_ptr p setIpv6NdSll m = ipv6_nd_sll_update (orelse p) m"
  "when_ptr p setIpv6NdTll m = ipv6_nd_tll_update (orelse p) m"
  by (simp_all add: when_ptr_def orelse_def match_setters split: option.split)

lemma when_flag_updates:
  "when_flag b (setEthType v16) m = isEthType_update ((\<or>) b) (ethType_update (\<lambda>v. if b then v16 else v) m)"
  "when_flag b (setVlanID v16) m = isVlanID_update ((\<or>) b) (vlanID_update (\<lambda>v. if b then v16 else v) m)"
  "when_flag b (setVlanPCP v8) m = isVlanPCP_update ((\<or>) b) (vlanPCP_update (\<lambda>v. if b then v8 else v) m)"
  "when_flag b (setIpDSCP v8) m = isIpDSCP_update ((\<or>) b) (ipDSCP_update (\<lambda>v. if b then v8 else v) m)"
  "when_flag b (setIpECN v8) m = isIpECN_update ((\<or>) b) (ipECN_update (\<lambda>v. if b then v8 else v) m)"
  "when_flag b (setIcmpv4Type v8) m = isIcmpv4Type_update ((\<or>) b) (icmpv4Type_update (\<lambda>v. if b then v8 else v) m)"
  "when_flag b (setIcmpv4Code v8) m = isIcmpv4Code_update ((\<or>) b) (icmpv4Code_update (\<lambda>v. if b then v8 else v) m)"
  "when_flag b (setArpOpCode v16) m = isArpOpcode_update ((\<or>) b) (arpOpcode_update (\<lambda>v. if b then v16 else v) m)"
  "when_flag b (setIpv6Flabel v32) m = isIpv6Flabel_update ((\<or>) b) (ipv6_flabel_update (\<lambda>v. if b then v32 else v) m)"
  "when_flag b (setIcmpv6Type v8) m = isIcmpv6Type_update ((\<or>) b) (icmpv6Type_update (\<lambda>v. if b then v8 else v) m)"
  "when_flag b (setIcmpv6Code v8) m = isIcmpv6Code_update ((\<or>) b) (icmpv6Code_update (\<lambda>v. if b then v8 else v) m)"
  "when_flag b (setMplsLabel v32) m = isMplsLabel_update ((\<or>) b) (mplsLabel_update (\<lambda>v. if b then v32 else v) m)"
  "when_flag b (setMplsTC v8) m = isMplsTC_update ((\<or>) b) (mplsTC_update (\<lambda>v. if b then v8 else v) m)"
  "when_flag b (setEndpointVlanID v16) m = isEndpointVlanID_update ((\<or>) b) (vlanID_update (\<lambda>v. if b then v16 else v) m)"
  "when_flag b (setIpProto v8) m =
     isSctpProtocol_update ((\<or>) (b \<and> v8 = 132)) (isUdpProtocol_update ((\<or>) (b \<and> v8 = 17))
       (isTcpProtocol_update ((\<or>) (b \<and> v8 = 6)) (isIpProto_update ((\<or>) b)
         (ipProto_update (\<lambda>v. if b then v8 else v) m))))"
  by (simp_all add: when_flag_def match_setters Let_def)

lemmas copy_sections =
  setAllCommonFields_ethernet_def
  setAllCommonFields_vlan_def
  setAllCommonFields_ipv4_def
  setAllCommonFields_transport_def
  setAllCommonFields_icmpv4_def
  setAllCommonFields_arp_def
  setAllCommonFields_ipv6_def
  setAllCommonFields_icmpv6_def
  setAllCommonFields_mpls_def

lemma setAllCommonFields_gre_eq:
  "setAllCommonFields_gre src m =
     (if ipv6_dst src \<noteq> None \<and> gre_key src = None then Inl NullPointer
      else Inr (m\<lparr>gre_key := orelse (gre_key src) (gre_key m)\<rparr>))"
  by (cases "gre_key src") (simp_all add: setAllCommonFields_gre_def setGreKey_def)

section \<open>The abstract value of a match\<close>

definition flagged :: "bool \<Rightarrow> 'v \<Rightarrow> 'v option" where
  "flagged f v = (if f then Some v else None)"

lemma ptr_eq_iff: "ptr_eq p q \<longleftrightarrow> p = q"
  by (cases p; cases q) (simp_all add: ptr_eq_def)

lemma flag_eq_iff: "flag_eq f v g w \<longleftrightarrow> flagged f v = flagged g w"
  by (cases f; cases g) (simp_all add: flag_eq_def flagged_def)

definition key_ethernet where
  "key_ethernet m = (eth_src m, eth_src_mask m, eth_dst m, eth_dst_mask m,
     flagged (isEthType m) (ethType m))"

definition key_vlan where
  "key_vlan m = (flagged (isVlanID m) (vlanID m), isNoVlan m, isAnyVlan m,
     flagged (isVlanPCP m) (vlanPCP m))"

definition key_ipv4 where
  "key_ipv4 m = (flagged (isIpDSCP m) (ipDSCP m), flagged (isIpECN m) (ipECN m),
     flagged (isIpProto m) (ipProto m), ipv4_src m, ipv4_src_mask m, ipv4_dst m, ipv4_dst_mask m)"

definition key_transport where
  "key_transport m = (isTcpProtocol m, isUdpProtocol m, isSctpProtocol m,
     flagged (isTcpProtocol m \<or> isUdpProtocol m \<or> isSctpProtocol m)
       (transport_src_port m, transport_dst_port m))"

definition key_icmpv4 where
  "key_icmpv4 m = (flagged (isIcmpv4Type m) (icmpv4Type m), flagged (isIcmpv4Code m) (icmpv4Code m))"

definition key_arp where
  "key_arp m = (flagged (isArpOpcode m) (arpOpcode m), arp_spa m, arp_spa_mask m, arp_tpa m,
     arp_tpa_mask m, arp_sha m, arp_tha m)"

definition key_ipv6 where
  "key_ipv6 m = (ipv6_src m, ipv6_src_mask m, ipv6_dst m, ipv6_dst_mask m,
     flagged (isIpv6Flabel m) (ipv6_flabel m), ipv6_nd_target m, ipv6_nd_sll m, ipv6_nd_tll m)"

definition key_icmpv6 where
  "key_icmpv6 m = (flagged (isIcmpv6Type m) (icmpv6Type m), flagged (isIcmpv6Code m) (icmpv6Code m))"

definition key_mpls where
  "key_mpls m = (flagged (isMplsLabel m) (mplsLabel m), flagged (isMplsTC m) (mplsTC m))"

definition match_key where
  "match_key m = (key_ethernet m, key_vlan m, key_ipv4 m, key_transport m, key_icmpv4 m,
     key_arp m, key_ipv6 m, key_icmpv6 m, key_mpls m, gre_key m)"

lemmas key_defs = key_ethernet_def key_vlan_def key_ipv4_def key_transport_def key_icmpv4_def
  key_arp_def key_ipv6_def key_icmpv6_def key_mpls_def

lemma isEqual_ethernet_key: "isEqual_ethernet a b \<longleftrightarrow> key_ethernet a = key_ethernet b"
  by (simp add: isEqual_ethernet_def key_ethernet_def ptr_eq_iff flag_eq_iff)

lemma isEqual_vlan_key: "isEqual_vlan a b \<longleftrightarrow> key_vlan a = key_vlan b"
  by (auto simp: isEqual_vlan_def key_vlan_def flag_eq_iff)

lemma isEqual_ipv4_key: "isEqual_ipv4 a b \<longleftrightarrow> key_ipv4 a = key_ipv4 b"
  by (simp add: isEqual_ipv4_def key_ipv4_def ptr_eq_iff flag_eq_iff)

lemma isEqual_transport_key: "isEqual_transport a b \<longleftrightarrow> key_transport a = key_transport b"
  by (auto simp: isEqual_transport_def key_transport_def ports_eq_def flagged_def)

lemma isEqual_icmpv4_key: "isEqual_icmpv4 a b \<longleftrightarrow> key_icmpv4 a = key_icmpv4 b"
  by (simp add: isEqual_icmpv4_def key_icmpv4_def flag_eq_iff)

lemma isEqual_arp_key: "isEqual_arp a b \<longleftrightarrow> key_arp a = key_arp b"
  by (simp add: isEqual_arp_def key_arp_def ptr_eq_iff flag_eq_iff)

lemma isEqual_ipv6_key: "isEqual_ipv6 a b \<longleftrightarrow> key_ipv6 a = key_ipv6 b"
  by (simp add: isEqual_ipv6_def key_ipv6_def ptr_eq_iff flag_eq_iff)

lemma isEqual_icmpv6_key: "isEqual_icmpv6 a b \<longleftrightarrow> key_icmpv6 a = key_icmpv6 b"
  by (simp add: isEqual_icmpv6_def key_icmpv6_def flag_eq_iff)

lemma isEqual_mpls_key: "isEqual_mpls a b \<longleftrightarrow> key_mpls a = key_mpls b"
  by (simp add: isEqual_mpls_def key_mpls_def flag_eq_iff)

lemma isEqual_iff_key: "isEqual a b \<longleftrightarrow> match_key a = match_key b"
  by (simp add: isEqual_def match_key_def isEqual_ethernet_key isEqual_vlan_key isEqual_ipv4_key
      isEqual_transport_key isEqual_icmpv4_key isEqual_arp_key isEqual_ipv6_key
      isEqual_icmpv6_key isEqual_mpls_key isEqual_gre_def ptr_eq_iff)

interpretation match_eq: registry isEqual
  by unfold_locales (simp_all add: isEqual_iff_key)

section \<open>The copy computes the common key\<close>

text \<open>
  Everything \<open>setAllCommonFields\<close> writes when it does not fault.
\<close>

definition copy_fields :: "'b Match_scheme \<Rightarrow> 'a Match_scheme \<Rightarrow> 'a Match_scheme" where
  "copy_fields src m =
     (setAllCommonFields_mpls src (setAllCommonFields_icmpv6 src (setAllCommonFields_ipv6 src
       (setAllCommonFields_arp src (setAllCommonFields_icmpv4 src (setAllCommonFields_transport src
         (setAllCommonFields_ipv4 src (setAllCommonFields_vlan src
           (setAllCommonFields_ethernet src m)))))))))
     \<lparr>gre_key := orelse (gre_key src) (gre_key m)\<rparr>"

lemma copy_vlan_update:
  "setAllCommonFields_vlan src m =
     (let v = isVlanID src \<or> isEndpointVlanID src; a = isAnyVlan src; n = isNoVlan src
      in isVlanPCP_update ((\<or>) (isVlanPCP src))
        (vlanPCP_update (\<lambda>p. if isVlanPCP src then vlanPCP src else p)
        (isNoVlan_update (\<lambda>f. if v then f else \<not> a \<and> (n \<or> f))
        (isAnyVlan_update (\<lambda>f. if v then f else a \<or> \<not> n \<and> f)
        (vlanID_update (\<lambda>i. if v then vlanID src else i)
        (isVlanID_update (\<lambda>f. v \<or> \<not> a \<and> \<not> n \<and> f) m))))))"
  by (simp add: setAllCommonFields_vlan_def when_flag_updates match_setters Let_def)

lemma copy_transport_update:
  "setAllCommonFields_transport src m =
     (let f = isTcpProtocol src \<or> isUdpProtocol src \<or> isSctpProtocol src
      in transport_dst_port_update (\<lambda>p. if f then transport_dst_port src else p)
        (transport_src_port_update (\<lambda>p. if f then transport_src_port src else p) m))"
  by (simp add: setAllCommonFields_transport_def match_setters)

lemmas copy_updates = setAllCommonFields_ethernet_def setAllCommonFields_ipv4_def
  setAllCommonFields_icmpv4_def setAllCommonFields_arp_def setAllCommonFields_ipv6_def
  setAllCommonFields_icmpv6_def setAllCommonFields_mpls_def copy_vlan_update
  copy_transport_update when_ptr_updates when_flag_updates Let_def

lemma copy_gre_key:
  "gre_key (setAllCommonFields_mpls src (setAllCommonFields_icmpv6 src (setAllCommonFields_ipv6 src
       (setAllCommonFields_arp src (setAllCommonFields_icmpv4 src (setAllCommonFields_transport src
         (setAllCommonFields_ipv4 src (setAllCommonFields_vlan src
           (setAllCommonFields_ethernet src m))))))))) = gre_key m"
  by (simp add: copy_updates)

lemma setAllCommonFields_eq:
  "setAllCommonFields src m =
     (if ipv6_dst src \<noteq> None \<and> gre_key src = None then Inl NullPointer
      else Inr (copy_fields src m))"
  by (simp add: setAllCommonFields_def Let_def setAllCommonFields_gre_eq copy_gre_key
      copy_fields_def)

text \<open>
  The key of the copy in terms of the source: an endpoint VLAN becomes a plain VLAN match,
  an explicit VLAN wins over \<open>ANY\<close> and that over \<open>NO_VLAN\<close>, and the transport flags follow
  the protocol number.
\<close>

definition common_vlan where
  "common_vlan m =
     (let v = isVlanID m \<or> isEndpointVlanID m
      in (flagged v (vlanID m), \<not> v \<and> \<not> isAnyVlan m \<and> isNoVlan m, \<not> v \<and> isAnyVlan m,
          flagged (isVlanPCP m) (vlanPCP m)))"

definition common_transport where
  "common_transport m =
     (let t = isIpProto m \<and> ipProto m = 6; u = isIpProto m \<and> ipProto m = 17;
          s = isIpProto m \<and> ipProto m = 132
      in (t, u, s, flagged (t \<or> u \<or> s)
            (if isTcpProtocol m \<or> isUdpProtocol m \<or> isSctpProtocol m
             then (transport_src_port m, transport_dst_port m) else (0, 0))))"

definition common_key where
  "common_key m = (key_ethernet m, common_vlan m, key_ipv4 m, common_transport m, key_icmpv4 m,
     key_arp m, key_ipv6 m, key_icmpv6 m, key_mpls m, gre_key m)"

lemmas copy_new = copy_fields_def copy_updates Match_new_def

lemma copy_key_sections:
  "key_ethernet (copy_fields src (Match_new mem)) = key_ethernet src"
  "key_vlan (copy_fields src (Match_new mem)) = common_vlan src"
  "key_ipv4 (copy_fields src (Match_new mem)) = key_ipv4 src"
  "key_transport (copy_fields src (Match_new mem)) = common_transport src"
  "key_icmpv4 (copy_fields src (Match_new mem)) = key_icmpv4 src"
  "key_arp (copy_fields src (Match_new mem)) = key_arp src"
  "key_ipv6 (copy_fields src (Match_new mem)) = key_ipv6 src"
  "key_icmpv6 (copy_fields src (Match_new mem)) = key_icmpv6 src"
  "key_mpls (copy_fields src (Match_new mem)) = key_mpls src"
  "gre_key (copy_fields src (Match_new mem)) = gre_key src"
  by (simp_all add: copy_new key_defs flagged_def common_vlan_def common_transport_def)

lemma copy_key: "match_key (copy_fields src (Match_new mem)) = common_key src"
  by (simp add: match_key_def common_key_def copy_key_sections)

section \<open>Well-formed matches\<close>

text \<open>
  The invariant the parser keeps: the transport flags are those of the protocol number, and
  at most one of the three VLAN conditions is set.
\<close>

definition wf_match :: "'a Match_scheme \<Rightarrow> bool" where
  "wf_match m =
     ((isTcpProtocol m \<longleftrightarrow> isIpProto m \<and> ipProto m = 6) \<and>
      (isUdpProtocol m \<longleftrightarrow> isIpProto m \<and> ipProto m = 17) \<and>
      (isSctpProtocol m \<longleftrightarrow> isIpProto m \<and> ipProto m = 132) \<and>
      \<not> (isNoVlan m \<and> isAnyVlan m) \<and>
      ((isVlanID m \<or> isEndpointVlanID m) \<longrightarrow> \<not> isNoVlan m \<and> \<not> isAnyVlan m))"

lemma common_key_wf:
  assumes "wf_match m" "\<not> isEndpointVlanID m"
  shows "common_key m = match_key m"
  using assms
  by (auto simp: common_key_def match_key_def wf_match_def common_vlan_def common_transport_def
      key_defs flagged_def)

lemma wf_Match_new [simp]: "\<not> isEndpointVlanID (Match_new mem)" "wf_match (Match_new mem)"
  by (simp_all add: wf_match_def Match_new_def)

lemma wf_copy: "wf_match (copy_fields src (Match_new mem))"
  by (auto simp: wf_match_def copy_new)

section \<open>Properties\<close>


text \<open>
  (C11) Copying the common fields into a new match faults exactly when the source has an IPv6
  destination and no GRE key, and then on a null pointer. Otherwise the copy has the common key of
  the source, whatever the storage held.
\<close>

theorem setAllCommonFields_into_new:
  "case setAllCommonFields src (Match_new mem) of
     Inl e \<Rightarrow> e = NullPointer \<and> ipv6_dst src \<noteq> None \<and> gre_key src = None
   | Inr m \<Rightarrow> match_key m = common_key src \<and> \<not> (ipv6_dst src \<noteq> None \<and> gre_key src = None)"
  by (simp add: setAllCommonFields_eq copy_key)

text \<open>
  (C12) The copy of a well-formed match that is not on a VLAN endpoint is equal to it.
\<close>

theorem setAllCommonFields_equal:
  assumes "wf_match src" "\<not> isEndpointVlanID src"
    and "ipv6_dst src = None \<or> gre_key src \<noteq> None"
  shows "\<exists>m. setAllCommonFields src (Match_new mem) = Inr m \<and> isEqual m src \<and> wf_match m"
  using assms by (auto simp: setAllCommonFields_eq isEqual_iff_key copy_key common_key_wf wf_copy)

definition ex_tcp :: "'a Match_scheme \<Rightarrow> 'a Match_scheme" where
  "ex_tcp mem =
     setTransportDstPort 80 (setIpProto 6 (setIpv4Src ''10.0.0.1'' (setVlanID 25 (Match_new mem))))"

theorem setAllCommonFields_equal_witness:
  "\<forall>mem mem'. \<exists>m. setAllCommonFields (ex_tcp mem') (Match_new mem) = Inr m \<and> isEqual m (ex_tcp mem') \<and>
     wf_match m"
  by (intro allI setAllCommonFields_equal)
    (simp_all add: ex_tcp_def match_setters Match_new_def wf_match_def)

end
