(* ===== verification/Json_Value.thy ===== *)
theory Json_Value
  imports UN_Prelude
begin

text \<open>
  JSON values as the \<open>mValue\<close> of json_spirit has them (a real number is kept as its text): an \<open>Object\<close> is a
  \<open>std::map<string, Value>\<close>, so assigning a member twice keeps the last value and the
  members are visited in key order.
\<close>

datatype jvalue =
    JStr string
  | JInt int
  | JBool bool
  | JReal string
  | JNull
  | JArr "jvalue list"
  | JObj "(string \<times> jvalue) list"

type_synonym jobject = "(string, jvalue) omap"

text \<open>
  \<open>getString\<close>, \<open>getInt\<close>, \<open>getArray\<close> and \<open>getObject\<close> throw a \<open>runtime_error\<close> on a value
  of another type; \<open>getInt\<close> cuts the 64 bits of the number to an \<open>int\<close>. \<open>None\<close> is the exception.
\<close>

fun jstr :: "jvalue \<Rightarrow> string option" where
  "jstr (JStr s) = Some s"
| "jstr _ = None"

fun jint :: "jvalue \<Rightarrow> int option" where
  "jint (JInt i) = Some (sint (word_of_int i :: 32 word))"
| "jint _ = None"

fun jarr :: "jvalue \<Rightarrow> jvalue list option" where
  "jarr (JArr xs) = Some xs"
| "jarr _ = None"

fun jobj :: "jvalue \<Rightarrow> jobject option" where
  "jobj (JObj m) = Some m"
| "jobj _ = None"

text \<open>
  \<open>stream << x\<close> for a \<open>uint8_t\<close> writes one character, not a number; the \<open>c_str()\<close> that
  is then stored ends at the first NUL.
\<close>

definition byte_out :: "8 word \<Rightarrow> string" where
  "byte_out w = (if w = 0 then [] else [char_of (unat w)])"

definition put_str :: "string \<Rightarrow> cstr \<Rightarrow> jobject \<Rightarrow> jobject" where
  "put_str k p obj = (case p of None \<Rightarrow> obj | Some s \<Rightarrow> om_put k (JStr s) obj)"

definition put_if :: "bool \<Rightarrow> string \<Rightarrow> string \<Rightarrow> jobject \<Rightarrow> jobject" where
  "put_if b k s obj = (if b then om_put k (JStr s) obj else obj)"

lemma map_of_put_str [omap_simps]:
  "map_of (put_str k p obj) =
     (case p of None \<Rightarrow> map_of obj | Some s \<Rightarrow> (map_of obj)(k \<mapsto> JStr s))"
  by (simp add: put_str_def map_of_om_put split: option.split)

lemma map_of_put_if [omap_simps]:
  "map_of (put_if b k s obj) = (if b then (map_of obj)(k \<mapsto> JStr s) else map_of obj)"
  by (simp add: put_if_def map_of_om_put)

lemma om_wf_put_str: "om_wf obj \<Longrightarrow> om_wf (put_str k p obj)"
  by (simp add: put_str_def om_wf_put split: option.split)

lemma om_wf_put_if: "om_wf obj \<Longrightarrow> om_wf (put_if b k s obj)"
  by (simp add: put_if_def om_wf_put)

end
