(* ===== verification/Match_Json.thy ===== *)
theory Match_Json
  imports Flow_Match Json_Value
begin

text \<open>
  \<open>graph::Match::toJSON\<close> (\<open>graph/match.cc\<close>), section by section, over the key names of
  \<open>utils/constants.h\<close>.
\<close>

definition toJSON_ethernet :: "'a Match_scheme \<Rightarrow> jobject \<Rightarrow> jobject" where
  "toJSON_ethernet m obj =
     (let obj = put_str ''source_mac'' (eth_src m) obj;
          obj = put_str ''eth_src_mask'' (eth_src_mask m) obj;
          obj = put_str ''dest_mac'' (eth_dst m) obj;
          obj = put_str ''eth_dst_mask'' (eth_dst_mask m) obj
      in put_if (isEthType m) ''ether_type'' (hex (unat (ethType m))) obj)"

definition toJSON_vlan :: "'a Match_scheme \<Rightarrow> jobject \<Rightarrow> jobject" where
  "toJSON_vlan m obj =
     (let obj = (if isVlanID m then om_put ''vlan_id'' (JStr (dec (unat (vlanID m)))) obj
                 else if isAnyVlan m then om_put ''vlan_id'' (JStr ''ANY'') obj
                 else if isNoVlan m then om_put ''vlan_id'' (JStr ''NO_VLAN'') obj
                 else obj)
      in put_if (isVlanPCP m) ''vlan_pcp'' (byte_out (vlanPCP m)) obj)"

definition toJSON_ipv4 :: "'a Match_scheme \<Rightarrow> jobject \<Rightarrow> jobject" where
  "toJSON_ipv4 m obj =
     (let obj = put_if (isIpDSCP m) ''ip_dscp'' (byte_out (ipDSCP m)) obj;
          obj = put_if (isIpECN m) ''ip_ecn'' (byte_out (ipECN m)) obj;
          obj = put_if (isIpProto m) ''ip_proto'' (dec (unat (ipProto m))) obj;
          obj = put_str ''source_ip'' (ipv4_src m) obj;
          obj = put_str ''ipv4_src_mask'' (ipv4_src_mask m) obj;
          obj = put_str ''dest_ip'' (ipv4_dst m) obj
      in put_str ''ipv4_dst_mask'' (ipv4_dst_mask m) obj)"

text \<open>The destination port is written only when the source port is 0.\<close>

definition toJSON_tcp_udp :: "'a Match_scheme \<Rightarrow> jobject \<Rightarrow> jobject" where
  "toJSON_tcp_udp m obj =
     (if isTcpProtocol m \<or> isUdpProtocol m then
        if transport_src_port m \<noteq> 0
        then om_put ''source_port'' (JStr (dec (unat (transport_src_port m)))) obj
        else if transport_dst_port m \<noteq> 0
        then om_put ''dest_port'' (JStr (dec (unat (transport_dst_port m)))) obj
        else obj
      else obj)"

definition toJSON_sctp :: "'a Match_scheme \<Rightarrow> jobject \<Rightarrow> jobject" where
  "toJSON_sctp m obj =
     (if isSctpProtocol m then
        if transport_src_port m \<noteq> 0
        then om_put ''sctp_src'' (JStr (dec (unat (transport_src_port m)))) obj
        else if transport_dst_port m \<noteq> 0
        then om_put ''sctp_dst'' (JStr (dec (unat (transport_dst_port m)))) obj
        else obj
      else obj)"

definition toJSON_icmpv4 :: "'a Match_scheme \<Rightarrow> jobject \<Rightarrow> jobject" where
  "toJSON_icmpv4 m obj =
     (let obj = put_if (isIcmpv4Type m) ''icmpv4_type'' (byte_out (icmpv4Type m)) obj
      in put_if (isIcmpv4Code m) ''icmpv4_code'' (byte_out (icmpv4Code m)) obj)"

definition toJSON_arp :: "'a Match_scheme \<Rightarrow> jobject \<Rightarrow> jobject" where
  "toJSON_arp m obj =
     (let obj = put_if (isArpOpcode m) ''arp_opcode'' (dec (unat (arpOpcode m))) obj;
          obj = put_str ''arp_spa'' (arp_spa m) obj;
          obj = put_str ''arp_spa_mask'' (arp_spa_mask m) obj;
          obj = put_str ''arp_tpa'' (arp_tpa m) obj;
          obj = put_str ''arp_tpa_mask'' (arp_tpa_mask m) obj;
          obj = put_str ''arp_sha'' (arp_sha m) obj
      in put_str ''arp_tha'' (arp_tha m) obj)"

definition toJSON_ipv6 :: "'a Match_scheme \<Rightarrow> jobject \<Rightarrow> jobject" where
  "toJSON_ipv6 m obj =
     (let obj = put_str ''source_ip'' (ipv6_src m) obj;
          obj = put_str ''ipv6_src_mask'' (ipv6_src_mask m) obj;
          obj = put_str ''dest_ip'' (ipv6_dst m) obj;
          obj = put_str ''ipv6_dst_mask'' (ipv6_dst_mask m) obj;
          obj = put_if (isIpv6Flabel m) ''ipv6_flabel'' (dec (unat (ipv6_flabel m))) obj;
          obj = put_str ''ipv6_nd_target'' (ipv6_nd_target m) obj;
          obj = put_str ''ipv6_nd_sll'' (ipv6_nd_sll m) obj
      in put_str ''ipv6_nd_tll'' (ipv6_nd_tll m) obj)"

definition toJSON_icmpv6 :: "'a Match_scheme \<Rightarrow> jobject \<Rightarrow> jobject" where
  "toJSON_icmpv6 m obj =
     (let obj = put_if (isIcmpv6Type m) ''icmpv6_type'' (byte_out (icmpv6Type m)) obj
      in put_if (isIcmpv6Code m) ''icmpv6_code'' (byte_out (icmpv6Code m)) obj)"

definition toJSON_mpls :: "'a Match_scheme \<Rightarrow> jobject \<Rightarrow> jobject" where
  "toJSON_mpls m obj =
     (let obj = put_if (isMplsLabel m) ''mpls_label'' (dec (unat (mplsLabel m))) obj
      in put_if (isMplsTC m) ''mpls_tc'' (byte_out (mplsTC m)) obj)"

definition toJSON_gre :: "'a Match_scheme \<Rightarrow> jobject \<Rightarrow> jobject" where
  "toJSON_gre m obj = put_str ''gre-key'' (gre_key m) obj"

definition Match_toJSON :: "'a Match_scheme \<Rightarrow> jobject \<Rightarrow> jobject" where
  "Match_toJSON m obj =
     (let obj = toJSON_ethernet m obj;
          obj = toJSON_vlan m obj;
          obj = toJSON_ipv4 m obj;
          obj = toJSON_tcp_udp m obj;
          obj = toJSON_sctp m obj;
          obj = toJSON_icmpv4 m obj;
          obj = toJSON_arp m obj;
          obj = toJSON_ipv6 m obj;
          obj = toJSON_icmpv6 m obj;
          obj = toJSON_mpls m obj
      in toJSON_gre m obj)"

lemmas toJSON_sections = toJSON_ethernet_def toJSON_vlan_def toJSON_ipv4_def toJSON_tcp_udp_def
  toJSON_sctp_def toJSON_icmpv4_def toJSON_arp_def toJSON_ipv6_def toJSON_icmpv6_def
  toJSON_mpls_def toJSON_gre_def

end
