(* ===== verification/High_Level_Elements.thy ===== *)
theory High_Level_Elements
  imports Match_Json
begin

text \<open>
  The elements of a forwarding graph as the REST client describes it
  (\<open>graph/high_level_graph/\<close>, \<open>graph/generic_actions/\<close>): matches with the point where the
  traffic enters, output actions with their VLAN operations, rules, VNFs and the four kinds
  of endpoint, each with its \<open>operator==\<close> and its JSON form.

  The \<open>operator==\<close> that the graph searches its lists with are interpretations of
  \<open>registry\<close>.
\<close>

section \<open>Matches\<close>

datatype match_t =
    MATCH_GENERIC
  | MATCH_PORT
  | MATCH_NF
  | MATCH_ENDPOINT_INTERNAL
  | MATCH_ENDPOINT_GRE

record HLMatch = Match +
  input :: cstr
  nf_port :: "32 word"
  endpointInternalGroup :: "32 word"
  endpointGreID :: string
  input_endpoint :: cstr
  nf_endpoint_port :: cstr
  match_type :: match_t

definition HLMatch_new :: "'a HLMatch_scheme \<Rightarrow> 'a HLMatch_scheme" where
  "HLMatch_new mem =
     (Match_new mem)\<lparr>endpointGreID := '''', nf_port := 0, match_type := MATCH_GENERIC\<rparr>"

text \<open>A match object built in storage filled with zeros, for the concrete examples.\<close>

definition zero_HLMatch :: HLMatch where
  "zero_HLMatch = \<lparr>
     eth_src = None, eth_src_mask = None, eth_dst = None, eth_dst_mask = None,
     isEthType = False, ethType = 0, isVlanID = False, vlanID = 0, isNoVlan = False,
     isAnyVlan = False, isVlanPCP = False, vlanPCP = 0, isEndpointVlanID = False,
     isIpDSCP = False, ipDSCP = 0, isIpECN = False, ipECN = 0, isIpProto = False, ipProto = 0,
     ipv4_src = None, ipv4_src_mask = None, ipv4_dst = None, ipv4_dst_mask = None,
     isTcpProtocol = False, isUdpProtocol = False, isSctpProtocol = False,
     transport_src_port = 0, transport_dst_port = 0, isIcmpv4Type = False, icmpv4Type = 0,
     isIcmpv4Code = False, icmpv4Code = 0, isArpOpcode = False, arpOpcode = 0, arp_spa = None,
     arp_spa_mask = None, arp_tpa = None, arp_tpa_mask = None, arp_sha = None, arp_tha = None,
     ipv6_src = None, ipv6_src_mask = None, ipv6_dst = None, ipv6_dst_mask = None,
     isIpv6Flabel = False, ipv6_flabel = 0, ipv6_nd_target = None, ipv6_nd_sll = None,
     ipv6_nd_tll = None, isIcmpv6Type = False, icmpv6Type = 0, isIcmpv6Code = False,
     icmpv6Code = 0, isMplsLabel = False, mplsLabel = 0, isMplsTC = False, mplsTC = 0,
     gre_key = None, input = None, nf_port = 0, endpointInternalGroup = 0,
     endpointGreID = '''', input_endpoint = None, nf_endpoint_port = None,
     match_type = MATCH_GENERIC\<rparr>"

definition setInputPort :: "string \<Rightarrow> HLMatch \<Rightarrow> bool \<times> HLMatch" where
  "setInputPort p m =
     (if match_type m \<noteq> MATCH_GENERIC then (False, m)
      else (True, m\<lparr>input := Some p, match_type := MATCH_PORT\<rparr>))"

definition setNFport :: "string \<Rightarrow> 32 word \<Rightarrow> HLMatch \<Rightarrow> bool \<times> HLMatch" where
  "setNFport nf p m =
     (if match_type m \<noteq> MATCH_GENERIC then (False, m)
      else (True, m\<lparr>input := Some nf, nf_port := p, match_type := MATCH_NF\<rparr>))"

definition setEndPointInternal :: "string \<Rightarrow> HLMatch \<Rightarrow> bool \<times> HLMatch" where
  "setEndPointInternal g m =
     (if match_type m \<noteq> MATCH_GENERIC then (False, m)
      else (True,
        (case sscanf_u g of None \<Rightarrow> m | Some v \<Rightarrow> m\<lparr>endpointInternalGroup := v\<rparr>)
        \<lparr>match_type := MATCH_ENDPOINT_INTERNAL\<rparr>))"

definition setEndPointGre :: "string \<Rightarrow> HLMatch \<Rightarrow> bool \<times> HLMatch" where
  "setEndPointGre e m =
     (if match_type m \<noteq> MATCH_GENERIC then (False, m)
      else (True, m\<lparr>endpointGreID := e, match_type := MATCH_ENDPOINT_GRE\<rparr>))"

definition setInputEndpoint :: "string \<Rightarrow> HLMatch \<Rightarrow> bool \<times> HLMatch" where
  "setInputEndpoint e m = (True, m\<lparr>input_endpoint := Some e, input := Some e\<rparr>)"

definition setNFEndpointPort :: "string \<Rightarrow> HLMatch \<Rightarrow> bool \<times> HLMatch" where
  "setNFEndpointPort p m = (True, m\<lparr>nf_endpoint_port := Some p\<rparr>)"

definition matchOnPort :: "HLMatch \<Rightarrow> bool" where
  "matchOnPort m = (match_type m = MATCH_PORT)"

definition matchOnNF :: "HLMatch \<Rightarrow> bool" where
  "matchOnNF m = (match_type m = MATCH_NF)"

definition matchOnEndPointInternal :: "HLMatch \<Rightarrow> bool" where
  "matchOnEndPointInternal m = (match_type m = MATCH_ENDPOINT_INTERNAL)"

definition matchOnEndPointGre :: "HLMatch \<Rightarrow> bool" where
  "matchOnEndPointGre m = (match_type m = MATCH_ENDPOINT_GRE)"

lemmas matchOn_defs = matchOnPort_def matchOnNF_def matchOnEndPointInternal_def
  matchOnEndPointGre_def

text \<open>
  The getters assert the kind of match; returning \<open>input\<close> as a \<open>string\<close> needs it to be
  a string.
\<close>

definition getPhysicalPort :: "HLMatch \<Rightarrow> string result" where
  "getPhysicalPort m =
     bindR (assertR (match_type m = MATCH_PORT)) (\<lambda>_. optionR NullPointer (input m))"

definition getNF :: "HLMatch \<Rightarrow> string result" where
  "getNF m = bindR (assertR (match_type m = MATCH_NF)) (\<lambda>_. optionR NullPointer (input m))"

definition getPortOfNF :: "HLMatch \<Rightarrow> (32 word) result" where
  "getPortOfNF m = bindR (assertR (match_type m = MATCH_NF)) (\<lambda>_. Inr (nf_port m))"

definition getGraphID :: "HLMatch \<Rightarrow> string result" where
  "getGraphID m =
     bindR (assertR (match_type m = MATCH_ENDPOINT_INTERNAL)) (\<lambda>_. optionR NullPointer (input m))"

definition getEndPointGre :: "HLMatch \<Rightarrow> string result" where
  "getEndPointGre m =
     bindR (assertR (match_type m = MATCH_ENDPOINT_GRE)) (\<lambda>_. Inr (endpointGreID m))"

definition getEndPointInternal :: "HLMatch \<Rightarrow> (32 word) result" where
  "getEndPointInternal m =
     bindR (assertR (match_type m = MATCH_ENDPOINT_INTERNAL)) (\<lambda>_. Inr (endpointInternalGroup m))"

text \<open>The piece of a colon-separated name at an index, empty when there is none.\<close>

definition colon_piece :: "nat \<Rightarrow> string \<Rightarrow> string" where
  "colon_piece i s = (let ps = strtok CHR '':'' s in if i < length ps then ps ! i else [])"

definition getInputEndpoint :: "HLMatch \<Rightarrow> string result" where
  "getInputEndpoint m =
     bindR (assertR (match_type m = MATCH_ENDPOINT_GRE)) (\<lambda>_.
     bindR (optionR NullPointer (input_endpoint m)) (\<lambda>e. Inr (colon_piece 1 e)))"

definition checkVlanPresence :: "HLMatch \<Rightarrow> bool" where
  "checkVlanPresence m = (isVlanID m \<or> isAnyVlan m \<or> isVlanPCP m)"

definition HLMatch_toJSON :: "HLMatch \<Rightarrow> jobject result" where
  "HLMatch_toJSON m =
     bindR (if match_type m \<in> {MATCH_PORT, MATCH_ENDPOINT_GRE, MATCH_ENDPOINT_INTERNAL}
            then bindR (optionR NullPointer (input_endpoint m)) (\<lambda>e. Inr [(''port_in'', JStr e)])
            else if match_type m = MATCH_NF
            then bindR (optionR NullPointer (nf_endpoint_port m)) (\<lambda>e. Inr [(''port_in'', JStr e)])
            else Inr [])
       (\<lambda>obj. Inr (Match_toJSON m obj))"

text \<open>
  The invariant: the strings the getters and \<open>toJSON\<close> of a kind of match use are there.
\<close>

definition wf_input :: "HLMatch \<Rightarrow> bool" where
  "wf_input m =
     ((match_type m = MATCH_PORT \<or> match_type m = MATCH_NF \<longrightarrow> input m \<noteq> None) \<and>
      (match_type m \<in> {MATCH_PORT, MATCH_ENDPOINT_GRE, MATCH_ENDPOINT_INTERNAL} \<longrightarrow>
         input_endpoint m \<noteq> None) \<and>
      (match_type m = MATCH_NF \<longrightarrow> nf_endpoint_port m \<noteq> None))"

section \<open>Generic actions\<close>

datatype vlan_action_t =
    ACTION_VLAN_PUSH
  | ACTION_VLAN_POP
  | ACTION_ENDPOINT_VLAN_PUSH
  | ACTION_ENDPOINT_VLAN_POP

datatype GenericAction =
  VlanAction (vlan_type: vlan_action_t) (vlan_endpoint: string) (vlan_label: "16 word")

definition VlanAction_toJSON :: "GenericAction \<Rightarrow> jobject \<Rightarrow> jobject" where
  "VlanAction_toJSON ga obj =
     (case vlan_type ga of
        ACTION_ENDPOINT_VLAN_PUSH \<Rightarrow> obj
      | ACTION_ENDPOINT_VLAN_POP \<Rightarrow> obj
      | ACTION_VLAN_PUSH \<Rightarrow> om_put ''push_vlan'' (JStr (dec (unat (vlan_label ga)))) obj
      | ACTION_VLAN_POP \<Rightarrow> om_put ''pop_vlan'' (JBool True) obj)"

definition VlanAction_prettyPrint :: "GenericAction \<Rightarrow> string" where
  "VlanAction_prettyPrint ga =
     '' # vlan: '' @ (if vlan_type ga = ACTION_VLAN_PUSH then ''push_vlan '' else ''pop_vlan'') @
     (if vlan_type ga = ACTION_VLAN_PUSH then '' '' @ dec (unat (vlan_label ga)) else '''')"

section \<open>Output actions\<close>

datatype action_t =
    ACTION_ON_PORT
  | ACTION_ON_NETWORK_FUNCTION
  | ACTION_ON_ENDPOINT_INTERNAL
  | ACTION_ON_ENDPOINT_GRE

datatype hl_output =
    ActionPort string string
  | ActionNetworkFunction string string "32 word"
  | ActionEndPointGre string string
  | ActionEndPointInternal string string

record HLAction =
  hl_out :: hl_output
  genericActions :: "GenericAction list"

definition addGenericAction :: "GenericAction \<Rightarrow> HLAction \<Rightarrow> HLAction" where
  "addGenericAction ga a = a\<lparr>genericActions := genericActions a @ [ga]\<rparr>"

fun out_type :: "hl_output \<Rightarrow> action_t" where
  "out_type (ActionPort _ _) = ACTION_ON_PORT"
| "out_type (ActionNetworkFunction _ _ _) = ACTION_ON_NETWORK_FUNCTION"
| "out_type (ActionEndPointGre _ _) = ACTION_ON_ENDPOINT_GRE"
| "out_type (ActionEndPointInternal _ _) = ACTION_ON_ENDPOINT_INTERNAL"

definition getType :: "HLAction \<Rightarrow> action_t" where
  "getType a = out_type (hl_out a)"

fun out_getInfo :: "hl_output \<Rightarrow> string" where
  "out_getInfo (ActionPort portName _) = portName"
| "out_getInfo (ActionNetworkFunction nfId _ _) = nfId"
| "out_getInfo (ActionEndPointGre _ endpointName) = colon_piece 0 endpointName"
| "out_getInfo (ActionEndPointInternal grp _) = grp"

fun out_toString :: "hl_output \<Rightarrow> string" where
  "out_toString (ActionPort portName _) = portName"
| "out_toString (ActionNetworkFunction nfId _ port) = nfId @ '':'' @ dec (unat port)"
| "out_toString (ActionEndPointGre endpointID _) = endpointID"
| "out_toString (ActionEndPointInternal grp _) = grp"

text \<open>
  \<open>sscanf\<close> leaves \<open>in_group\<close> as it is when the group is not a number, and nothing was
  stored in it before.
\<close>

fun out_getGroup :: "hl_output \<Rightarrow> (32 word) result" where
  "out_getGroup (ActionEndPointInternal grp _) = optionR Uninitialised (sscanf_u grp)"
| "out_getGroup _ = Inl AssertFailure"

fun out_getOutputEndpointID :: "hl_output \<Rightarrow> string" where
  "out_getOutputEndpointID (ActionEndPointGre endpointID _) = endpointID"
| "out_getOutputEndpointID (ActionEndPointInternal _ endpointName) = colon_piece 1 endpointName"
| "out_getOutputEndpointID _ = []"

fun out_eq :: "hl_output \<Rightarrow> hl_output \<Rightarrow> bool" where
  "out_eq (ActionPort p e) (ActionPort p' e') = (p = p' \<and> e = e')"
| "out_eq (ActionNetworkFunction i e p) (ActionNetworkFunction i' e' p') =
     (i = i' \<and> p = p' \<and> e = e')"
| "out_eq (ActionEndPointGre i _) (ActionEndPointGre i' _) = (i = i')"
| "out_eq (ActionEndPointInternal g _) (ActionEndPointInternal g' _) = (g = g')"
| "out_eq _ _ = False"

fun out_label :: "hl_output \<Rightarrow> string" where
  "out_label (ActionPort _ endpointName) = endpointName"
| "out_label (ActionNetworkFunction _ endpointPortName _) = endpointPortName"
| "out_label (ActionEndPointGre _ endpointName) = endpointName"
| "out_label (ActionEndPointInternal _ endpointName) = endpointName"

definition HLAction_toJSON :: "HLAction \<Rightarrow> jobject" where
  "HLAction_toJSON a =
     fold VlanAction_toJSON (genericActions a) [(''output_to_port'', JStr (out_label (hl_out a)))]"

section \<open>Rules\<close>

record HLRule =
  hr_match :: HLMatch
  hr_action :: HLAction
  hr_priority :: "64 word"
  hr_ruleID :: string

definition HLRule_eq :: "HLRule \<Rightarrow> HLRule \<Rightarrow> bool" where
  "HLRule_eq r other = (hr_ruleID r = hr_ruleID other)"

definition HLRule_toJSON :: "HLRule \<Rightarrow> jobject result" where
  "HLRule_toJSON r =
     bindR (HLMatch_toJSON (hr_match r)) (\<lambda>m. Inr (
       om_put ''actions'' (JArr [JObj (HLAction_toJSON (hr_action r))])
      (om_put ''match'' (JObj m)
      (om_put ''priority'' (JInt (uint (hr_priority r)))
      (om_put ''id'' (JStr (hr_ruleID r)) [])))))"

interpretation hl_rules: registry HLRule_eq
  by unfold_locales (simp_all add: HLRule_eq_def)

section \<open>VNFs\<close>

record port_network_config =
  mac_address :: string

record vnf_port =
  vp_id :: string
  vp_name :: string
  vp_configuration :: port_network_config

record VNFs =
  vnf_id :: string
  vnf_name :: string
  vnf_groups :: "string list"
  vnf_template :: string
  vnf_ports :: "vnf_port list"

definition VNFs_eq :: "VNFs \<Rightarrow> VNFs \<Rightarrow> bool" where
  "VNFs_eq v other = (vnf_id v = vnf_id other \<and> vnf_name v = vnf_name other)"

definition vnf_port_eq :: "vnf_port \<Rightarrow> vnf_port \<Rightarrow> bool" where
  "vnf_port_eq p q = (vp_id p = vp_id q)"

definition addPort :: "vnf_port \<Rightarrow> VNFs \<Rightarrow> bool \<times> VNFs" where
  "addPort p v =
     (if \<exists>current \<in> set (vnf_ports v). vp_id current = vp_id p then (False, v)
      else (True, v\<lparr>vnf_ports := vnf_ports v @ [p]\<rparr>))"

text \<open>
  The number behind the first colon of a port id, plus one. \<open>sscanf\<close> leaves the initial 0
  when there is no number, and the sum is of unsigned 32-bit integers.
\<close>

definition extract_number_from_id :: "string \<Rightarrow> (32 word) result" where
  "extract_number_from_id port_id =
     (case strtok CHR '':'' port_id of
        _ # pnt # _ \<Rightarrow> Inr ((case sscanf_u pnt of None \<Rightarrow> 0 | Some v \<Rightarrow> v) + 1)
      | _ \<Rightarrow> Inl AssertFailure)"

definition getPortsId :: "VNFs \<Rightarrow> (32 word) list result" where
  "getPortsId v = mapR (\<lambda>p. extract_number_from_id (vp_id p)) (vnf_ports v)"

definition getPortsID_configuration :: "VNFs \<Rightarrow> (32 word, port_network_config) omap result" where
  "getPortsID_configuration v =
     foldR (\<lambda>p mapping. bindR (extract_number_from_id (vp_id p)) (\<lambda>i.
              Inr (om_put i (vp_configuration p) mapping))) (vnf_ports v) []"

definition vnf_port_toJSON :: "vnf_port \<Rightarrow> jobject" where
  "vnf_port_toJSON p =
     (let pp = om_put ''name'' (JStr (vp_name p)) (om_put ''id'' (JStr (vp_id p)) [])
      in put_if (length (mac_address (vp_configuration p)) \<noteq> 0) ''mac''
           (mac_address (vp_configuration p)) pp)"

definition VNFs_toJSON :: "VNFs \<Rightarrow> jobject" where
  "VNFs_toJSON v =
     (let vnf = om_put ''id'' (JStr (vnf_id v)) [];
          vnf = om_put ''name'' (JStr (vnf_name v)) vnf;
          vnf = om_put ''vnf_template'' (JStr (vnf_template v)) vnf;
          vnf = (if length (vnf_groups v) \<noteq> 0
                 then om_put ''groups'' (JArr (map JStr (vnf_groups v))) vnf else vnf)
      in om_put ''ports'' (JArr (map (\<lambda>p. JObj (vnf_port_toJSON p)) (vnf_ports v))) vnf)"

interpretation hl_vnfs: registry VNFs_eq
  by unfold_locales (simp_all add: VNFs_eq_def)

interpretation hl_vnf_ports: registry vnf_port_eq
  by unfold_locales (simp_all add: vnf_port_eq_def)

lemma addPort_add_unique:
  "addPort p v =
     (let (b, ps) = add_unique vnf_port_eq p (vnf_ports v) in (b, v\<lparr>vnf_ports := ps\<rparr>))"
  by (simp add: addPort_def add_unique_def present_def vnf_port_eq_def)

section \<open>Endpoints\<close>

record EndPointInterface =
  ei_id :: string
  ei_name :: string
  ei_interface :: string

definition EndPointInterface_eq :: "EndPointInterface \<Rightarrow> EndPointInterface \<Rightarrow> bool" where
  "EndPointInterface_eq e other =
     (ei_id e = ei_id other \<and> ei_name e = ei_name other \<and> ei_interface e = ei_interface other)"

definition EndPointInterface_toJSON :: "EndPointInterface \<Rightarrow> jobject" where
  "EndPointInterface_toJSON e =
     om_put ''interface'' (JObj [(''if-name'', JStr (ei_interface e))])
    (om_put ''type'' (JStr ''interface'')
    (om_put ''name'' (JStr (ei_name e))
    (om_put ''id'' (JStr (ei_id e)) [])))"

record EndPointInternal =
  en_id :: string
  en_name :: string
  en_group :: string

definition EndPointInternal_eq :: "EndPointInternal \<Rightarrow> EndPointInternal \<Rightarrow> bool" where
  "EndPointInternal_eq e other =
     (en_id e = en_id other \<and> en_name e = en_name other \<and> en_group e = en_group other)"

definition EndPointInternal_toJSON :: "EndPointInternal \<Rightarrow> jobject" where
  "EndPointInternal_toJSON e =
     om_put ''internal'' (JObj [(''internal-group'', JStr (en_group e))])
    (om_put ''type'' (JStr ''internal'')
    (om_put ''name'' (JStr (en_name e))
    (om_put ''id'' (JStr (en_id e)) [])))"

record EndPointGre =
  eg_id :: string
  eg_name :: string
  eg_local_ip :: string
  eg_remote_ip :: string
  eg_gre_key :: string
  eg_ttl :: string
  eg_is_safe :: bool

text \<open>The time to live and the IPsec flag do not take part in the comparison.\<close>

definition EndPointGre_eq :: "EndPointGre \<Rightarrow> EndPointGre \<Rightarrow> bool" where
  "EndPointGre_eq e other =
     (eg_id e = eg_id other \<and> eg_name e = eg_name other \<and> eg_local_ip e = eg_local_ip other \<and>
      eg_remote_ip e = eg_remote_ip other \<and> eg_gre_key e = eg_gre_key other)"

definition EndPointGre_toJSON :: "EndPointGre \<Rightarrow> jobject" where
  "EndPointGre_toJSON e =
     (let iface = om_put ''local-ip'' (JStr (eg_local_ip e)) [];
          iface = om_put ''remote-ip'' (JStr (eg_remote_ip e)) iface;
          iface = om_put ''gre-key'' (JStr (eg_gre_key e)) iface;
          iface = put_if (eg_ttl e \<noteq> '''') ''ttl'' (eg_ttl e) iface;
          iface = om_put ''secure'' (JBool (eg_is_safe e)) iface
      in om_put ''gre-tunnel'' (JObj iface)
        (om_put ''type'' (JStr ''gre-tunnel'')
        (om_put ''name'' (JStr (eg_name e))
        (om_put ''id'' (JStr (eg_id e)) []))))"

record EndPointVlan =
  ev_id :: string
  ev_name :: string
  ev_vlan_id :: string
  ev_interface :: string

definition EndPointVlan_eq :: "EndPointVlan \<Rightarrow> EndPointVlan \<Rightarrow> bool" where
  "EndPointVlan_eq e other =
     (ev_id e = ev_id other \<and> ev_name e = ev_name other \<and> ev_interface e = ev_interface other \<and>
      ev_vlan_id e = ev_vlan_id other)"

definition EndPointVlan_toJSON :: "EndPointVlan \<Rightarrow> jobject" where
  "EndPointVlan_toJSON e =
     om_put ''vlan'' (JObj (om_put ''if-name'' (JStr (ev_interface e))
       (om_put ''vlan-id'' (JStr (ev_vlan_id e)) [])))
    (om_put ''type'' (JStr ''vlan'')
    (om_put ''name'' (JStr (ev_name e))
    (om_put ''id'' (JStr (ev_id e)) [])))"

interpretation hl_interfaces: registry EndPointInterface_eq
  by unfold_locales (simp_all add: EndPointInterface_eq_def)

interpretation hl_internals: registry EndPointInternal_eq
  by unfold_locales (simp_all add: EndPointInternal_eq_def)

interpretation hl_gres: registry EndPointGre_eq
  by unfold_locales (simp_all add: EndPointGre_eq_def)

interpretation hl_vlans: registry EndPointVlan_eq
  by unfold_locales (simp_all add: EndPointVlan_eq_def)

section \<open>Facts about the elements\<close>

text \<open>The setters of the entry point keep the invariant and set it at most once.\<close>

lemma setInputPort_wf:
  "wf_input m \<Longrightarrow> input_endpoint m \<noteq> None \<Longrightarrow> wf_input (snd (setInputPort p m))"
  by (auto simp: setInputPort_def wf_input_def)

lemma setNFport_wf:
  "wf_input m \<Longrightarrow> nf_endpoint_port m \<noteq> None \<Longrightarrow> wf_input (snd (setNFport nf p m))"
  by (auto simp: setNFport_def wf_input_def)

lemma setEndPointInternal_wf:
  "wf_input m \<Longrightarrow> input_endpoint m \<noteq> None \<Longrightarrow> wf_input (snd (setEndPointInternal g m))"
  by (auto simp: setEndPointInternal_def wf_input_def split: option.split)

lemma setEndPointGre_wf:
  "wf_input m \<Longrightarrow> input_endpoint m \<noteq> None \<Longrightarrow> wf_input (snd (setEndPointGre e m))"
  by (auto simp: setEndPointGre_def wf_input_def)

lemma HLMatch_new_wf: "wf_input (HLMatch_new mem)"
  by (simp add: HLMatch_new_def wf_input_def)

lemma HLMatch_toJSON_total: "wf_input m \<Longrightarrow> \<exists>obj. HLMatch_toJSON m = Inr obj"
  by (cases "match_type m") (auto simp: HLMatch_toJSON_def wf_input_def)

lemma getters_total:
  "wf_input m \<Longrightarrow> matchOnPort m \<Longrightarrow> getPhysicalPort m = Inr (the (input m))"
  "wf_input m \<Longrightarrow> matchOnNF m \<Longrightarrow> getNF m = Inr (the (input m))"
  "matchOnNF m \<Longrightarrow> getPortOfNF m = Inr (nf_port m)"
  "matchOnEndPointGre m \<Longrightarrow> getEndPointGre m = Inr (endpointGreID m)"
  "matchOnEndPointInternal m \<Longrightarrow> getEndPointInternal m = Inr (endpointInternalGroup m)"
  by (auto simp: getPhysicalPort_def getNF_def getPortOfNF_def getEndPointGre_def
      getEndPointInternal_def matchOn_defs wf_input_def)

end
