(* ===== verification/High_Level_Graph.thy ===== *)
theory High_Level_Graph
  imports High_Level_Elements
begin

text \<open>
  The graph object (\<open>graph/high_level_graph/high_level_graph.cc\<close>): its lists of rules, VNFs
  and endpoints, the operations that add to and remove from them, and the two that an update
  is made of, \<open>calculateDiff\<close> and \<open>addGraphToGraph\<close>/\<open>removeGraphFromGraph\<close>.

  Shown here: the lists never hold two equal elements; a diff holds exactly what is missing;
  adding a diff never meets a duplicate; and adding the diff of an update and removing the
  reverse diff leaves a graph with the rules and endpoints of the new one.
\<close>

section \<open>The graph\<close>

record HLGraph =
  endpoints :: "(string, bool) omap"
  rules :: "HLRule list"
  endPointsInterface :: "EndPointInterface list"
  endPointsInternal :: "EndPointInternal list"
  endPointsGre :: "EndPointGre list"
  endPointsVlan :: "EndPointVlan list"
  vnfs :: "VNFs list"
  graph_ID :: string
  graph_name :: string

definition HLGraph_new :: "string \<Rightarrow> HLGraph" where
  "HLGraph_new i =
     \<lparr>endpoints = [], rules = [], endPointsInterface = [], endPointsInternal = [],
      endPointsGre = [], endPointsVlan = [], vnfs = [], graph_ID = i, graph_name = ''''\<rparr>"

definition addEndPointInterface :: "EndPointInterface \<Rightarrow> HLGraph \<Rightarrow> bool \<times> HLGraph" where
  "addEndPointInterface e g =
     (let (b, es) = add_unique EndPointInterface_eq e (endPointsInterface g)
      in (b, g\<lparr>endPointsInterface := es\<rparr>))"

definition removeEndPointInterface :: "EndPointInterface \<Rightarrow> HLGraph \<Rightarrow> HLGraph result" where
  "removeEndPointInterface e g =
     (case erase_first (\<lambda>x. EndPointInterface_eq x e) (endPointsInterface g) of
        None \<Rightarrow> Inl AssertFailure
      | Some es \<Rightarrow> Inr (g\<lparr>endPointsInterface := es\<rparr>))"

definition addEndPointInternal :: "EndPointInternal \<Rightarrow> HLGraph \<Rightarrow> bool \<times> HLGraph" where
  "addEndPointInternal e g =
     (if present EndPointInternal_eq e (endPointsInternal g) then (False, g)
      else (True, g\<lparr>endPointsInternal := endPointsInternal g @ [e],
                    endpoints := om_put (en_group e) True (endpoints g)\<rparr>))"

definition removeEndPointInternal :: "EndPointInternal \<Rightarrow> HLGraph \<Rightarrow> HLGraph result" where
  "removeEndPointInternal e g =
     (case erase_first (\<lambda>x. EndPointInternal_eq x e) (endPointsInternal g) of
        None \<Rightarrow> Inl AssertFailure
      | Some es \<Rightarrow> Inr (g\<lparr>endPointsInternal := es\<rparr>))"

definition addEndPointGre :: "EndPointGre \<Rightarrow> HLGraph \<Rightarrow> bool \<times> HLGraph" where
  "addEndPointGre e g =
     (let (b, es) = add_unique EndPointGre_eq e (endPointsGre g) in (b, g\<lparr>endPointsGre := es\<rparr>))"

definition removeEndPointGre :: "EndPointGre \<Rightarrow> HLGraph \<Rightarrow> HLGraph result" where
  "removeEndPointGre e g =
     (case erase_first (\<lambda>x. EndPointGre_eq x e) (endPointsGre g) of
        None \<Rightarrow> Inl AssertFailure
      | Some es \<Rightarrow> Inr (g\<lparr>endPointsGre := es\<rparr>))"

definition addEndPointVlan :: "EndPointVlan \<Rightarrow> HLGraph \<Rightarrow> bool \<times> HLGraph" where
  "addEndPointVlan e g =
     (let (b, es) = add_unique EndPointVlan_eq e (endPointsVlan g)
      in (b, g\<lparr>endPointsVlan := es\<rparr>))"

definition removeEndPointVlan :: "EndPointVlan \<Rightarrow> HLGraph \<Rightarrow> HLGraph result" where
  "removeEndPointVlan e g =
     (case erase_first (\<lambda>x. EndPointVlan_eq x e) (endPointsVlan g) of
        None \<Rightarrow> Inl AssertFailure
      | Some es \<Rightarrow> Inr (g\<lparr>endPointsVlan := es\<rparr>))"

text \<open>A VNF that is already there gets the ports it does not have yet.\<close>

fun add_vnf :: "VNFs \<Rightarrow> VNFs list \<Rightarrow> VNFs list" where
  "add_vnf vnf [] = [vnf]"
| "add_vnf vnf (v # vs) =
     (if VNFs_eq v vnf then fold (\<lambda>p v. snd (addPort p v)) (vnf_ports vnf) v # vs
      else v # add_vnf vnf vs)"

definition addVNF :: "VNFs \<Rightarrow> HLGraph \<Rightarrow> HLGraph" where
  "addVNF vnf g = g\<lparr>vnfs := add_vnf vnf (vnfs g)\<rparr>"

definition addRule :: "HLRule \<Rightarrow> HLGraph \<Rightarrow> bool \<times> HLGraph" where
  "addRule r g = (let (b, rs) = add_unique HLRule_eq r (rules g) in (b, g\<lparr>rules := rs\<rparr>))"

definition ruleExists :: "string \<Rightarrow> HLGraph \<Rightarrow> bool" where
  "ruleExists i g = (\<exists>r \<in> set (rules g). hr_ruleID r = i)"

definition getRuleFromID :: "string \<Rightarrow> HLGraph \<Rightarrow> HLRule result" where
  "getRuleFromID i g = optionR AssertFailure (find (\<lambda>r. hr_ruleID r = i) (rules g))"

record RuleRemovedInfo =
  rri_isPort :: bool
  rri_isNFport :: bool
  rri_isEndpointInternal :: bool
  rri_isEndpointGre :: bool
  rri_port :: string
  rri_nf_port :: string
  rri_endpointInternal :: string
  rri_endpointGre :: string

fun rule_removed_info :: "hl_output \<Rightarrow> RuleRemovedInfo" where
  "rule_removed_info (ActionPort p e) =
     \<lparr>rri_isPort = True, rri_isNFport = False, rri_isEndpointInternal = False,
      rri_isEndpointGre = False, rri_port = out_getInfo (ActionPort p e), rri_nf_port = '''',
      rri_endpointInternal = '''', rri_endpointGre = ''''\<rparr>"
| "rule_removed_info (ActionNetworkFunction i e p) =
     \<lparr>rri_isPort = False, rri_isNFport = True, rri_isEndpointInternal = False,
      rri_isEndpointGre = False, rri_port = '''',
      rri_nf_port = underscore_name (out_getInfo (ActionNetworkFunction i e p)) (unat p),
      rri_endpointInternal = '''', rri_endpointGre = ''''\<rparr>"
| "rule_removed_info (ActionEndPointGre i e) =
     \<lparr>rri_isPort = False, rri_isNFport = False, rri_isEndpointInternal = False,
      rri_isEndpointGre = True, rri_port = '''', rri_nf_port = '''',
      rri_endpointInternal = '''', rri_endpointGre = out_toString (ActionEndPointGre i e)\<rparr>"
| "rule_removed_info (ActionEndPointInternal g e) =
     \<lparr>rri_isPort = False, rri_isNFport = False, rri_isEndpointInternal = True,
      rri_isEndpointGre = False, rri_port = '''', rri_nf_port = '''',
      rri_endpointInternal = out_toString (ActionEndPointInternal g e), rri_endpointGre = ''''\<rparr>"

definition HLGraph_removeRuleFromID :: "string \<Rightarrow> HLGraph \<Rightarrow> (RuleRemovedInfo \<times> HLGraph) result" where
  "HLGraph_removeRuleFromID i g =
     (case find (\<lambda>r. hr_ruleID r = i) (rules g) of
        None \<Rightarrow> Inl AssertFailure
      | Some r \<Rightarrow>
          Inr (rule_removed_info (hl_out (hr_action r)),
               g\<lparr>rules := the (erase_first (\<lambda>r. hr_ruleID r = i) (rules g))\<rparr>))"

section \<open>Is it still used?\<close>

fun rules_use_vnf :: "string \<Rightarrow> HLRule list \<Rightarrow> bool result" where
  "rules_use_vnf n [] = Inr False"
| "rules_use_vnf n (r # rs) =
     bindR (if matchOnNF (hr_match r)
            then bindR (getNF (hr_match r)) (\<lambda>nf. Inr (nf = n)) else Inr False) (\<lambda>in_match.
     if in_match then Inr True
     else if getType (hr_action r) = ACTION_ON_NETWORK_FUNCTION
          \<and> out_getInfo (hl_out (hr_action r)) = n then Inr True
     else rules_use_vnf n rs)"

definition stillUsedVNF :: "VNFs \<Rightarrow> HLGraph \<Rightarrow> bool result" where
  "stillUsedVNF vnf g =
     bindR (assertR (\<exists>v \<in> set (vnfs g). VNFs_eq vnf v)) (\<lambda>_.
     rules_use_vnf (vnf_name vnf) (rules g))"

definition stillExistEndpoint :: "string \<Rightarrow> HLGraph \<Rightarrow> bool" where
  "stillExistEndpoint e g = om_count (endpoints g) e"

definition stillExistEndpointGre :: "string \<Rightarrow> HLGraph \<Rightarrow> bool" where
  "stillExistEndpointGre e g = (\<exists>x \<in> set (endPointsGre g). eg_id x = e)"

fun rules_use_port :: "string \<Rightarrow> HLRule list \<Rightarrow> bool result" where
  "rules_use_port n [] = Inr False"
| "rules_use_port n (r # rs) =
     bindR (if matchOnPort (hr_match r)
            then bindR (getPhysicalPort (hr_match r)) (\<lambda>p. Inr (p = n)) else Inr False) (\<lambda>in_match.
     if in_match then Inr True
     else if getType (hr_action r) = ACTION_ON_PORT
          \<and> out_getInfo (hl_out (hr_action r)) = n then Inr True
     else rules_use_port n rs)"

definition stillUsedEndpointInterface :: "EndPointInterface \<Rightarrow> HLGraph \<Rightarrow> bool result" where
  "stillUsedEndpointInterface e g =
     bindR (assertR (\<exists>i \<in> set (endPointsInterface g). EndPointInterface_eq i e)) (\<lambda>_.
     rules_use_port (ei_interface e) (rules g))"

definition getEndpointInvolved :: "string \<Rightarrow> HLGraph \<Rightarrow> string result" where
  "getEndpointInvolved flowID g =
     bindR (getRuleFromID flowID g) (\<lambda>r.
     if getType (hr_action r) = ACTION_ON_ENDPOINT_INTERNAL
     then Inr (out_toString (hl_out (hr_action r)))
     else if matchOnEndPointInternal (hr_match r) then getInputEndpoint (hr_match r)
     else Inr '''')"

fun rules_match_endpoint :: "string \<Rightarrow> HLRule list \<Rightarrow> bool result" where
  "rules_match_endpoint e [] = Inr False"
| "rules_match_endpoint e (r # rs) =
     (if matchOnEndPointInternal (hr_match r)
      then bindR (getGraphID (hr_match r)) (\<lambda>i.
           bindR (getEndPointInternal (hr_match r)) (\<lambda>p.
           if i @ '':'' @ dec (unat p) = e then Inr True else rules_match_endpoint e rs))
      else rules_match_endpoint e rs)"

definition endpointIsUsedInMatch :: "string \<Rightarrow> HLGraph \<Rightarrow> bool result" where
  "endpointIsUsedInMatch e g = rules_match_endpoint e (rules g)"

definition endpointIsUsedInAction :: "string \<Rightarrow> HLGraph \<Rightarrow> bool" where
  "endpointIsUsedInAction e g =
     (\<exists>r \<in> set (rules g). getType (hr_action r) = ACTION_ON_ENDPOINT_INTERNAL \<and>
        out_toString (hl_out (hr_action r)) = e)"

section \<open>Difference of two graphs\<close>

definition calculateDiffRules :: "HLGraph \<Rightarrow> HLGraph \<Rightarrow> HLRule list" where
  "calculateDiffRules this other =
     filter (\<lambda>ors. \<not> (\<exists>r \<in> set (rules this). HLRule_eq ors r)) (rules other)"

definition diff_rules :: "HLGraph \<Rightarrow> HLGraph \<Rightarrow> HLGraph \<Rightarrow> HLGraph" where
  "diff_rules this other diff =
     fold (\<lambda>r diff. snd (addRule r diff)) (calculateDiffRules this other) diff"

definition diff_vnf :: "HLGraph \<Rightarrow> VNFs \<Rightarrow> HLGraph \<Rightarrow> HLGraph" where
  "diff_vnf this it diff =
     (case find (\<lambda>there. VNFs_eq there it) (vnfs this) of
        Some there \<Rightarrow>
          (let ports_needed = filter (\<lambda>required. \<not> (\<exists>p \<in> set (vnf_ports there). vp_id required = vp_id p))
                                (vnf_ports it)
           in if length ports_needed \<noteq> 0
              then addVNF \<lparr>vnf_id = vnf_id it, vnf_name = vnf_name it, vnf_groups = vnf_groups it,
                           vnf_template = vnf_template it, vnf_ports = ports_needed\<rparr> diff
              else diff)
      | None \<Rightarrow> addVNF it diff)"

definition diff_interfaces :: "HLGraph \<Rightarrow> HLGraph \<Rightarrow> HLGraph \<Rightarrow> HLGraph" where
  "diff_interfaces this other diff =
     fold (\<lambda>e diff. if \<exists>x \<in> set (endPointsInterface this). EndPointInterface_eq e x then diff
                    else snd (addEndPointInterface e diff)) (endPointsInterface other) diff"

definition diff_gres :: "HLGraph \<Rightarrow> HLGraph \<Rightarrow> HLGraph \<Rightarrow> HLGraph" where
  "diff_gres this other diff =
     fold (\<lambda>e diff. if \<exists>x \<in> set (endPointsGre this). EndPointGre_eq e x then diff
                    else snd (addEndPointGre e diff)) (endPointsGre other) diff"

definition diff_internals :: "HLGraph \<Rightarrow> HLGraph \<Rightarrow> HLGraph \<Rightarrow> HLGraph" where
  "diff_internals this other diff =
     fold (\<lambda>e diff. if \<exists>x \<in> set (endPointsInternal this). EndPointInternal_eq e x then diff
                    else snd (addEndPointInternal e diff)) (endPointsInternal other) diff"

definition diff_vlans :: "HLGraph \<Rightarrow> HLGraph \<Rightarrow> HLGraph \<Rightarrow> HLGraph" where
  "diff_vlans this other diff =
     fold (\<lambda>e diff. if \<exists>x \<in> set (endPointsVlan this). EndPointVlan_eq e x then diff
                    else snd (addEndPointVlan e diff)) (endPointsVlan other) diff"

definition calculateDiff :: "HLGraph \<Rightarrow> HLGraph \<Rightarrow> string \<Rightarrow> HLGraph" where
  "calculateDiff this other graphID =
     (let diff = HLGraph_new graphID;
          diff = diff_rules this other diff;
          diff = fold (diff_vnf this) (vnfs other) diff;
          diff = diff_interfaces this other diff;
          diff = diff_gres this other diff;
          diff = diff_internals this other diff
      in diff_vlans this other diff)"

section \<open>Adding and removing a whole graph\<close>

text \<open>
  \<open>addGraphToGraph\<close> stops at the first rule whose identifier is taken and reports it; the
  rules added before stay.
\<close>

fun add_rules :: "HLRule list \<Rightarrow> HLGraph \<Rightarrow> bool \<times> HLGraph" where
  "add_rules [] g = (True, g)"
| "add_rules (r # rs) g = (let (b, g) = addRule r g in if b then add_rules rs g else (False, g))"

definition addGraphToGraph :: "HLGraph \<Rightarrow> HLGraph \<Rightarrow> bool \<times> HLGraph" where
  "addGraphToGraph other g =
     (let (b, g) = add_rules (rules other) g
      in if \<not> b then (False, g)
         else
          (let g = fold (\<lambda>e g. snd (addEndPointInterface e g)) (endPointsInterface other) g;
               g = fold (\<lambda>e g. snd (addEndPointGre e g)) (endPointsGre other) g;
               g = fold (\<lambda>e g. snd (addEndPointInternal e g)) (endPointsInternal other) g;
               g = fold (\<lambda>e g. snd (addEndPointVlan e g)) (endPointsVlan other) g;
               g = fold addVNF (vnfs other) g
           in (True, g)))"

definition remove_rule_step ::
  "HLRule \<Rightarrow> RuleRemovedInfo list \<times> HLGraph \<Rightarrow> (RuleRemovedInfo list \<times> HLGraph) result" where
  "remove_rule_step r s =
     bindR (HLGraph_removeRuleFromID (hr_ruleID r) (snd s)) (\<lambda>(rri, g).
     Inr (fst s @ [rri], g))"

definition remove_interface_step :: "EndPointInterface \<Rightarrow> HLGraph \<Rightarrow> HLGraph result" where
  "remove_interface_step e g =
     bindR (stillUsedEndpointInterface e g) (\<lambda>used.
     if \<not> used then removeEndPointInterface e g else Inl AssertFailure)"

definition remove_vnf_step :: "VNFs \<Rightarrow> HLGraph \<Rightarrow> HLGraph result" where
  "remove_vnf_step v g =
     bindR (stillUsedVNF v g) (\<lambda>used.
     if \<not> used
     then (case erase_first (\<lambda>x. VNFs_eq v x) (vnfs g) of
             None \<Rightarrow> Inl AssertFailure
           | Some vs \<Rightarrow> Inr (g\<lparr>vnfs := vs\<rparr>))
     else Inl AssertFailure)"

definition removeGraphFromGraph ::
  "HLGraph \<Rightarrow> HLGraph \<Rightarrow> (RuleRemovedInfo list \<times> HLGraph) result" where
  "removeGraphFromGraph other g =
     bindR (foldR remove_rule_step (rules other) ([], g)) (\<lambda>(rris, g).
     bindR (foldR remove_interface_step (endPointsInterface other) g) (\<lambda>g.
     bindR (foldR removeEndPointGre (endPointsGre other) g) (\<lambda>g.
     bindR (foldR removeEndPointInternal (endPointsInternal other) g) (\<lambda>g.
     bindR (foldR removeEndPointVlan (endPointsVlan other) g) (\<lambda>g.
     bindR (foldR remove_vnf_step (vnfs other) g) (\<lambda>g.
     Inr (rris, g)))))))"

section \<open>JSON form\<close>

definition HLGraph_toJSON :: "HLGraph \<Rightarrow> jobject result" where
  "HLGraph_toJSON g =
     bindR (mapR (\<lambda>r. bindR (HLRule_toJSON r) (\<lambda>j. Inr (JObj j))) (rules g)) (\<lambda>flow_rules.
     let end_points =
           map (\<lambda>e. JObj (EndPointInterface_toJSON e)) (endPointsInterface g) @
           map (\<lambda>e. JObj (EndPointInternal_toJSON e)) (endPointsInternal g) @
           map (\<lambda>e. JObj (EndPointGre_toJSON e)) (endPointsGre g) @
           map (\<lambda>e. JObj (EndPointVlan_toJSON e)) (endPointsVlan g);
         vnf = map (\<lambda>v. JObj (VNFs_toJSON v)) (vnfs g);
         fg = om_put ''name'' (JStr (graph_name g)) (om_put ''id'' (JStr (graph_ID g)) []);
         fg = (if end_points \<noteq> [] then om_put ''end-points'' (JArr end_points) fg else fg);
         fg = (if vnf \<noteq> [] then om_put ''VNFs'' (JArr vnf) fg else fg)
     in Inr (om_put ''big-switch'' (JObj [(''flow-rules'', JArr flow_rules)]) fg))"

section \<open>The lists hold no two equal elements\<close>

definition graph_inv :: "HLGraph \<Rightarrow> bool" where
  "graph_inv g =
     (uniq_by HLRule_eq (rules g) \<and> uniq_by EndPointInterface_eq (endPointsInterface g) \<and>
      uniq_by EndPointInternal_eq (endPointsInternal g) \<and> uniq_by EndPointGre_eq (endPointsGre g) \<and>
      uniq_by EndPointVlan_eq (endPointsVlan g) \<and> uniq_by VNFs_eq (vnfs g) \<and>
      (\<forall>v \<in> set (vnfs g). uniq_by vnf_port_eq (vnf_ports v)))"

lemma graph_inv_new: "graph_inv (HLGraph_new i)"
  by (simp add: graph_inv_def HLGraph_new_def)

lemma add_list_ops:
  "snd (addRule r g) = g\<lparr>rules := snd (add_unique HLRule_eq r (rules g))\<rparr>"
  "snd (addEndPointInterface ei g) =
     g\<lparr>endPointsInterface := snd (add_unique EndPointInterface_eq ei (endPointsInterface g))\<rparr>"
  "snd (addEndPointGre eg g) =
     g\<lparr>endPointsGre := snd (add_unique EndPointGre_eq eg (endPointsGre g))\<rparr>"
  "snd (addEndPointVlan ev g) =
     g\<lparr>endPointsVlan := snd (add_unique EndPointVlan_eq ev (endPointsVlan g))\<rparr>"
  "endPointsInternal (snd (addEndPointInternal en g)) =
     snd (add_unique EndPointInternal_eq en (endPointsInternal g))"
  by (simp_all add: addRule_def addEndPointInterface_def addEndPointGre_def addEndPointVlan_def
      addEndPointInternal_def add_unique_def)

lemma add_list_inv:
  assumes "graph_inv g"
  shows "graph_inv (snd (addRule r g))" "graph_inv (snd (addEndPointInterface ei g))"
    "graph_inv (snd (addEndPointGre eg g))" "graph_inv (snd (addEndPointVlan ev g))"
  using assms
  by (simp_all add: add_list_ops graph_inv_def hl_rules.uniq_add_unique
      hl_interfaces.uniq_add_unique hl_gres.uniq_add_unique hl_vlans.uniq_add_unique)

lemma addEndPointInternal_frame:
  "rules (snd (addEndPointInternal e g)) = rules g"
  "endPointsInterface (snd (addEndPointInternal e g)) = endPointsInterface g"
  "endPointsGre (snd (addEndPointInternal e g)) = endPointsGre g"
  "endPointsVlan (snd (addEndPointInternal e g)) = endPointsVlan g"
  "vnfs (snd (addEndPointInternal e g)) = vnfs g"
  "graph_ID (snd (addEndPointInternal e g)) = graph_ID g"
  by (simp_all add: addEndPointInternal_def)

lemma addEndPointInternal_inv: "graph_inv g \<Longrightarrow> graph_inv (snd (addEndPointInternal e g))"
  by (simp add: graph_inv_def addEndPointInternal_frame add_list_ops hl_internals.uniq_add_unique)

text \<open>The ports a VNF ends up with when it is added to one that is already there.\<close>

definition merge_vnf :: "VNFs \<Rightarrow> VNFs \<Rightarrow> VNFs" where
  "merge_vnf v new = fold (\<lambda>p v. snd (addPort p v)) (vnf_ports new) v"

lemma merge_vnf_eq: "merge_vnf v new = v\<lparr>vnf_ports := add_all vnf_port_eq (vnf_ports new) (vnf_ports v)\<rparr>"
proof -
  have "fold (\<lambda>p v. snd (addPort p v)) ps v =
      v\<lparr>vnf_ports := add_all vnf_port_eq ps (vnf_ports v)\<rparr>" for ps
    by (induction ps arbitrary: v)
      (simp_all add: addPort_add_unique add_all_def case_prod_beta Let_def)
  then show ?thesis by (simp add: merge_vnf_def)
qed

lemma merge_vnf_key [simp]:
  "vnf_id (merge_vnf v new) = vnf_id v" "vnf_name (merge_vnf v new) = vnf_name v"
  "VNFs_eq (merge_vnf v new) w = VNFs_eq v w" "VNFs_eq w (merge_vnf v new) = VNFs_eq w v"
  by (simp_all add: merge_vnf_eq VNFs_eq_def)

lemma add_vnf_absent: "\<not> present VNFs_eq v vs \<Longrightarrow> add_vnf v vs = vs @ [v]"
  by (induction vs) (auto simp: present_def)

lemma add_vnf_present:
  assumes "uniq_by VNFs_eq vs" "present VNFs_eq v vs"
  shows "add_vnf v vs = map (\<lambda>x. if VNFs_eq x v then merge_vnf x v else x) vs"
  using assms
proof (induction vs)
  case Nil
  then show ?case by (simp add: present_def)
next
  case (Cons x vs)
  have "\<not> VNFs_eq y v" if "VNFs_eq x v" "y \<in> set vs" for y
    using that Cons.prems(1) hl_vnfs.same_sym hl_vnfs.same_trans by (metis uniq_by.simps(2))
  with Cons show ?case
    by (auto simp: present_def merge_vnf_def intro!: map_idI[symmetric])
qed

lemma add_vnf_keys:
  "uniq_by VNFs_eq vs \<Longrightarrow> uniq_by VNFs_eq (add_vnf v vs)"
proof (cases "present VNFs_eq v vs")
  case True
  assume u: "uniq_by VNFs_eq vs"
  have "uniq_by VNFs_eq (map (\<lambda>x. if VNFs_eq x v then merge_vnf x v else x) xs)"
    if "uniq_by VNFs_eq xs" for xs
    using that by (induction xs) auto
  with u True show ?thesis by (simp add: add_vnf_present)
next
  case False
  assume "uniq_by VNFs_eq vs"
  with False show ?thesis
    by (auto simp: add_vnf_absent uniq_by_append present_def)
qed

lemma addVNF_inv:
  assumes "graph_inv g" "uniq_by vnf_port_eq (vnf_ports v)"
  shows "graph_inv (addVNF v g)"
proof -
  have "uniq_by vnf_port_eq (vnf_ports w)" if "w \<in> set (add_vnf v (vnfs g))" for w
    using that assms
    by (cases "present VNFs_eq v (vnfs g)")
      (auto simp: graph_inv_def add_vnf_present add_vnf_absent merge_vnf_eq
        hl_vnf_ports.uniq_add_all split: if_splits)
  with assms(1) show ?thesis
    by (simp add: graph_inv_def addVNF_def add_vnf_keys)
qed

lemma remove_list_inv:
  assumes "graph_inv g"
  shows "removeEndPointInterface ei g = Inr g1 \<Longrightarrow> graph_inv g1"
    "removeEndPointInternal en g = Inr g1 \<Longrightarrow> graph_inv g1"
    "removeEndPointGre eg g = Inr g1 \<Longrightarrow> graph_inv g1"
    "removeEndPointVlan ev g = Inr g1 \<Longrightarrow> graph_inv g1"
  using assms
  by (auto simp: removeEndPointInterface_def removeEndPointInternal_def removeEndPointGre_def
      removeEndPointVlan_def graph_inv_def hl_interfaces.uniq_erase_first
      hl_internals.uniq_erase_first hl_gres.uniq_erase_first hl_vlans.uniq_erase_first
      split: option.splits)

section \<open>What a diff holds\<close>

lemma fold_list_ops:
  "fold (\<lambda>r g. snd (addRule r g)) rs g = g\<lparr>rules := add_all HLRule_eq rs (rules g)\<rparr>"
  "fold (\<lambda>e g. snd (addEndPointInterface e g)) is g =
     g\<lparr>endPointsInterface := add_all EndPointInterface_eq is (endPointsInterface g)\<rparr>"
  "fold (\<lambda>e g. snd (addEndPointGre e g)) gs g =
     g\<lparr>endPointsGre := add_all EndPointGre_eq gs (endPointsGre g)\<rparr>"
  "fold (\<lambda>e g. snd (addEndPointVlan e g)) vs g =
     g\<lparr>endPointsVlan := add_all EndPointVlan_eq vs (endPointsVlan g)\<rparr>"
proof -
  show "fold (\<lambda>r g. snd (addRule r g)) rs g = g\<lparr>rules := add_all HLRule_eq rs (rules g)\<rparr>"
    by (induction rs arbitrary: g) (simp_all add: add_all_def add_list_ops)
  show "fold (\<lambda>e g. snd (addEndPointInterface e g)) is g =
     g\<lparr>endPointsInterface := add_all EndPointInterface_eq is (endPointsInterface g)\<rparr>"
    by (induction "is" arbitrary: g) (simp_all add: add_all_def add_list_ops)
  show "fold (\<lambda>e g. snd (addEndPointGre e g)) gs g =
     g\<lparr>endPointsGre := add_all EndPointGre_eq gs (endPointsGre g)\<rparr>"
    by (induction gs arbitrary: g) (simp_all add: add_all_def add_list_ops)
  show "fold (\<lambda>e g. snd (addEndPointVlan e g)) vs g =
     g\<lparr>endPointsVlan := add_all EndPointVlan_eq vs (endPointsVlan g)\<rparr>"
    by (induction vs arbitrary: g) (simp_all add: add_all_def add_list_ops)
qed

lemma fold_internal_frame:
  "rules (fold (\<lambda>e g. snd (addEndPointInternal e g)) es g) = rules g"
  "endPointsInterface (fold (\<lambda>e g. snd (addEndPointInternal e g)) es g) = endPointsInterface g"
  "endPointsGre (fold (\<lambda>e g. snd (addEndPointInternal e g)) es g) = endPointsGre g"
  "endPointsVlan (fold (\<lambda>e g. snd (addEndPointInternal e g)) es g) = endPointsVlan g"
  "vnfs (fold (\<lambda>e g. snd (addEndPointInternal e g)) es g) = vnfs g"
  "endPointsInternal (fold (\<lambda>e g. snd (addEndPointInternal e g)) es g) =
     add_all EndPointInternal_eq es (endPointsInternal g)"
  by (induction es arbitrary: g)
    (simp_all add: addEndPointInternal_frame add_all_def add_list_ops)

lemma addVNF_frame [simp]:
  "rules (addVNF v g) = rules g" "endPointsInterface (addVNF v g) = endPointsInterface g"
  "endPointsInternal (addVNF v g) = endPointsInternal g"
  "endPointsGre (addVNF v g) = endPointsGre g" "endPointsVlan (addVNF v g) = endPointsVlan g"
  "vnfs (addVNF v g) = add_vnf v (vnfs g)"
  by (simp_all add: addVNF_def)

lemma fold_addVNF:
  "fold addVNF vs g = g\<lparr>vnfs := fold add_vnf vs (vnfs g)\<rparr>"
  by (induction vs arbitrary: g) (simp_all add: addVNF_def)

text \<open>The VNF that goes into the diff, if any.\<close>

definition vnf_needed :: "VNFs list \<Rightarrow> VNFs \<Rightarrow> VNFs option" where
  "vnf_needed old it =
     (case find (\<lambda>there. VNFs_eq there it) old of
        None \<Rightarrow> Some it
      | Some there \<Rightarrow>
          (let ps = fresh_from vnf_port_eq (vnf_ports there) (vnf_ports it)
           in if ps = [] then None else Some (it\<lparr>vnf_ports := ps\<rparr>)))"

lemma diff_vnf_eq:
  "diff_vnf this it diff = (case vnf_needed (vnfs this) it of None \<Rightarrow> diff | Some v \<Rightarrow> addVNF v diff)"
  by (cases it)
    (auto simp: diff_vnf_def vnf_needed_def fresh_from_def vnf_port_eq_def Let_def
      split: option.split)

lemma vnf_needed_key: "vnf_needed old it = Some v \<Longrightarrow> vnf_id v = vnf_id it \<and> vnf_name v = vnf_name it"
  by (auto simp: vnf_needed_def Let_def split: option.splits if_splits)

lemma fold_diff_vnf:
  "fold (diff_vnf this) vs diff = fold addVNF (List.map_filter (vnf_needed (vnfs this)) vs) diff"
  by (induction vs arbitrary: diff)
    (simp_all add: diff_vnf_eq List.map_filter_simps split: option.split)

lemma uniq_vnf_needed:
  assumes "uniq_by VNFs_eq vs"
  shows "uniq_by VNFs_eq (List.map_filter (vnf_needed old) vs)"
  using assms
proof (induction vs)
  case Nil
  then show ?case by (simp add: List.map_filter_simps)
next
  case (Cons v vs)
  have "\<not> VNFs_eq w x" if "vnf_needed old v = Some w" "x \<in> set (List.map_filter (vnf_needed old) vs)"
    for w x
  proof -
    from that(2) obtain y where "y \<in> set vs" "vnf_needed old y = Some x"
      by (auto simp: List.map_filter_def)
    with that(1) Cons.prems show ?thesis
      by (auto simp: VNFs_eq_def dest!: vnf_needed_key)
  qed
  with Cons show ?case
    by (auto simp: List.map_filter_simps split: option.split)
qed

lemma fold_add_vnf_fresh: "uniq_by VNFs_eq (xs @ vs) \<Longrightarrow> fold add_vnf vs xs = xs @ vs"
proof (induction vs arbitrary: xs)
  case Nil
  then show ?case by simp
next
  case (Cons v vs)
  then have "\<not> present VNFs_eq v xs"
    by (auto simp: uniq_by_append present_def)
  with Cons show ?case by (simp add: add_vnf_absent)
qed

lemma calculateDiff_lists:
  assumes "graph_inv other"
  shows "rules (calculateDiff this other i) = fresh_from HLRule_eq (rules this) (rules other)"
    "endPointsInterface (calculateDiff this other i) =
       fresh_from EndPointInterface_eq (endPointsInterface this) (endPointsInterface other)"
    "endPointsGre (calculateDiff this other i) =
       fresh_from EndPointGre_eq (endPointsGre this) (endPointsGre other)"
    "endPointsInternal (calculateDiff this other i) =
       fresh_from EndPointInternal_eq (endPointsInternal this) (endPointsInternal other)"
    "endPointsVlan (calculateDiff this other i) =
       fresh_from EndPointVlan_eq (endPointsVlan this) (endPointsVlan other)"
    "vnfs (calculateDiff this other i) = List.map_filter (vnf_needed (vnfs this)) (vnfs other)"
proof -
  have n: "add_all eq (filter P ys) [] = filter P ys"
    if "uniq_by eq ys" for eq :: "'x \<Rightarrow> 'x \<Rightarrow> bool" and P ys
    using add_all_uniq[of eq "[]" "filter P ys"] that by (simp add: uniq_by_filter)
  have v: "fold add_vnf (List.map_filter (vnf_needed (vnfs this)) (vnfs other)) [] =
      List.map_filter (vnf_needed (vnfs this)) (vnfs other)"
    using fold_add_vnf_fresh[of "[]"] uniq_vnf_needed assms by (simp add: graph_inv_def)
  note ds = calculateDiff_def Let_def diff_rules_def diff_interfaces_def diff_gres_def
    diff_internals_def diff_vlans_def fold_if_filter fold_list_ops fold_internal_frame
    fold_diff_vnf fold_addVNF calculateDiffRules_def HLGraph_new_def fresh_from_def
  show "rules (calculateDiff this other i) = fresh_from HLRule_eq (rules this) (rules other)"
    "endPointsInterface (calculateDiff this other i) =
       fresh_from EndPointInterface_eq (endPointsInterface this) (endPointsInterface other)"
    "endPointsGre (calculateDiff this other i) =
       fresh_from EndPointGre_eq (endPointsGre this) (endPointsGre other)"
    "endPointsInternal (calculateDiff this other i) =
       fresh_from EndPointInternal_eq (endPointsInternal this) (endPointsInternal other)"
    "endPointsVlan (calculateDiff this other i) =
       fresh_from EndPointVlan_eq (endPointsVlan this) (endPointsVlan other)"
    "vnfs (calculateDiff this other i) = List.map_filter (vnf_needed (vnfs this)) (vnfs other)"
    using assms by (simp_all add: ds n v graph_inv_def)
qed

section \<open>Adding a diff\<close>

lemma add_rules_uniq:
  "uniq_by HLRule_eq (rules g @ rs) \<Longrightarrow> add_rules rs g = (True, g\<lparr>rules := rules g @ rs\<rparr>)"
proof (induction rs arbitrary: g)
  case Nil
  then show ?case by simp
next
  case (Cons r rs)
  then have "\<not> present HLRule_eq r (rules g)"
    by (auto simp: uniq_by_append present_def)
  then have "addRule r g = (True, g\<lparr>rules := rules g @ [r]\<rparr>)"
    by (simp add: addRule_def add_unique_def)
  with Cons show ?case by simp
qed

text \<open>A VNF of the old graph with the ports the new graph adds to it.\<close>

definition grow_vnf :: "VNFs list \<Rightarrow> VNFs \<Rightarrow> VNFs" where
  "grow_vnf new v =
     (case find (\<lambda>it. VNFs_eq v it) new of
        None \<Rightarrow> v
      | Some it \<Rightarrow>
          v\<lparr>vnf_ports := vnf_ports v @ fresh_from vnf_port_eq (vnf_ports v) (vnf_ports it)\<rparr>)"

lemma grow_vnf_key [simp]:
  "vnf_id (grow_vnf new v) = vnf_id v" "vnf_name (grow_vnf new v) = vnf_name v"
  by (simp_all add: grow_vnf_def split: option.split)

lemma grow_vnf_eq [simp]:
  "VNFs_eq (grow_vnf new v) w = VNFs_eq v w" "VNFs_eq w (grow_vnf new v) = VNFs_eq w v"
  by (simp_all add: VNFs_eq_def)

lemma find_VNF_None: "find (\<lambda>it. VNFs_eq v it) ns = None \<longleftrightarrow> \<not> present VNFs_eq v ns"
  unfolding find_None_iff present_def using hl_vnfs.same_sym by blast

lemma grow_vnf_absent: "\<not> present VNFs_eq v ns \<Longrightarrow> grow_vnf ns v = v"
  using find_VNF_None[of v ns] by (simp add: grow_vnf_def)

lemma find_append: "find P (xs @ ys) = (case find P xs of None \<Rightarrow> find P ys | Some x \<Rightarrow> Some x)"
  by (induction xs) auto

lemma grow_vnf_snoc:
  "grow_vnf (ns @ [x]) v =
     (if present VNFs_eq v ns \<or> \<not> VNFs_eq v x then grow_vnf ns v
      else v\<lparr>vnf_ports := vnf_ports v @ fresh_from vnf_port_eq (vnf_ports v) (vnf_ports x)\<rparr>)"
  using find_VNF_None[of v ns]
  by (auto simp: grow_vnf_def find_append split: option.split)

lemma uniq_map_grow: "uniq_by VNFs_eq vs \<Longrightarrow> uniq_by VNFs_eq (map (grow_vnf ns) vs)"
  by (induction vs) auto

lemma uniq_grown:
  assumes "uniq_by VNFs_eq old" "uniq_by VNFs_eq ns"
  shows "uniq_by VNFs_eq (map (grow_vnf ms) old @ fresh_from VNFs_eq old ns)"
  using hl_vnfs.uniq_extended[OF assms] by (auto simp: uniq_by_append uniq_map_grow)

lemma fresh_from_snoc:
  "fresh_from eq old (ns @ [x]) =
     fresh_from eq old ns @ (if \<exists>y \<in> set old. eq x y then [] else [x])"
  by (simp add: fresh_from_def)

lemma grow_step_absent:
  assumes "\<not> present VNFs_eq x old"
  shows "map (grow_vnf (ns @ [x])) old = map (grow_vnf ns) old"
  using assms by (auto simp: grow_vnf_snoc present_def)

lemma grow_step_present:
  assumes old: "uniq_by VNFs_eq old" "\<forall>v \<in> set old. uniq_by vnf_port_eq (vnf_ports v)"
    and x: "\<not> present VNFs_eq x ns" "there \<in> set old" "VNFs_eq there x"
      "uniq_by vnf_port_eq (vnf_ports x)"
    and ps: "ps = fresh_from vnf_port_eq (vnf_ports there) (vnf_ports x)"
  shows "map (\<lambda>v. if VNFs_eq v x then merge_vnf v (x\<lparr>vnf_ports := ps\<rparr>) else v)
      (map (grow_vnf ns) old) = map (grow_vnf (ns @ [x])) old"
proof (clarsimp)
  fix v assume v: "v \<in> set old"
  have n: "\<not> present VNFs_eq v ns" if "VNFs_eq v x"
    using that x(1) hl_vnfs.present_cong by blast
  have t: "v = there" if "VNFs_eq v x"
    using that v x(2,3) hl_vnfs.uniq_same_eq[OF old(1)] hl_vnfs.same_sym hl_vnfs.same_trans by metis
  have "merge_vnf v (x\<lparr>vnf_ports := ps\<rparr>) = v\<lparr>vnf_ports := vnf_ports v @ ps\<rparr>" if "VNFs_eq v x"
    using hl_vnf_ports.uniq_extended[of "vnf_ports v" "vnf_ports x"] t[OF that] v old(2) x(4)
    by (simp add: merge_vnf_eq ps add_all_uniq)
  then show "(VNFs_eq v x \<longrightarrow> merge_vnf (grow_vnf ns v) (x\<lparr>vnf_ports := ps\<rparr>) = grow_vnf (ns @ [x]) v) \<and>
      (\<not> VNFs_eq v x \<longrightarrow> grow_vnf ns v = grow_vnf (ns @ [x]) v)"
    using n t by (auto simp: grow_vnf_snoc grow_vnf_absent ps)
qed

lemma fold_add_needed_vnfs:
  assumes "uniq_by VNFs_eq old" "\<forall>v \<in> set old. uniq_by vnf_port_eq (vnf_ports v)"
    and "uniq_by VNFs_eq new" "\<forall>v \<in> set new. uniq_by vnf_port_eq (vnf_ports v)"
  shows "fold add_vnf (List.map_filter (vnf_needed old) new) old =
    map (grow_vnf new) old @ fresh_from VNFs_eq old new"
  using assms(3,4)
proof (induction new rule: rev_induct)
  case Nil
  have "map (grow_vnf []) old = old"
    by (rule map_idI) (simp add: grow_vnf_def)
  then show ?case by (simp add: List.map_filter_simps fresh_from_def)
next
  case (snoc x ns)
  let ?acc = "map (grow_vnf ns) old @ fresh_from VNFs_eq old ns"
  have u: "uniq_by VNFs_eq ns" "\<forall>v \<in> set ns. uniq_by vnf_port_eq (vnf_ports v)"
    "\<not> present VNFs_eq x ns" "uniq_by vnf_port_eq (vnf_ports x)"
    using snoc.prems by (auto simp: uniq_by_append present_def)
  have ua: "uniq_by VNFs_eq ?acc" by (rule uniq_grown[OF assms(1) u(1)])
  have IH: "fold add_vnf (List.map_filter (vnf_needed old) ns) old = ?acc"
    by (rule snoc.IH[OF u(1,2)])
  have mf: "List.map_filter (vnf_needed old) (ns @ [x]) =
      List.map_filter (vnf_needed old) ns @ (case vnf_needed old x of None \<Rightarrow> [] | Some v \<Rightarrow> [v])"
    by (simp add: List.map_filter_def split: option.split)
  show ?case
  proof (cases "find (\<lambda>there. VNFs_eq there x) old")
    case None
    then have no: "\<not> present VNFs_eq x old" by (auto simp: find_None_iff present_def)
    then have "\<not> present VNFs_eq x ?acc"
      using u(3) by (auto simp: present_def fresh_from_def)
    moreover have "\<not> (\<exists>y \<in> set old. VNFs_eq x y)"
      using no by (auto simp: present_def dest: hl_vnfs.same_sym)
    moreover have "vnf_needed old x = Some x"
      using None by (simp add: vnf_needed_def)
    ultimately show ?thesis
      by (simp add: mf IH add_vnf_absent fresh_from_snoc grow_step_absent[OF no])
  next
    case (Some there)
    then have t: "there \<in> set old" "VNFs_eq there x" by (auto simp: find_Some_iff)
    let ?ps = "fresh_from vnf_port_eq (vnf_ports there) (vnf_ports x)"
    note step = grow_step_present[OF assms(1,2) u(3) t u(4) refl]
    have fr: "fresh_from VNFs_eq old (ns @ [x]) = fresh_from VNFs_eq old ns"
      using t hl_vnfs.same_sym by (auto simp: fresh_from_snoc)
    have other: "\<not> VNFs_eq v x" if "v \<in> set (fresh_from VNFs_eq old ns)" for v
      using that u(3) by (auto simp: fresh_from_def present_def)
    show ?thesis
    proof (cases "?ps = []")
      case True
      have "map (grow_vnf (ns @ [x])) old = map (grow_vnf ns) old"
        unfolding step[symmetric] by (auto simp: True merge_vnf_def)
      moreover have "vnf_needed old x = None"
        using Some True by (simp add: vnf_needed_def)
      ultimately show ?thesis by (simp add: mf IH fr)
    next
      case False
      have p: "present VNFs_eq (x\<lparr>vnf_ports := ?ps\<rparr>) ?acc"
        using t by (auto simp: present_def VNFs_eq_def intro!: bexI[of _ "grow_vnf ns there"])
      have e: "VNFs_eq v (x\<lparr>vnf_ports := ?ps\<rparr>) = VNFs_eq v x" for v
        by (simp add: VNFs_eq_def)
      have "map (\<lambda>v. if VNFs_eq v x then merge_vnf v (x\<lparr>vnf_ports := ?ps\<rparr>) else v)
          (fresh_from VNFs_eq old ns) = fresh_from VNFs_eq old ns"
        by (rule map_idI) (simp add: other)
      moreover have "vnf_needed old x = Some (x\<lparr>vnf_ports := ?ps\<rparr>)"
        using Some False by (simp add: vnf_needed_def)
      ultimately show ?thesis
        using step by (simp add: mf IH fr add_vnf_present[OF ua p] e)
    qed
  qed
qed

lemma addGraphToGraph_diff:
  assumes "graph_inv old" "graph_inv new"
  obtains mid where "addGraphToGraph (calculateDiff old new i) old = (True, mid)"
    "rules mid = rules old @ fresh_from HLRule_eq (rules old) (rules new)"
    "endPointsInterface mid = endPointsInterface old @
       fresh_from EndPointInterface_eq (endPointsInterface old) (endPointsInterface new)"
    "endPointsGre mid = endPointsGre old @
       fresh_from EndPointGre_eq (endPointsGre old) (endPointsGre new)"
    "endPointsInternal mid = endPointsInternal old @
       fresh_from EndPointInternal_eq (endPointsInternal old) (endPointsInternal new)"
    "endPointsVlan mid = endPointsVlan old @
       fresh_from EndPointVlan_eq (endPointsVlan old) (endPointsVlan new)"
    "vnfs mid = map (grow_vnf (vnfs new)) (vnfs old) @ fresh_from VNFs_eq (vnfs old) (vnfs new)"
proof -
  note u = assms[unfolded graph_inv_def]
  note d = calculateDiff_lists[OF assms(2), of old i]
  have r: "add_rules (fresh_from HLRule_eq (rules old) (rules new)) old =
      (True, old\<lparr>rules := rules old @ fresh_from HLRule_eq (rules old) (rules new)\<rparr>)"
    using u by (intro add_rules_uniq hl_rules.uniq_extended) auto
  have e: "add_all EndPointInterface_eq (fresh_from EndPointInterface_eq (endPointsInterface old)
        (endPointsInterface new)) (endPointsInterface old) = endPointsInterface old @
       fresh_from EndPointInterface_eq (endPointsInterface old) (endPointsInterface new)"
    "add_all EndPointGre_eq (fresh_from EndPointGre_eq (endPointsGre old)
        (endPointsGre new)) (endPointsGre old) = endPointsGre old @
       fresh_from EndPointGre_eq (endPointsGre old) (endPointsGre new)"
    "add_all EndPointInternal_eq (fresh_from EndPointInternal_eq (endPointsInternal old)
        (endPointsInternal new)) (endPointsInternal old) = endPointsInternal old @
       fresh_from EndPointInternal_eq (endPointsInternal old) (endPointsInternal new)"
    "add_all EndPointVlan_eq (fresh_from EndPointVlan_eq (endPointsVlan old)
        (endPointsVlan new)) (endPointsVlan old) = endPointsVlan old @
       fresh_from EndPointVlan_eq (endPointsVlan old) (endPointsVlan new)"
    using u by (auto intro!: add_all_uniq hl_interfaces.uniq_extended hl_gres.uniq_extended
        hl_internals.uniq_extended hl_vlans.uniq_extended)
  have v: "fold add_vnf (List.map_filter (vnf_needed (vnfs old)) (vnfs new)) (vnfs old) =
      map (grow_vnf (vnfs new)) (vnfs old) @ fresh_from VNFs_eq (vnfs old) (vnfs new)"
    using u by (intro fold_add_needed_vnfs) auto
  show thesis
    by (rule that[of "snd (addGraphToGraph (calculateDiff old new i) old)"])
      (simp_all add: addGraphToGraph_def d r Let_def fold_list_ops fold_internal_frame
        fold_addVNF e v)
qed

lemma grow_vnf_ports_uniq:
  assumes "uniq_by vnf_port_eq (vnf_ports v)" "\<forall>w \<in> set new. uniq_by vnf_port_eq (vnf_ports w)"
  shows "uniq_by vnf_port_eq (vnf_ports (grow_vnf new v))"
  using assms
  by (auto simp: grow_vnf_def find_Some_iff hl_vnf_ports.uniq_extended split: option.split)

lemma addGraphToGraph_diff_inv:
  assumes "graph_inv old" "graph_inv new"
  shows "graph_inv (snd (addGraphToGraph (calculateDiff old new i) old))"
proof -
  obtain mid where m: "addGraphToGraph (calculateDiff old new i) old = (True, mid)"
    "rules mid = rules old @ fresh_from HLRule_eq (rules old) (rules new)"
    "endPointsInterface mid = endPointsInterface old @
       fresh_from EndPointInterface_eq (endPointsInterface old) (endPointsInterface new)"
    "endPointsGre mid = endPointsGre old @
       fresh_from EndPointGre_eq (endPointsGre old) (endPointsGre new)"
    "endPointsInternal mid = endPointsInternal old @
       fresh_from EndPointInternal_eq (endPointsInternal old) (endPointsInternal new)"
    "endPointsVlan mid = endPointsVlan old @
       fresh_from EndPointVlan_eq (endPointsVlan old) (endPointsVlan new)"
    "vnfs mid = map (grow_vnf (vnfs new)) (vnfs old) @ fresh_from VNFs_eq (vnfs old) (vnfs new)"
    by (rule addGraphToGraph_diff[OF assms])
  have "uniq_by vnf_port_eq (vnf_ports v)" if "v \<in> set (vnfs mid)" for v
    using that assms by (auto simp: m graph_inv_def fresh_from_def intro!: grow_vnf_ports_uniq)
  then show ?thesis
    using assms by (auto simp: m graph_inv_def hl_rules.uniq_extended hl_interfaces.uniq_extended
        hl_gres.uniq_extended hl_internals.uniq_extended hl_vlans.uniq_extended uniq_grown)
qed

section \<open>Removing a diff\<close>

lemma find_erase_first: "find P xs = Some r \<Longrightarrow> \<exists>ys. erase_first P xs = Some ys"
  by (induction xs) (auto split: if_splits)

lemma remove_rules_filter:
  assumes "uniq_by HLRule_eq (pre @ rs)" "\<forall>r \<in> set pre. \<not> P r"
  shows "foldR remove_rule_step (filter P rs) (acc, g\<lparr>rules := pre @ rs\<rparr>) =
    Inr (acc @ map (\<lambda>r. rule_removed_info (hl_out (hr_action r))) (filter P rs),
         g\<lparr>rules := pre @ filter (\<lambda>r. \<not> P r) rs\<rparr>)"
  using assms
proof (induction rs arbitrary: pre acc)
  case Nil
  then show ?case by simp
next
  case (Cons r rs)
  show ?case
  proof (cases "P r")
    case True
    have p: "\<forall>x \<in> set pre. hr_ruleID x \<noteq> hr_ruleID r"
      using Cons.prems(1) by (auto simp: uniq_by_append HLRule_eq_def)
    have "find (\<lambda>x. hr_ruleID x = hr_ruleID r) (pre @ r # rs) = Some r"
      using p by (induction pre) auto
    moreover have "erase_first (\<lambda>x. hr_ruleID x = hr_ruleID r) (pre @ r # rs) = Some (pre @ rs)"
      using p by (intro erase_first_append_hit) auto
    moreover have "uniq_by HLRule_eq (pre @ rs)"
      using Cons.prems(1) by (auto simp: uniq_by_append)
    ultimately show ?thesis
      using True Cons.IH[of pre] Cons.prems(2)
      by (simp add: remove_rule_step_def HLGraph_removeRuleFromID_def)
  next
    case False
    with Cons.IH[of "pre @ [r]" acc] Cons.prems show ?thesis by simp
  qed
qed

lemma foldR_remove_lists:
  "foldR removeEndPointGre es g =
     (case erase_all EndPointGre_eq es (endPointsGre g) of
        None \<Rightarrow> Inl AssertFailure | Some l \<Rightarrow> Inr (g\<lparr>endPointsGre := l\<rparr>))"
  "foldR removeEndPointInternal es' g =
     (case erase_all EndPointInternal_eq es' (endPointsInternal g) of
        None \<Rightarrow> Inl AssertFailure | Some l \<Rightarrow> Inr (g\<lparr>endPointsInternal := l\<rparr>))"
  "foldR removeEndPointVlan es'' g =
     (case erase_all EndPointVlan_eq es'' (endPointsVlan g) of
        None \<Rightarrow> Inl AssertFailure | Some l \<Rightarrow> Inr (g\<lparr>endPointsVlan := l\<rparr>))"
proof -
  show "foldR removeEndPointGre es g =
     (case erase_all EndPointGre_eq es (endPointsGre g) of
        None \<Rightarrow> Inl AssertFailure | Some l \<Rightarrow> Inr (g\<lparr>endPointsGre := l\<rparr>))"
    by (induction es arbitrary: g) (auto simp: removeEndPointGre_def split: option.split)
  show "foldR removeEndPointInternal es' g =
     (case erase_all EndPointInternal_eq es' (endPointsInternal g) of
        None \<Rightarrow> Inl AssertFailure | Some l \<Rightarrow> Inr (g\<lparr>endPointsInternal := l\<rparr>))"
    by (induction es' arbitrary: g) (auto simp: removeEndPointInternal_def split: option.split)
  show "foldR removeEndPointVlan es'' g =
     (case erase_all EndPointVlan_eq es'' (endPointsVlan g) of
        None \<Rightarrow> Inl AssertFailure | Some l \<Rightarrow> Inr (g\<lparr>endPointsVlan := l\<rparr>))"
    by (induction es'' arbitrary: g) (auto simp: removeEndPointVlan_def split: option.split)
qed

text \<open>The rules that name a port, and those that name a string as their NF.\<close>

definition rule_uses_port :: "string \<Rightarrow> HLRule \<Rightarrow> bool" where
  "rule_uses_port n r =
     (matchOnPort (hr_match r) \<and> input (hr_match r) = Some n \<or>
      (\<exists>e. hl_out (hr_action r) = ActionPort n e))"

definition rule_uses_nf :: "string \<Rightarrow> HLRule \<Rightarrow> bool" where
  "rule_uses_nf n r =
     (matchOnNF (hr_match r) \<and> input (hr_match r) = Some n \<or>
      (\<exists>e p. hl_out (hr_action r) = ActionNetworkFunction n e p))"

lemma rules_use_port_eq:
  assumes "\<forall>r \<in> set rs. wf_input (hr_match r)"
  shows "rules_use_port n rs = Inr (\<exists>r \<in> set rs. rule_uses_port n r)"
  using assms
proof (induction rs)
  case (Cons r rs)
  show ?case
    using Cons.IH Cons.prems
    by (cases "hl_out (hr_action r)"; cases "matchOnPort (hr_match r)"; cases "input (hr_match r)")
      (simp_all add: getPhysicalPort_def rule_uses_port_def getType_def wf_input_def matchOnPort_def)
qed simp

lemma rules_use_vnf_eq:
  assumes "\<forall>r \<in> set rs. wf_input (hr_match r)"
  shows "rules_use_vnf n rs = Inr (\<exists>r \<in> set rs. rule_uses_nf n r)"
  using assms
proof (induction rs)
  case (Cons r rs)
  show ?case
    using Cons.IH Cons.prems
    by (cases "hl_out (hr_action r)"; cases "matchOnNF (hr_match r)"; cases "input (hr_match r)")
      (simp_all add: getNF_def rule_uses_nf_def getType_def wf_input_def matchOnNF_def)
qed simp

lemma foldR_remove_interfaces:
  assumes "erase_all EndPointInterface_eq es (endPointsInterface g) = Some l"
    and "\<forall>e \<in> set es. rules_use_port (ei_interface e) (rules g) = Inr False"
  shows "foldR remove_interface_step es g = Inr (g\<lparr>endPointsInterface := l\<rparr>)"
  using assms
proof (induction es arbitrary: g)
  case Nil
  then show ?case by simp
next
  case (Cons e es)
  from Cons.prems(1) obtain l1 where l1:
    "erase_first (\<lambda>x. EndPointInterface_eq x e) (endPointsInterface g) = Some l1"
    "erase_all EndPointInterface_eq es l1 = Some l"
    by (auto simp: Option.bind_eq_Some_conv)
  then have "\<exists>i \<in> set (endPointsInterface g). EndPointInterface_eq i e"
    by (auto elim: erase_first_SomeD)
  with l1 Cons.prems(2) have "remove_interface_step e g = Inr (g\<lparr>endPointsInterface := l1\<rparr>)"
    by (simp add: remove_interface_step_def stillUsedEndpointInterface_def removeEndPointInterface_def)
  with Cons.IH[of "g\<lparr>endPointsInterface := l1\<rparr>"] l1(2) Cons.prems(2) show ?case
    by simp
qed

lemma foldR_remove_vnfs:
  assumes "erase_all VNFs_eq vs (vnfs g) = Some l"
    and "\<forall>v \<in> set vs. rules_use_vnf (vnf_name v) (rules g) = Inr False"
  shows "foldR remove_vnf_step vs g = Inr (g\<lparr>vnfs := l\<rparr>)"
  using assms
proof (induction vs arbitrary: g)
  case Nil
  then show ?case by simp
next
  case (Cons v vs)
  from Cons.prems(1) obtain l1 where l1:
    "erase_first (\<lambda>x. VNFs_eq x v) (vnfs g) = Some l1" "erase_all VNFs_eq vs l1 = Some l"
    by (auto simp: Option.bind_eq_Some_conv)
  moreover have c: "(\<lambda>x. VNFs_eq x v) = (\<lambda>x. VNFs_eq v x)"
    by (rule ext) (rule hl_vnfs.same_commute)
  moreover have "\<exists>x \<in> set (vnfs g). VNFs_eq v x"
    using l1(1) unfolding c by (auto elim: erase_first_SomeD)
  ultimately have "remove_vnf_step v g = Inr (g\<lparr>vnfs := l1\<rparr>)"
    using Cons.prems(2) by (simp add: remove_vnf_step_def stillUsedVNF_def)
  with Cons.IH[of "g\<lparr>vnfs := l1\<rparr>"] l1(2) Cons.prems(2) show ?case
    by simp
qed

section \<open>An update\<close>

text \<open>
  No VNF of both graphs loses a port. Without it the reverse diff holds that VNF with the
  dropped ports, and removing the diff erases the whole VNF.
\<close>

definition no_port_dropped :: "HLGraph \<Rightarrow> HLGraph \<Rightarrow> bool" where
  "no_port_dropped old new =
     (\<forall>v \<in> set (vnfs old). \<forall>w \<in> set (vnfs new). VNFs_eq v w \<longrightarrow>
        (\<forall>p \<in> set (vnf_ports v). \<exists>q \<in> set (vnf_ports w). vp_id p = vp_id q))"

lemma vnf_needed_kept:
  assumes "uniq_by VNFs_eq new" "w \<in> set new" "VNFs_eq w v"
    and "\<forall>p \<in> set (vnf_ports v). \<exists>q \<in> set (vnf_ports w). vp_id p = vp_id q"
  shows "vnf_needed new v = None"
proof -
  obtain t where t: "find (\<lambda>there. VNFs_eq there v) new = Some t"
    using assms(2,3) by (cases "find (\<lambda>there. VNFs_eq there v) new") (auto simp: find_None_iff)
  then have "t \<in> set new" "VNFs_eq t v" by (auto simp: find_Some_iff)
  then have "t = w"
    using hl_vnfs.uniq_same_eq[OF assms(1) _ assms(2)] assms(3) hl_vnfs.same_sym hl_vnfs.same_trans
    by metis
  then show ?thesis
    using t assms(4) by (auto simp: vnf_needed_def fresh_from_def vnf_port_eq_def filter_empty_conv)
qed

lemma vnf_needed_gone: "\<not> present VNFs_eq v new \<Longrightarrow> vnf_needed new v = Some v"
  by (auto simp: vnf_needed_def present_def find_Some_iff split: option.split)

lemma map_filter_as_filter:
  "(\<And>x. x \<in> set xs \<Longrightarrow> f x = (if P x then Some x else None)) \<Longrightarrow> List.map_filter f xs = filter P xs"
  by (induction xs) (simp_all add: List.map_filter_simps)

lemma removal_diff_vnfs:
  assumes "graph_inv old" "graph_inv new" "no_port_dropped old new"
    and mid: "ms = map (grow_vnf (vnfs new)) (vnfs old) @ fresh_from VNFs_eq (vnfs old) (vnfs new)"
  shows "List.map_filter (vnf_needed (vnfs new)) ms = filter (\<lambda>v. \<not> present VNFs_eq v (vnfs new)) ms"
proof (rule map_filter_as_filter)
  fix m assume m: "m \<in> set ms"
  have un: "uniq_by VNFs_eq (vnfs new)" using assms(2) by (simp add: graph_inv_def)
  show "vnf_needed (vnfs new) m = (if \<not> present VNFs_eq m (vnfs new) then Some m else None)"
  proof (cases "present VNFs_eq m (vnfs new)")
    case True
    then obtain w where w: "w \<in> set (vnfs new)" "VNFs_eq w m" by (auto simp: present_def)
    have "\<forall>p \<in> set (vnf_ports m). \<exists>q \<in> set (vnf_ports w). vp_id p = vp_id q"
    proof (cases "m \<in> set (fresh_from VNFs_eq (vnfs old) (vnfs new))")
      case True
      then have "m \<in> set (vnfs new)" by (simp add: fresh_from_def)
      then have "m = w" using w hl_vnfs.uniq_same_eq[OF un] by metis
      then show ?thesis by auto
    next
      case False
      with m mid obtain v where v: "v \<in> set (vnfs old)" "m = grow_vnf (vnfs new) v" by auto
      then obtain t where t: "find (\<lambda>it. VNFs_eq v it) (vnfs new) = Some t"
        using w by (cases "find (\<lambda>it. VNFs_eq v it) (vnfs new)")
          (auto simp: find_None_iff dest: hl_vnfs.same_sym)
      then have t': "t \<in> set (vnfs new)" "VNFs_eq v t" by (auto simp: find_Some_iff)
      then have "t = w"
        using w v hl_vnfs.uniq_same_eq[OF un t'(1) w(1)] hl_vnfs.same_sym hl_vnfs.same_trans
        by (metis grow_vnf_eq(2))
      moreover have "\<forall>p \<in> set (vnf_ports v). \<exists>q \<in> set (vnf_ports t). vp_id p = vp_id q"
        using assms(3) v(1) t' by (simp add: no_port_dropped_def)
      ultimately show ?thesis
        using v(2) t by (auto simp: grow_vnf_def fresh_from_def)
    qed
    with w un True show ?thesis by (simp add: vnf_needed_kept)
  next
    case False
    then show ?thesis by (simp add: vnf_needed_gone)
  qed
qed

lemma filter_extended:
  assumes "\<And>x. x \<in> set ys \<Longrightarrow> P x"
  shows "filter P (xs @ ys) = filter P xs @ ys"
  using assms by (simp add: filter_id_conv)

lemma present_grow_vnf [simp]: "present VNFs_eq (grow_vnf ns v) xs = present VNFs_eq v xs"
  by (simp add: present_def)

lemma wf_updated_rules:
  assumes "\<forall>r \<in> set (rules old) \<union> set (rules new). wf_input (hr_match r)"
  shows "\<forall>r \<in> set (updated_list HLRule_eq (rules old) (rules new)). wf_input (hr_match r)"
  using assms by (auto simp: updated_list_def fresh_from_def)

lemma not_in_new_commute:
  "(\<exists>y \<in> set rs. HLRule_eq x y) = present HLRule_eq x rs"
  "(\<exists>y \<in> set es. EndPointInterface_eq e y) = present EndPointInterface_eq e es"
  by (auto simp: present_def dest: hl_rules.same_sym hl_interfaces.same_sym)

text \<open>The four parts of removing the reverse diff from the extended graph.\<close>

lemma remove_diff_rules:
  assumes "uniq_by HLRule_eq (rules mid)"
    and "rules mid = rules old @ fresh_from HLRule_eq (rules old) (rules new)"
  shows "foldR remove_rule_step (fresh_from HLRule_eq (rules new) (rules mid)) ([], mid) =
    Inr (map (\<lambda>r. rule_removed_info (hl_out (hr_action r)))
           (filter (\<lambda>r. \<not> present HLRule_eq r (rules new)) (rules old)),
         mid\<lparr>rules := updated_list HLRule_eq (rules old) (rules new)\<rparr>)"
proof -
  let ?P = "\<lambda>r. \<not> present HLRule_eq r (rules new)"
  have "filter ?P (rules mid) = filter ?P (rules old)"
    by (auto simp: assms(2) fresh_from_def filter_empty_conv intro: hl_rules.present_member)
  moreover have "filter (\<lambda>r. \<not> ?P r) (rules mid) = updated_list HLRule_eq (rules old) (rules new)"
    unfolding assms(2) updated_list_def not_in_new_commute
    by (subst filter_extended) (auto simp: fresh_from_def intro: hl_rules.present_member)
  ultimately show ?thesis
    using remove_rules_filter[of "[]" "rules mid" ?P "[]" mid] assms(1)
    by (simp add: fresh_from_def not_in_new_commute)
qed

lemma remove_diff_interfaces:
  assumes "uniq_by EndPointInterface_eq olds" "uniq_by EndPointInterface_eq news"
    and mid: "endPointsInterface g = olds @ fresh_from EndPointInterface_eq olds news"
    and wf: "\<forall>r \<in> set (rules g). wf_input (hr_match r)"
    and unused: "\<forall>e \<in> set olds. \<not> present EndPointInterface_eq e news \<longrightarrow>
      (\<forall>r \<in> set (rules g). \<not> rule_uses_port (ei_interface e) r)"
  shows "foldR remove_interface_step
      (fresh_from EndPointInterface_eq news (endPointsInterface g)) g =
    Inr (g\<lparr>endPointsInterface := updated_list EndPointInterface_eq olds news\<rparr>)"
proof (rule foldR_remove_interfaces)
  show "erase_all EndPointInterface_eq (fresh_from EndPointInterface_eq news (endPointsInterface g))
      (endPointsInterface g) = Some (updated_list EndPointInterface_eq olds news)"
    unfolding mid by (rule hl_interfaces.update_by_diffs[OF assms(1,2)])
  show "\<forall>e \<in> set (fresh_from EndPointInterface_eq news (endPointsInterface g)).
      rules_use_port (ei_interface e) (rules g) = Inr False"
    unfolding mid hl_interfaces.fresh_from_extended
    using unused by (auto simp: rules_use_port_eq[OF wf] not_in_new_commute)
qed

lemma kept_vnfs:
  "filter (\<lambda>v. present VNFs_eq v news) (map (grow_vnf news) olds @ fresh_from VNFs_eq olds news) =
     map (grow_vnf news) (filter (\<lambda>v. present VNFs_eq v news) olds) @ fresh_from VNFs_eq olds news"
  by (subst filter_extended)
    (auto simp: fresh_from_def filter_map o_def intro: hl_vnfs.present_member)

lemma remove_diff_vnfs:
  assumes "uniq_by VNFs_eq (vnfs g)"
    and mid: "vnfs g = map (grow_vnf news) olds @ fresh_from VNFs_eq olds news"
    and wf: "\<forall>r \<in> set (rules g). wf_input (hr_match r)"
    and unused: "\<forall>v \<in> set olds. \<not> present VNFs_eq v news \<longrightarrow>
      (\<forall>r \<in> set (rules g). \<not> rule_uses_nf (vnf_name v) r)"
  shows "foldR remove_vnf_step (filter (\<lambda>v. \<not> present VNFs_eq v news) (vnfs g)) g =
    Inr (g\<lparr>vnfs := map (grow_vnf news) (filter (\<lambda>v. present VNFs_eq v news) olds) @
           fresh_from VNFs_eq olds news\<rparr>)"
proof (rule foldR_remove_vnfs)
  show "erase_all VNFs_eq (filter (\<lambda>v. \<not> present VNFs_eq v news) (vnfs g)) (vnfs g) =
      Some (map (grow_vnf news) (filter (\<lambda>v. present VNFs_eq v news) olds) @
        fresh_from VNFs_eq olds news)"
    using hl_vnfs.erase_all_filter[OF assms(1)] kept_vnfs[of news olds] by (simp add: mid)
  show "\<forall>v \<in> set (filter (\<lambda>v. \<not> present VNFs_eq v news) (vnfs g)).
      rules_use_vnf (vnf_name v) (rules g) = Inr False"
    unfolding mid using unused
    by (auto simp: rules_use_vnf_eq[OF wf] fresh_from_def intro: hl_vnfs.present_member)
qed


text \<open>
  A small update: the firewall keeps its first rule, gets a port, and its traffic leaves
  through \<open>eth2\<close> instead of \<open>eth1\<close>.
\<close>

definition ex_match_port :: "string \<Rightarrow> HLMatch" where
  "ex_match_port p =
     snd (setInputPort p (snd (setInputEndpoint ''endpoint:1'' (HLMatch_new zero_HLMatch))))"

definition ex_match_nf :: HLMatch where
  "ex_match_nf =
     snd (setNFport ''01'' 1 (snd (setNFEndpointPort ''vnf:01:in:0'' (HLMatch_new zero_HLMatch))))"

definition ex_rule_in :: HLRule where
  "ex_rule_in =
     \<lparr>hr_match = ex_match_port ''eth0'',
      hr_action = \<lparr>hl_out = ActionNetworkFunction ''01'' ''vnf:01:in:0'' 1, genericActions = []\<rparr>,
      hr_priority = 1, hr_ruleID = ''1''\<rparr>"

definition ex_rule_out :: "string \<Rightarrow> string \<Rightarrow> HLRule" where
  "ex_rule_out i p =
     \<lparr>hr_match = ex_match_nf,
      hr_action = \<lparr>hl_out = ActionPort p ''endpoint:2'', genericActions = []\<rparr>,
      hr_priority = 1, hr_ruleID = i\<rparr>"

definition ex_vnf :: "string list \<Rightarrow> VNFs" where
  "ex_vnf ps =
     \<lparr>vnf_id = ''01'', vnf_name = ''firewall'', vnf_groups = [], vnf_template = ''fw.json'',
      vnf_ports = map (\<lambda>p. \<lparr>vp_id = p, vp_name = p, vp_configuration = \<lparr>mac_address = ''''\<rparr>\<rparr>) ps\<rparr>"

definition ex_old :: HLGraph where
  "ex_old = (HLGraph_new ''g'')
     \<lparr>rules := [ex_rule_in, ex_rule_out ''2'' ''eth1''],
      endPointsInterface := [\<lparr>ei_id = ''1'', ei_name = ''a'', ei_interface = ''eth0''\<rparr>,
        \<lparr>ei_id = ''2'', ei_name = ''b'', ei_interface = ''eth1''\<rparr>],
      vnfs := [ex_vnf [''in:0'']]\<rparr>"

definition ex_new :: HLGraph where
  "ex_new = (HLGraph_new ''g'')
     \<lparr>rules := [ex_rule_in, ex_rule_out ''3'' ''eth2''],
      endPointsInterface := [\<lparr>ei_id = ''1'', ei_name = ''a'', ei_interface = ''eth0''\<rparr>,
        \<lparr>ei_id = ''3'', ei_name = ''c'', ei_interface = ''eth2''\<rparr>],
      vnfs := [ex_vnf [''in:0'', ''mgmt:1'']]\<rparr>"

lemmas ex_defs = ex_old_def ex_new_def ex_rule_in_def ex_rule_out_def ex_match_port_def
  ex_match_nf_def ex_vnf_def HLGraph_new_def setInputPort_def setInputEndpoint_def setNFport_def
  setNFEndpointPort_def HLMatch_new_def

lemma ex_hyps:
  "graph_inv ex_old" "graph_inv ex_new"
  "\<forall>r \<in> set (rules ex_old) \<union> set (rules ex_new). wf_input (hr_match r)"
  "no_port_dropped ex_old ex_new"
  "\<forall>e \<in> set (endPointsInterface ex_old).
     \<not> present EndPointInterface_eq e (endPointsInterface ex_new) \<longrightarrow>
     (\<forall>r \<in> set (updated_list HLRule_eq (rules ex_old) (rules ex_new)).
        \<not> rule_uses_port (ei_interface e) r)"
  "\<forall>v \<in> set (vnfs ex_old). \<not> present VNFs_eq v (vnfs ex_new) \<longrightarrow>
     (\<forall>r \<in> set (updated_list HLRule_eq (rules ex_old) (rules ex_new)). \<not> rule_uses_nf (vnf_name v) r)"
  by (simp_all add: ex_defs graph_inv_def HLRule_eq_def EndPointInterface_eq_def VNFs_eq_def
      vnf_port_eq_def wf_input_def no_port_dropped_def present_def updated_list_def fresh_from_def
      rule_uses_port_def rule_uses_nf_def matchOnPort_def matchOnNF_def)


lemma dropped_port_in_diff:
  assumes "graph_inv g" "graph_inv new" "v \<in> set (vnfs g)" "w \<in> set (vnfs new)" "VNFs_eq w v"
    and "p \<in> set (vnf_ports v)" "\<forall>q \<in> set (vnf_ports w). vp_id q \<noteq> vp_id p"
  shows "\<exists>d \<in> set (vnfs (calculateDiff new g i)). vnf_id d = vnf_id v \<and> vnf_name d = vnf_name v"
proof -
  obtain t where t: "find (\<lambda>there. VNFs_eq there v) (vnfs new) = Some t"
    using assms(4,5) by (cases "find (\<lambda>there. VNFs_eq there v) (vnfs new)") (auto simp: find_None_iff)
  then have "t \<in> set (vnfs new)" "VNFs_eq t v" by (auto simp: find_Some_iff)
  then have "t = w"
    using assms(2,4,5) hl_vnfs.uniq_same_eq[of "vnfs new" t w] hl_vnfs.same_sym hl_vnfs.same_trans
    by (metis graph_inv_def)
  moreover have "p \<in> set (fresh_from vnf_port_eq (vnf_ports w) (vnf_ports v))"
    using assms(6,7) by (auto simp: fresh_from_def vnf_port_eq_def)
  ultimately obtain d where "vnf_needed (vnfs new) v = Some d"
    using t by (cases "fresh_from vnf_port_eq (vnf_ports w) (vnf_ports v)")
      (auto simp: vnf_needed_def Let_def)
  with assms(3) vnf_needed_key[OF this] show ?thesis
    unfolding calculateDiff_lists(6)[OF assms(1)]
    by (force simp: List.map_filter_def)
qed



end
