(* ===== verification/Low_Level_Graph.thy ===== *)
theory Low_Level_Graph
  imports High_Level_Elements
begin

unbundle bit_operations_syntax

text \<open>
  Rules as they are sent to a switch (\<open>graph/low_level_graph/\<close>): matches on switch ports,
  output actions, rules and the graph that holds them, with the flow-mod message each of
  them fills in. rofl's message object is a parameter seen through the calls made on it: the
  model is the sequence of those calls.

  Shown here: \<open>operator==\<close> of matches, actions and rules are equivalences; equal rules with
  real ports give the same delete message; and copying a well-formed match keeps the calls it
  makes.
\<close>

section \<open>Matches\<close>

record LLMatch = Match +
  isInput_port :: bool
  input_port :: "32 word"
  is_local_port :: bool

definition LLMatch_new :: "LLMatch \<Rightarrow> LLMatch" where
  "LLMatch_new mem = (Match_new mem)\<lparr>isInput_port := False, is_local_port := False\<rparr>"

definition LLMatch_new_local :: "bool \<Rightarrow> LLMatch \<Rightarrow> LLMatch" where
  "LLMatch_new_local b mem = (Match_new mem)\<lparr>isInput_port := False, is_local_port := b\<rparr>"

definition LLMatch_eq :: "LLMatch \<Rightarrow> LLMatch \<Rightarrow> bool" where
  "LLMatch_eq m other =
     (\<not> ((isInput_port m \<and> \<not> isInput_port other) \<or> (\<not> isInput_port m \<and> isInput_port other)) \<and>
      \<not> input_port m \<noteq> input_port other \<and>
      isEqual m other)"

definition LLMatch_setInputPort :: "32 word \<Rightarrow> LLMatch \<Rightarrow> LLMatch" where
  "LLMatch_setInputPort p m = m\<lparr>input_port := p, isInput_port := True\<rparr>"

text \<open>The calls on \<open>message.set_match()\<close>; an address comes with its mask when there is one.\<close>

datatype oxm =
    Set_in_port "32 word"
  | Set_in_port_local
  | Set_eth_src string cstr
  | Set_eth_dst string cstr
  | Set_eth_type "16 word"
  | Set_vlan_vid "16 word"
  | Set_vlan_present
  | Set_vlan_untagged
  | Set_vlan_pcp "8 word"
  | Set_ip_dscp "8 word"
  | Set_ip_ecn "8 word"
  | Set_ip_proto "8 word"
  | Set_ipv4_src string cstr
  | Set_ipv4_dst string cstr
  | Set_tcp_src "16 word"
  | Set_tcp_dst "16 word"
  | Set_udp_src "16 word"
  | Set_udp_dst "16 word"
  | Set_sctp_src "16 word"
  | Set_sctp_dst "16 word"
  | Set_icmpv4_type "8 word"
  | Set_icmpv4_code "8 word"
  | Set_arp_opcode "16 word"
  | Set_arp_spa string cstr
  | Set_arp_tpa string cstr
  | Set_arp_sha string
  | Set_arp_tha string
  | Set_ipv6_src string cstr
  | Set_ipv6_dst string cstr
  | Set_ipv6_flabel "32 word"
  | Set_icmpv6_type "8 word"
  | Set_icmpv6_code "8 word"
  | Set_ipv6_nd_target string
  | Set_ipv6_nd_sll string
  | Set_ipv6_nd_tll string
  | Set_mpls_label "32 word"
  | Set_mpls_tc "8 word"
  | Set_tunnel_id "32 word"

definition emit_if :: "bool \<Rightarrow> 'c \<Rightarrow> 'c list" where
  "emit_if b c = (if b then [c] else [])"

definition emit_flag :: "bool \<Rightarrow> ('v \<Rightarrow> 'c) \<Rightarrow> 'v \<Rightarrow> 'c list" where
  "emit_flag b c v = (if b then [c v] else [])"

definition emit_str :: "(string \<Rightarrow> 'c) \<Rightarrow> cstr \<Rightarrow> 'c list" where
  "emit_str c p = (case p of None \<Rightarrow> [] | Some s \<Rightarrow> [c s])"

definition emit_addr :: "(string \<Rightarrow> cstr \<Rightarrow> 'c) \<Rightarrow> cstr \<Rightarrow> cstr \<Rightarrow> 'c list" where
  "emit_addr c p k = (case p of None \<Rightarrow> [] | Some s \<Rightarrow> [c s k])"

definition fill_ethernet :: "'a Match_scheme \<Rightarrow> oxm list" where
  "fill_ethernet m =
     emit_addr Set_eth_src (eth_src m) (eth_src_mask m) @
     emit_addr Set_eth_dst (eth_dst m) (eth_dst_mask m) @
     emit_flag (isEthType m) Set_eth_type (ethType m)"

definition fill_vlan :: "'a Match_scheme \<Rightarrow> oxm list" where
  "fill_vlan m =
     (if isVlanID m \<or> isEndpointVlanID m then [Set_vlan_vid (vlanID m OR 0x1000)]
      else if isAnyVlan m then [Set_vlan_present]
      else if isNoVlan m then [Set_vlan_untagged]
      else []) @
     emit_flag (isVlanPCP m) Set_vlan_pcp (vlanPCP m)"

definition fill_ipv4 :: "'a Match_scheme \<Rightarrow> oxm list" where
  "fill_ipv4 m =
     emit_flag (isIpDSCP m) Set_ip_dscp (ipDSCP m) @
     emit_flag (isIpECN m) Set_ip_ecn (ipECN m) @
     emit_flag (isIpProto m) Set_ip_proto (ipProto m) @
     emit_addr Set_ipv4_src (ipv4_src m) (ipv4_src_mask m) @
     emit_addr Set_ipv4_dst (ipv4_dst m) (ipv4_dst_mask m)"

definition fill_transport :: "'a Match_scheme \<Rightarrow> oxm list" where
  "fill_transport m =
     emit_if (isTcpProtocol m \<and> transport_src_port m \<noteq> 0) (Set_tcp_src (transport_src_port m)) @
     emit_if (isTcpProtocol m \<and> transport_dst_port m \<noteq> 0) (Set_tcp_dst (transport_dst_port m)) @
     emit_if (isUdpProtocol m \<and> transport_src_port m \<noteq> 0) (Set_udp_src (transport_src_port m)) @
     emit_if (isUdpProtocol m \<and> transport_dst_port m \<noteq> 0) (Set_udp_dst (transport_dst_port m)) @
     emit_if (isSctpProtocol m \<and> transport_src_port m \<noteq> 0) (Set_sctp_src (transport_src_port m)) @
     emit_if (isSctpProtocol m \<and> transport_dst_port m \<noteq> 0) (Set_sctp_dst (transport_dst_port m))"

definition fill_icmpv4 :: "'a Match_scheme \<Rightarrow> oxm list" where
  "fill_icmpv4 m =
     emit_flag (isIcmpv4Type m) Set_icmpv4_type (icmpv4Type m) @
     emit_flag (isIcmpv4Code m) Set_icmpv4_code (icmpv4Code m)"

definition fill_arp :: "'a Match_scheme \<Rightarrow> oxm list" where
  "fill_arp m =
     emit_flag (isArpOpcode m) Set_arp_opcode (arpOpcode m) @
     emit_addr Set_arp_spa (arp_spa m) (arp_spa_mask m) @
     emit_addr Set_arp_tpa (arp_tpa m) (arp_tpa_mask m) @
     emit_str Set_arp_sha (arp_sha m) @
     emit_str Set_arp_tha (arp_tha m)"

text \<open>The code of an ICMPv6 match is the flag that says there is one, converted to a number.\<close>

definition fill_ipv6 :: "'a Match_scheme \<Rightarrow> oxm list" where
  "fill_ipv6 m =
     emit_addr Set_ipv6_src (ipv6_src m) (ipv6_src_mask m) @
     emit_addr Set_ipv6_dst (ipv6_dst m) (ipv6_dst_mask m) @
     emit_flag (isIpv6Flabel m) Set_ipv6_flabel (ipv6_flabel m) @
     emit_flag (isIcmpv6Type m) Set_icmpv6_type (icmpv6Type m) @
     emit_if (isIcmpv6Code m) (Set_icmpv6_code (if isIcmpv6Code m then 1 else 0)) @
     emit_str Set_ipv6_nd_target (ipv6_nd_target m) @
     emit_str Set_ipv6_nd_sll (ipv6_nd_sll m) @
     emit_str Set_ipv6_nd_tll (ipv6_nd_tll m)"

definition fill_mpls_gre :: "'a Match_scheme \<Rightarrow> oxm list" where
  "fill_mpls_gre m =
     emit_flag (isMplsLabel m) Set_mpls_label (mplsLabel m) @
     emit_flag (isMplsTC m) Set_mpls_tc (mplsTC m) @
     (case gre_key m of
        None \<Rightarrow> []
      | Some k \<Rightarrow>
          [Set_tunnel_id (case sscanf_x k of Some v \<Rightarrow> v
                          | None \<Rightarrow> (case sscanf_u k of Some v \<Rightarrow> v | None \<Rightarrow> 0))])"

definition fill_common :: "'a Match_scheme \<Rightarrow> oxm list" where
  "fill_common m =
     fill_ethernet m @ fill_vlan m @ fill_ipv4 m @ fill_transport m @ fill_icmpv4 m @ fill_arp m @
     fill_ipv6 m @ fill_mpls_gre m"

definition LLMatch_fillFlowmodMessage :: "LLMatch \<Rightarrow> oxm list" where
  "LLMatch_fillFlowmodMessage m =
     emit_flag (isInput_port m) Set_in_port (input_port m) @
     emit_if (is_local_port m) Set_in_port_local @
     fill_common m"

section \<open>Actions\<close>

datatype ofp_action_type = OFPAT_OUTPUT

record LLAction =
  act_type :: ofp_action_type
  port_id :: "32 word"
  act_is_local_port :: bool
  is_normal :: bool
  ll_genericActions :: "GenericAction list"

definition LLAction_port :: "32 word \<Rightarrow> LLAction" where
  "LLAction_port p =
     \<lparr>act_type = OFPAT_OUTPUT, port_id = p, act_is_local_port = False, is_normal = False,
      ll_genericActions = []\<rparr>"

text \<open>The other two constructors leave \<open>port_id\<close> as the storage has it.\<close>

definition LLAction_local :: "bool \<Rightarrow> bool \<Rightarrow> LLAction \<Rightarrow> LLAction" where
  "LLAction_local l n mem =
     mem\<lparr>act_type := OFPAT_OUTPUT, act_is_local_port := l, is_normal := n, ll_genericActions := []\<rparr>"

definition LLAction_eq :: "LLAction \<Rightarrow> LLAction \<Rightarrow> bool" where
  "LLAction_eq a other = (act_type a = act_type other \<and> port_id a = port_id other)"

definition LLAction_addGenericAction :: "GenericAction \<Rightarrow> LLAction \<Rightarrow> LLAction" where
  "LLAction_addGenericAction ga a = a\<lparr>ll_genericActions := ll_genericActions a @ [ga]\<rparr>"

datatype ofp_version = OFP_10 | OFP_12 | OFP_13

text \<open>The actions added to the message, each with the index it is added at.\<close>

datatype of_action =
    Push_vlan_ctag
  | Set_field_vlan_vid "16 word"
  | Pop_vlan
  | Output_port "32 word"
  | Output_local
  | Output_normal

definition VlanAction_fill ::
  "ofp_version \<Rightarrow> GenericAction \<Rightarrow> nat \<times> (nat \<times> of_action) list \<Rightarrow>
     (nat \<times> (nat \<times> of_action) list) result" where
  "VlanAction_fill v ga s =
     (case v of
        OFP_10 \<Rightarrow> Inl AssertFailure
      | OFP_13 \<Rightarrow> Inl AssertFailure
      | OFP_12 \<Rightarrow>
          (let (position, acts) = s
           in if vlan_type ga = ACTION_VLAN_PUSH \<or> vlan_type ga = ACTION_ENDPOINT_VLAN_PUSH
              then Inr (position + 2, acts @ [(position, Push_vlan_ctag),
                     (position + 1, Set_field_vlan_vid (vlan_label ga OR 0x1000))])
              else Inr (position + 1, acts @ [(position, Pop_vlan)])))"

definition LLAction_fillFlowmodMessage ::
  "ofp_version \<Rightarrow> LLAction \<Rightarrow> (nat \<times> of_action) list result" where
  "LLAction_fillFlowmodMessage v a =
     bindR (foldR (VlanAction_fill v) (ll_genericActions a) (0, [])) (\<lambda>(position, acts).
     Inr (acts @ [(position,
       if act_is_local_port a then Output_local
       else if is_normal a then Output_normal
       else Output_port (port_id a))]))"

section \<open>Rules\<close>

record LLRule =
  ll_priority :: "64 word"
  ll_match :: LLMatch
  ll_action :: LLAction
  flowID :: string

definition LLRule_eq :: "LLRule \<Rightarrow> LLRule \<Rightarrow> bool" where
  "LLRule_eq r other =
     (ll_priority r = ll_priority other \<and> LLAction_eq (ll_action r) (ll_action other) \<and>
      LLMatch_eq (ll_match r) (ll_match other))"

datatype command_t = ADD_RULE | RM_RULE

text \<open>The protocol version of the connection: 1, 3 and 4 on the wire; others are refused.\<close>

datatype of_wire_version = OF_10 | OF_12 | OF_13 | OF_other

datatype of_command = OFPFC_ADD | OFPFC_DELETE_STRICT

record flowmod =
  fm_table_id :: "8 word"
  fm_command :: of_command
  fm_idle_timeout :: "16 word"
  fm_hard_timeout :: "16 word"
  fm_priority :: "64 word"
  fm_match :: "oxm list"
  fm_actions :: "(nat \<times> of_action) list"
  fm_out_any :: bool

definition LLRule_fillFlowmodMessage ::
  "ofp_version \<Rightarrow> LLRule \<Rightarrow> of_wire_version \<Rightarrow> command_t \<Rightarrow> flowmod result" where
  "LLRule_fillFlowmodMessage v r wire command =
     (if wire = OF_other then Inl BadVersion
      else bindR (if command = ADD_RULE then LLAction_fillFlowmodMessage v (ll_action r) else Inr [])
        (\<lambda>acts. Inr
          \<lparr>fm_table_id = 0,
           fm_command = (if command = ADD_RULE then OFPFC_ADD else OFPFC_DELETE_STRICT),
           fm_idle_timeout = 0, fm_hard_timeout = 0, fm_priority = ll_priority r,
           fm_match = LLMatch_fillFlowmodMessage (ll_match r), fm_actions = acts,
           fm_out_any = (command \<noteq> ADD_RULE)\<rparr>))"

section \<open>The graph of a switch\<close>

type_synonym LLGraph = "LLRule list"

definition LLGraph_addRule :: "LLRule \<Rightarrow> LLGraph \<Rightarrow> LLGraph" where
  "LLGraph_addRule r g = g @ [r]"

definition LLGraph_addRules :: "LLRule list \<Rightarrow> LLGraph \<Rightarrow> LLGraph" where
  "LLGraph_addRules rs g = fold LLGraph_addRule rs g"

definition LLGraph_getRule :: "string \<Rightarrow> LLGraph \<Rightarrow> LLRule result" where
  "LLGraph_getRule i g = optionR GraphException (find (\<lambda>r. flowID r = i) g)"

definition LLGraph_removeRule :: "LLRule \<Rightarrow> LLGraph \<Rightarrow> LLGraph result" where
  "LLGraph_removeRule r g = optionR AssertFailure (erase_first (\<lambda>it. LLRule_eq it r) g)"

definition LLGraph_removeRules :: "LLRule list \<Rightarrow> LLGraph \<Rightarrow> LLGraph result" where
  "LLGraph_removeRules rs g = foldR LLGraph_removeRule rs g"

text \<open>
  Erases the first rule with the identifier, if any; the result says whether a rule with
  another identifier is identical to it.
\<close>

definition LLGraph_removeRuleFromID :: "string \<Rightarrow> LLGraph \<Rightarrow> bool \<times> LLGraph" where
  "LLGraph_removeRuleFromID i g =
     (case find (\<lambda>r. flowID r = i) g of
        None \<Rightarrow> (False, g)
      | Some it \<Rightarrow>
          (\<exists>again \<in> set g. flowID it \<noteq> flowID again \<and> LLRule_eq it again,
           the (erase_first (\<lambda>r. flowID r = i) g)))"

section \<open>Equalities\<close>

lemma LLMatch_eq_iff:
  "LLMatch_eq m n \<longleftrightarrow>
     isInput_port m = isInput_port n \<and> input_port m = input_port n \<and> match_key m = match_key n"
  by (auto simp: LLMatch_eq_def isEqual_iff_key)

interpretation ll_rules: registry LLRule_eq
  by unfold_locales (auto simp: LLRule_eq_def LLAction_eq_def LLMatch_eq_iff)

section \<open>What a copy tells the switch\<close>

lemma emit_flag_key: "emit_flag b c v = (case flagged b v of None \<Rightarrow> [] | Some x \<Rightarrow> [c x])"
  by (simp add: emit_flag_def flagged_def)

lemma flagged_flag: "flagged b v = flagged c w \<Longrightarrow> b = c"
  by (auto simp: flagged_def split: if_splits)

lemma fill_sections_key:
  "key_ethernet a = key_ethernet b \<Longrightarrow> fill_ethernet a = fill_ethernet b"
  "key_ipv4 a = key_ipv4 b \<Longrightarrow> fill_ipv4 a = fill_ipv4 b"
  "key_icmpv4 a = key_icmpv4 b \<Longrightarrow> fill_icmpv4 a = fill_icmpv4 b"
  "key_arp a = key_arp b \<Longrightarrow> fill_arp a = fill_arp b"
  "key_mpls a = key_mpls b \<Longrightarrow> gre_key a = gre_key b \<Longrightarrow> fill_mpls_gre a = fill_mpls_gre b"
  by (simp_all add: fill_ethernet_def key_ethernet_def fill_ipv4_def key_ipv4_def fill_icmpv4_def
      key_icmpv4_def fill_arp_def key_arp_def fill_mpls_gre_def key_mpls_def emit_flag_key)

lemma fill_ipv6_key:
  assumes "key_ipv6 a = key_ipv6 b" "key_icmpv6 a = key_icmpv6 b"
  shows "fill_ipv6 a = fill_ipv6 b"
proof -
  have "isIcmpv6Code a = isIcmpv6Code b"
    using assms(2) by (auto simp: key_icmpv6_def dest: flagged_flag)
  with assms show ?thesis
    by (simp add: fill_ipv6_def key_ipv6_def key_icmpv6_def emit_flag_key)
qed

lemma fill_transport_key:
  assumes "key_transport a = key_transport b"
  shows "fill_transport a = fill_transport b"
proof -
  have f: "isTcpProtocol a = isTcpProtocol b" "isUdpProtocol a = isUdpProtocol b"
    "isSctpProtocol a = isSctpProtocol b"
    using assms by (simp_all add: key_transport_def)
  show ?thesis
  proof (cases "isTcpProtocol b \<or> isUdpProtocol b \<or> isSctpProtocol b")
    case True
    then have "transport_src_port a = transport_src_port b" "transport_dst_port a = transport_dst_port b"
      using assms f by (simp_all add: key_transport_def flagged_def)
    with f show ?thesis by (simp add: fill_transport_def)
  next
    case False
    with f show ?thesis by (simp add: fill_transport_def emit_if_def)
  qed
qed

lemma fill_vlan_key:
  assumes "key_vlan a = key_vlan b" "\<not> isEndpointVlanID a" "\<not> isEndpointVlanID b"
  shows "fill_vlan a = fill_vlan b"
proof -
  have k: "flagged (isVlanID a) (vlanID a) = flagged (isVlanID b) (vlanID b)"
    "isNoVlan a = isNoVlan b" "isAnyVlan a = isAnyVlan b"
    "flagged (isVlanPCP a) (vlanPCP a) = flagged (isVlanPCP b) (vlanPCP b)"
    using assms(1) by (simp_all add: key_vlan_def)
  have i: "isVlanID a = isVlanID b" by (rule flagged_flag[OF k(1)])
  have "isVlanID b \<Longrightarrow> vlanID a = vlanID b" using k(1) i by (simp add: flagged_def)
  with i k assms(2,3) show ?thesis
    by (simp add: fill_vlan_def emit_flag_key)
qed

lemma fill_common_key:
  assumes "match_key a = match_key b" "\<not> isEndpointVlanID a" "\<not> isEndpointVlanID b"
  shows "fill_common a = fill_common b"
  using assms fill_sections_key[of a b] fill_ipv6_key[of a b] fill_transport_key[of a b]
    fill_vlan_key[of a b]
  by (simp add: fill_common_def match_key_def)

lemma copy_no_endpoint_vlan [simp]: "isEndpointVlanID (copy_fields src m) = isEndpointVlanID m"
  by (simp add: copy_fields_def copy_updates)

lemma fill_vlan_copy: "fill_vlan (copy_fields src (Match_new mem)) = fill_vlan src"
proof -
  let ?m = "copy_fields src (Match_new mem)" and ?v = "isVlanID src \<or> isEndpointVlanID src"
  have k: "flagged (isVlanID ?m) (vlanID ?m) = flagged ?v (vlanID src)"
    "isNoVlan ?m = (\<not> ?v \<and> \<not> isAnyVlan src \<and> isNoVlan src)" "isAnyVlan ?m = (\<not> ?v \<and> isAnyVlan src)"
    "flagged (isVlanPCP ?m) (vlanPCP ?m) = flagged (isVlanPCP src) (vlanPCP src)"
    using copy_key_sections(2)[of src mem] by (simp_all add: key_vlan_def common_vlan_def Let_def)
  have i: "isVlanID ?m = ?v" by (rule flagged_flag[OF k(1)])
  have "?v \<Longrightarrow> vlanID ?m = vlanID src" using k(1) i by (simp add: flagged_def)
  with i k wf_Match_new(1)[of mem] show ?thesis
    by (simp add: fill_vlan_def emit_flag_key)
qed

lemma fill_transport_copy:
  assumes "wf_match src"
  shows "fill_transport (copy_fields src (Match_new mem)) = fill_transport src"
proof -
  have "common_transport src = key_transport src"
    using assms by (simp add: common_transport_def key_transport_def wf_match_def Let_def flagged_def)
  with copy_key_sections(4)[of src mem] show ?thesis by (intro fill_transport_key) simp
qed

lemma fill_common_copy:
  assumes "wf_match src"
  shows "fill_common (copy_fields src (Match_new mem)) = fill_common src"
  unfolding fill_common_def
  by (simp add: fill_vlan_copy fill_transport_copy[OF assms] fill_sections_key(1)[OF copy_key_sections(1)]
      fill_sections_key(2)[OF copy_key_sections(3)] fill_sections_key(3)[OF copy_key_sections(5)]
      fill_sections_key(4)[OF copy_key_sections(6)]
      fill_ipv6_key[OF copy_key_sections(7) copy_key_sections(8)]
      fill_sections_key(5)[OF copy_key_sections(9) copy_key_sections(10)])

text \<open>The members of the subclass are not touched by the constructor and the copy of the base.\<close>

lemma LL_frame:
  "isInput_port (copy_fields src m) = isInput_port m"
  "input_port (copy_fields src m) = input_port m"
  "is_local_port (copy_fields src m) = is_local_port m"
  by (simp_all add: copy_fields_def copy_updates)

lemma LLMatch_new_port:
  "LLMatch_setInputPort p (LLMatch_new mem) =
     Match_new (mem\<lparr>isInput_port := True, input_port := p, is_local_port := False\<rparr>)"
  by (simp add: LLMatch_setInputPort_def LLMatch_new_def Match_new_def)

definition ll_match_of :: "LLMatch \<Rightarrow> 32 word \<Rightarrow> 'a Match_scheme \<Rightarrow> LLMatch" where
  "ll_match_of mem p src = copy_fields src (LLMatch_setInputPort p (LLMatch_new mem))"

lemma setAllCommonFields_port:
  "setAllCommonFields src (LLMatch_setInputPort p (LLMatch_new mem)) =
     (if ipv6_dst src \<noteq> None \<and> gre_key src = None then Inl NullPointer
      else Inr (ll_match_of mem p src))"
  by (simp add: setAllCommonFields_eq ll_match_of_def)

lemma ll_match_of_simps [simp]:
  "isInput_port (ll_match_of mem p src)" "input_port (ll_match_of mem p src) = p"
  "\<not> is_local_port (ll_match_of mem p src)" "\<not> isEndpointVlanID (ll_match_of mem p src)"
  by (simp_all add: ll_match_of_def LL_frame LLMatch_new_port) (simp_all add: Match_new_def)

lemma fill_ll_match_of:
  assumes "wf_match src"
  shows "LLMatch_fillFlowmodMessage (ll_match_of mem p src) = Set_in_port p # fill_common src"
proof -
  have "fill_common (ll_match_of mem p src) = fill_common src"
    unfolding ll_match_of_def LLMatch_new_port by (rule fill_common_copy[OF assms])
  then show ?thesis by (simp add: LLMatch_fillFlowmodMessage_def emit_if_def emit_flag_def)
qed

lemma VlanAction_fill_12:
  assumes "map fst acts = [0..<n]"
  shows "\<exists>m new. VlanAction_fill OFP_12 ga (n, acts) = Inr (m, acts @ new) \<and>
    map fst (acts @ new) = [0..<m]"
proof -
  have "[0..<n + 2] = [0..<n] @ [n, n + 1]" "[0..<n + 1] = [0..<n] @ [n]"
    using upt_add_eq_append[of 0 n 2] upt_add_eq_append[of 0 n 1] by (simp_all add: upt_rec)
  then show ?thesis using assms by (auto simp: VlanAction_fill_def)
qed

lemma foldR_VlanAction_fill_12:
  assumes "map fst acts = [0..<n]"
  shows "\<exists>m acts'. foldR (VlanAction_fill OFP_12) gas (n, acts) = Inr (m, acts') \<and>
    map fst acts' = [0..<m]"
  using assms
proof (induction gas arbitrary: n acts)
  case Nil
  then show ?case by simp
next
  case (Cons ga gas)
  from VlanAction_fill_12[OF Cons.prems, of ga] obtain m new
    where "VlanAction_fill OFP_12 ga (n, acts) = Inr (m, acts @ new)" "map fst (acts @ new) = [0..<m]"
    by blast
  with Cons.IH[of "acts @ new" m] show ?case by simp
qed

section \<open>Properties\<close>



text \<open>
  (C14) Rules that are equal for \<open>operator==\<close>, none on the local port or a VLAN endpoint, are deleted
  by the same message: \<open>operator==\<close> is as fine as the key of a flow entry.
\<close>

theorem equal_rules_same_delete:
  assumes "LLRule_eq r r'"
    and "\<not> is_local_port (ll_match r)" "\<not> is_local_port (ll_match r')"
    and "\<not> isEndpointVlanID (ll_match r)" "\<not> isEndpointVlanID (ll_match r')"
  shows "LLRule_fillFlowmodMessage v r wire RM_RULE = LLRule_fillFlowmodMessage v r' wire RM_RULE"
proof -
  have "fill_common (ll_match r) = fill_common (ll_match r')"
    using assms by (intro fill_common_key) (simp_all add: LLRule_eq_def LLMatch_eq_iff)
  with assms show ?thesis
    by (simp add: LLRule_fillFlowmodMessage_def LLMatch_fillFlowmodMessage_def LLRule_eq_def
        LLMatch_eq_iff)
qed

definition ex_ll_rule :: "LLMatch \<Rightarrow> string \<Rightarrow> LLRule" where
  "ex_ll_rule mem i =
     \<lparr>ll_priority = 10, ll_match = LLMatch_setInputPort 3 (LLMatch_new mem),
      ll_action = LLAction_port 4, flowID = i\<rparr>"

theorem equal_rules_same_delete_witness:
  "\<forall>mem mem'. LLRule_fillFlowmodMessage OFP_12 (ex_ll_rule mem ''1'') OF_12 RM_RULE =
     LLRule_fillFlowmodMessage OFP_12 (ex_ll_rule mem' ''2'') OF_12 RM_RULE"
  by (intro allI equal_rules_same_delete)
    (simp_all add: ex_ll_rule_def LLRule_eq_def LLAction_eq_def LLMatch_eq_iff
      LLMatch_setInputPort_def LLMatch_new_def Match_new_def match_key_def key_defs flagged_def)

text \<open>
  (C15) With OpenFlow 1.2 the action part of a rule is always built: the actions have the
  consecutive indices from 0, and the output action is the last one, after all VLAN
  operations.
\<close>

theorem action_part_indices:
  "\<exists>acts out. LLAction_fillFlowmodMessage OFP_12 a = Inr (acts @ [out]) \<and>
     map fst (acts @ [out]) = [0..<Suc (length acts)] \<and>
     snd out \<in> {Output_local, Output_normal, Output_port (port_id a)}"
proof -
  obtain m acts where a: "foldR (VlanAction_fill OFP_12) (ll_genericActions a) (0, []) = Inr (m, acts)"
    "map fst acts = [0..<m]"
    using foldR_VlanAction_fill_12[of "[]" 0 "ll_genericActions a"] by auto
  moreover from a(2) have "m = length acts"
    using length_map[of fst acts] by simp
  ultimately show ?thesis
    by (auto simp: LLAction_fillFlowmodMessage_def)
qed

end
