(* ===== verification/Lsi_State.thy ===== *)
theory Lsi_State
  imports High_Level_Elements
begin

text \<open>
  A logical switch instance and its virtual links as the orchestrator records them
  (\<open>graph_manager/lsi.cc\<close>, \<open>graph_manager/virtual_link.cc\<close>). The counter of virtual link
  identifiers is threaded through the operations that create links.

  Shown here: links made one after the other have different identifiers as long as the
  64-bit counter does not wrap; the maps from ports to links only name links that exist; and
  the name of an NF port on a switch determines the NF and the port.
\<close>

section \<open>Virtual links\<close>

record VLink =
  vl_ID :: "64 word"
  remote_dpid :: "64 word"
  local_id :: "32 word"
  remote_id :: "32 word"

definition VLink_new :: "64 word \<Rightarrow> 64 word \<Rightarrow> VLink \<times> 64 word" where
  "VLink_new rd nextID =
     (\<lparr>vl_ID = nextID, remote_dpid = rd, local_id = 0, remote_id = 0\<rparr>, nextID + 1)"

fun VLinks_new :: "nat \<Rightarrow> 64 word \<Rightarrow> 64 word \<Rightarrow> VLink list \<times> 64 word" where
  "VLinks_new 0 rd nextID = ([], nextID)"
| "VLinks_new (Suc k) rd nextID =
     (let (v, n) = VLink_new rd nextID; (vs, n') = VLinks_new k rd n in (v # vs, n'))"

section \<open>The switch instance\<close>

datatype PortType =
    INVALID_PORT
  | UNDEFINED_PORT
  | USVHOST_PORT
  | IVSHMEM_PORT
  | VHOST_PORT
  | VETH_PORT
  | DPDKR_PORT

definition portTypeFromString :: "string \<Rightarrow> PortType" where
  "portTypeFromString s =
     (if s = ''ivshmem'' then IVSHMEM_PORT
      else if s = ''usvhost'' then USVHOST_PORT
      else if s = ''vhost'' then VHOST_PORT
      else INVALID_PORT)"

definition portTypeToString :: "PortType \<Rightarrow> string" where
  "portTypeToString t =
     (case t of
        IVSHMEM_PORT \<Rightarrow> ''ivshmem''
      | USVHOST_PORT \<Rightarrow> ''usvhost''
      | VHOST_PORT \<Rightarrow> ''vhost''
      | VETH_PORT \<Rightarrow> ''veth''
      | DPDKR_PORT \<Rightarrow> ''dpdkr''
      | UNDEFINED_PORT \<Rightarrow> ''undefined''
      | INVALID_PORT \<Rightarrow> ''INVALID'')"

record nfData =
  ports_type :: "(string, PortType) omap"
  ports_name_on_switch :: "(32 word, string) omap"
  ports_switch_id :: "(string, 32 word) omap"
  nf_ports_id :: "32 word list"

definition nfData_new :: nfData where
  "nfData_new =
     \<lparr>ports_type = [], ports_name_on_switch = [], ports_switch_id = [], nf_ports_id = []\<rparr>"

record LSI =
  controllerAddress :: string
  controllerPort :: string
  dpid :: "64 word"
  physical_ports :: "(string, 32 word) omap"
  gre_endpoints_ports :: "EndPointGre list"
  endpoints_ports_id :: "(string, 32 word) omap"
  network_functions :: "(string, nfData) omap"
  virtual_links :: "VLink list"
  nfs_vlinks :: "(string, 64 word) omap"
  ports_vlinks :: "(string, 64 word) omap"
  endpoints_vlinks :: "(string, 64 word) omap"
  endpoints_gre_vlinks :: "(string, 64 word) omap"

definition nf_port_name :: "string \<Rightarrow> 32 word \<Rightarrow> string" where
  "nf_port_name nf_id port_id = underscore_name nf_id (unat port_id)"

text \<open>
  The ports of an NF; a port without a type makes \<open>addNF\<close> give up before anything is stored.
\<close>

fun add_nf_ports ::
  "string \<Rightarrow> (32 word, PortType) omap \<Rightarrow> 32 word list \<Rightarrow> nfData \<Rightarrow> nfData option" where
  "add_nf_ports nf_id types [] d = Some d"
| "add_nf_ports nf_id types (p # ps) d =
     (let d = d\<lparr>ports_switch_id := om_put (nf_port_name nf_id p) 0 (ports_switch_id d)\<rparr>
      in case map_of types p of
           None \<Rightarrow> None
         | Some t \<Rightarrow> add_nf_ports nf_id types ps
             (d\<lparr>ports_type := om_put (nf_port_name nf_id p) t (ports_type d)\<rparr>))"

definition addNF ::
  "string \<Rightarrow> 32 word list \<Rightarrow> (32 word, PortType) omap \<Rightarrow> LSI \<Rightarrow> bool \<times> LSI" where
  "addNF nf_id ports types l =
     (let d = (case map_of (network_functions l) nf_id of
                 Some d \<Rightarrow> d\<lparr>nf_ports_id := nf_ports_id d @ ports\<rparr>
               | None \<Rightarrow> nfData_new\<lparr>nf_ports_id := ports\<rparr>)
      in case add_nf_ports nf_id types ports d of
           None \<Rightarrow> (False, l)
         | Some d \<Rightarrow> (True, l\<lparr>network_functions := om_put nf_id d (network_functions l)\<rparr>))"

definition add_vnf_to_lsi ::
  "(string, (32 word, PortType) omap) omap \<Rightarrow> VNFs \<Rightarrow> LSI \<Rightarrow> LSI result" where
  "add_vnf_to_lsi types nf l =
     bindR (getPortsId nf) (\<lambda>ports. Inr (snd (addNF (vnf_id nf) ports
       (case map_of types (vnf_id nf) of None \<Rightarrow> [] | Some t \<Rightarrow> t) l)))"

definition LSI_new ::
  "64 word \<Rightarrow> string \<Rightarrow> string \<Rightarrow> string oset \<Rightarrow> VNFs list \<Rightarrow> EndPointGre list \<Rightarrow> VLink list \<Rightarrow>
     (string, (32 word, PortType) omap) omap \<Rightarrow> LSI result" where
  "LSI_new mem_dpid addr port phys nfs gres vlinks types =
     bindR (foldR (add_vnf_to_lsi types) nfs
       \<lparr>controllerAddress = addr, controllerPort = port, dpid = mem_dpid,
        physical_ports = fold (\<lambda>p. om_put p 0) phys [],
        gre_endpoints_ports = [], endpoints_ports_id = [], network_functions = [],
        virtual_links = vlinks, nfs_vlinks = [], ports_vlinks = [], endpoints_vlinks = [],
        endpoints_gre_vlinks = []\<rparr>)
       (\<lambda>l. Inr (l\<lparr>gre_endpoints_ports := gres\<rparr>))"

section \<open>Queries\<close>

definition getNetworkFunctionsId :: "LSI \<Rightarrow> string oset" where
  "getNetworkFunctionsId l = fold os_insert (map fst (network_functions l)) []"

text \<open>\<open>network_functions[nf_id]\<close> makes an empty entry for an NF that is not there.\<close>

definition touch_nf :: "string \<Rightarrow> LSI \<Rightarrow> nfData \<times> LSI" where
  "touch_nf nf_id l =
     (case map_of (network_functions l) nf_id of
        Some d \<Rightarrow> (d, l)
      | None \<Rightarrow> (nfData_new, l\<lparr>network_functions := om_put nf_id nfData_new (network_functions l)\<rparr>))"

definition getNetworkFunctionsPorts :: "string \<Rightarrow> LSI \<Rightarrow> (string, 32 word) omap \<times> LSI" where
  "getNetworkFunctionsPorts nf_id l = (let (d, l) = touch_nf nf_id l in (ports_switch_id d, l))"

definition getNetworkFunctionsPortNames :: "string \<Rightarrow> LSI \<Rightarrow> string list \<times> LSI" where
  "getNetworkFunctionsPortNames nf_id l =
     (let (d, l) = touch_nf nf_id l in (map fst (ports_switch_id d), l))"

definition getNetworkFunctionPortType :: "string \<Rightarrow> string \<Rightarrow> LSI \<Rightarrow> PortType" where
  "getNetworkFunctionPortType nf_id port_name l =
     (case map_of (network_functions l) nf_id of
        None \<Rightarrow> UNDEFINED_PORT
      | Some d \<Rightarrow> (case map_of (ports_type d) port_name of
                    None \<Rightarrow> UNDEFINED_PORT | Some t \<Rightarrow> t))"

record nf_port_info =
  pi_port_name :: string
  pi_port_type :: PortType
  pi_port_id :: "32 word"

definition getNetworkFunctionsPortsInfo :: "LSI \<Rightarrow> (string, nf_port_info list) omap" where
  "getNetworkFunctionsPortsInfo l =
     fold (\<lambda>(nf_id, d) res. om_put nf_id
         (map (\<lambda>p. \<lparr>pi_port_name = nf_port_name nf_id p,
                    pi_port_type = getNetworkFunctionPortType nf_id (nf_port_name nf_id p) l,
                    pi_port_id = p\<rparr>) (nf_ports_id d)) res) (network_functions l) []"

definition getNetworkFunctionsPortsNameOnSwitchMap :: "string \<Rightarrow> LSI \<Rightarrow> (32 word, string) omap" where
  "getNetworkFunctionsPortsNameOnSwitchMap nf_id l =
     (case map_of (network_functions l) nf_id of None \<Rightarrow> [] | Some d \<Rightarrow> ports_name_on_switch d)"

definition getVirtualLink :: "64 word \<Rightarrow> LSI \<Rightarrow> VLink result" where
  "getVirtualLink i l = optionR AssertFailure (find (\<lambda>v. vl_ID v = i) (virtual_links l))"

definition getVirtualLinksRemoteLSI :: "LSI \<Rightarrow> 64 word list" where
  "getVirtualLinksRemoteLSI l = map remote_dpid (virtual_links l)"

section \<open>Updates\<close>

definition setDpid :: "64 word \<Rightarrow> LSI \<Rightarrow> LSI" where
  "setDpid d l = l\<lparr>dpid := d\<rparr>"

definition setPhysicalPortID :: "string \<Rightarrow> 64 word \<Rightarrow> LSI \<Rightarrow> LSI result" where
  "setPhysicalPortID port i l =
     bindR (assertR (om_count (physical_ports l) port)) (\<lambda>_.
     Inr (l\<lparr>physical_ports := om_put port (ucast i) (physical_ports l)\<rparr>))"

fun set_switch_ids :: "(string \<times> 32 word) list \<Rightarrow> nfData \<Rightarrow> nfData result" where
  "set_switch_ids [] d = Inr d"
| "set_switch_ids ((n, i) # ts) d =
     (if om_count (ports_switch_id d) n
      then set_switch_ids ts (d\<lparr>ports_switch_id := om_put n i (ports_switch_id d)\<rparr>)
      else Inl AssertFailure)"

definition setNfSwitchPortsID :: "string \<Rightarrow> (string, 32 word) omap \<Rightarrow> LSI \<Rightarrow> LSI result" where
  "setNfSwitchPortsID nf_id translation l =
     bindR (optionR AssertFailure (map_of (network_functions l) nf_id)) (\<lambda>d.
     bindR (set_switch_ids translation d) (\<lambda>d.
     Inr (l\<lparr>network_functions := om_put nf_id d (network_functions l)\<rparr>)))"

definition setEndpointPortID :: "string \<Rightarrow> 64 word \<Rightarrow> LSI \<Rightarrow> LSI result" where
  "setEndpointPortID ep i l =
     bindR (assertR (\<exists>e \<in> set (gre_endpoints_ports l). eg_id e = ep)) (\<lambda>_.
     Inr (l\<lparr>endpoints_ports_id := om_put ep (ucast i) (endpoints_ports_id l)\<rparr>))"

definition setNetworkFunctionsPortsNameOnSwitch :: "string \<Rightarrow> (string, 32 word) omap \<Rightarrow> LSI \<Rightarrow> LSI" where
  "setNetworkFunctionsPortsNameOnSwitch nf_id names l =
     (case map_of (network_functions l) nf_id of
        None \<Rightarrow> l
      | Some d \<Rightarrow>
          l\<lparr>network_functions := om_put nf_id
             (d\<lparr>ports_name_on_switch := fold (\<lambda>(n, i). om_insert i n) names (ports_name_on_switch d)\<rparr>)
             (network_functions l)\<rparr>)"

definition setVLinkIDs :: "nat \<Rightarrow> 32 word \<Rightarrow> 32 word \<Rightarrow> LSI \<Rightarrow> LSI result" where
  "setVLinkIDs pos lid rid l =
     (if pos < length (virtual_links l)
      then Inr (l\<lparr>virtual_links := (virtual_links l)
             [pos := (virtual_links l ! pos)\<lparr>local_id := lid, remote_id := rid\<rparr>]\<rparr>)
      else Inl OutOfBounds)"

definition setNFsVLinks :: "(string, 64 word) omap \<Rightarrow> LSI \<Rightarrow> LSI" where
  "setNFsVLinks m l = l\<lparr>nfs_vlinks := fold (\<lambda>(k, v). om_insert k v) m (nfs_vlinks l)\<rparr>"

definition setPortsVLinks :: "(string, 64 word) omap \<Rightarrow> LSI \<Rightarrow> LSI" where
  "setPortsVLinks m l = l\<lparr>ports_vlinks := fold (\<lambda>(k, v). om_insert k v) m (ports_vlinks l)\<rparr>"

definition setEndPointsVLinks :: "(string, 64 word) omap \<Rightarrow> LSI \<Rightarrow> LSI" where
  "setEndPointsVLinks m l = l\<lparr>endpoints_vlinks := fold (\<lambda>(k, v). om_insert k v) m (endpoints_vlinks l)\<rparr>"

definition setEndPointsGreVLinks :: "(string, 64 word) omap \<Rightarrow> LSI \<Rightarrow> LSI" where
  "setEndPointsGreVLinks m l =
     l\<lparr>endpoints_gre_vlinks := fold (\<lambda>(k, v). om_insert k v) m (endpoints_gre_vlinks l)\<rparr>"

definition addNFvlink :: "string \<Rightarrow> 64 word \<Rightarrow> LSI \<Rightarrow> LSI" where
  "addNFvlink k v l = l\<lparr>nfs_vlinks := om_put k v (nfs_vlinks l)\<rparr>"

definition addPortvlink :: "string \<Rightarrow> 64 word \<Rightarrow> LSI \<Rightarrow> LSI" where
  "addPortvlink k v l = l\<lparr>ports_vlinks := om_put k v (ports_vlinks l)\<rparr>"

definition addEndpointInternalvlink :: "string \<Rightarrow> 64 word \<Rightarrow> LSI \<Rightarrow> LSI" where
  "addEndpointInternalvlink k v l = l\<lparr>endpoints_vlinks := om_put k v (endpoints_vlinks l)\<rparr>"

definition addEndpointGrevlink :: "string \<Rightarrow> 64 word \<Rightarrow> LSI \<Rightarrow> LSI" where
  "addEndpointGrevlink k v l = l\<lparr>endpoints_gre_vlinks := om_put k v (endpoints_gre_vlinks l)\<rparr>"

definition removeNFvlink :: "string \<Rightarrow> LSI \<Rightarrow> LSI result" where
  "removeNFvlink k l =
     bindR (assertR (om_count (nfs_vlinks l) k)) (\<lambda>_. Inr (l\<lparr>nfs_vlinks := om_erase k (nfs_vlinks l)\<rparr>))"

definition removePortvlink :: "string \<Rightarrow> LSI \<Rightarrow> LSI result" where
  "removePortvlink k l =
     bindR (assertR (om_count (ports_vlinks l) k)) (\<lambda>_.
     Inr (l\<lparr>ports_vlinks := om_erase k (ports_vlinks l)\<rparr>))"

definition removeEndPointvlink :: "string \<Rightarrow> LSI \<Rightarrow> LSI result" where
  "removeEndPointvlink k l =
     bindR (assertR (om_count (endpoints_vlinks l) k)) (\<lambda>_.
     Inr (l\<lparr>endpoints_vlinks := om_erase k (endpoints_vlinks l)\<rparr>))"

definition removeEndPointGrevlink :: "string \<Rightarrow> LSI \<Rightarrow> LSI result" where
  "removeEndPointGrevlink k l =
     bindR (assertR (om_count (endpoints_gre_vlinks l) k)) (\<lambda>_.
     Inr (l\<lparr>endpoints_gre_vlinks := om_erase k (endpoints_gre_vlinks l)\<rparr>))"

definition addEndpoint :: "EndPointGre \<Rightarrow> LSI \<Rightarrow> LSI" where
  "addEndpoint ep l = l\<lparr>gre_endpoints_ports := gre_endpoints_ports l @ [ep]\<rparr>"

definition addVlink :: "VLink \<Rightarrow> LSI \<Rightarrow> nat \<times> LSI" where
  "addVlink v l = (length (virtual_links l), l\<lparr>virtual_links := virtual_links l @ [v]\<rparr>)"

definition removeVlink :: "64 word \<Rightarrow> LSI \<Rightarrow> LSI result" where
  "removeVlink i l =
     bindR (optionR AssertFailure (erase_first (\<lambda>v. vl_ID v = i) (virtual_links l))) (\<lambda>vs.
     Inr (l\<lparr>virtual_links := vs\<rparr>))"

definition removeNF :: "string \<Rightarrow> LSI \<Rightarrow> LSI" where
  "removeNF nf_id l = l\<lparr>network_functions := om_erase nf_id (network_functions l)\<rparr>"

definition removeEndpoint :: "string \<Rightarrow> LSI \<Rightarrow> LSI result" where
  "removeEndpoint ep l =
     bindR (optionR AssertFailure (erase_first (\<lambda>e. eg_id e = ep) (gre_endpoints_ports l))) (\<lambda>es.
     Inr (l\<lparr>gre_endpoints_ports := es\<rparr>))"

section \<open>Identifiers of virtual links\<close>

lemma VLinks_new_length: "length (fst (VLinks_new k rd n)) = k"
  by (induction k arbitrary: n) (simp_all add: VLink_new_def case_prod_beta Let_def)

lemma VLinks_new_next: "snd (VLinks_new k rd n) = n + of_nat k"
  by (induction k arbitrary: n) (simp_all add: VLink_new_def case_prod_beta Let_def add.assoc)

lemma VLinks_new_nth:
  "i < k \<Longrightarrow> fst (VLinks_new k rd n) ! i =
     \<lparr>vl_ID = n + of_nat i, remote_dpid = rd, local_id = 0, remote_id = 0\<rparr>"
proof (induction k arbitrary: n i)
  case 0
  then show ?case by simp
next
  case (Suc k)
  then show ?case
    by (cases i) (simp_all add: VLink_new_def case_prod_beta Let_def add.assoc)
qed

lemma unat_add_small:
  fixes n :: "64 word"
  assumes "unat n + k < 2 ^ 64"
  shows "unat (n + of_nat k) = unat n + k"
  using assms by (simp add: unat_word_ariths unat_of_nat)

lemma VLinks_new_ids:
  assumes "unat n + k < 2 ^ 64"
  shows "map (\<lambda>v. unat (vl_ID v)) (fst (VLinks_new k rd n)) = [unat n..<unat n + k]"
proof (rule nth_equalityI)
  show "length (map (\<lambda>v. unat (vl_ID v)) (fst (VLinks_new k rd n))) = length [unat n..<unat n + k]"
    by (simp add: VLinks_new_length)
  fix i assume "i < length (map (\<lambda>v. unat (vl_ID v)) (fst (VLinks_new k rd n)))"
  then have "i < k" by (simp add: VLinks_new_length)
  then show "map (\<lambda>v. unat (vl_ID v)) (fst (VLinks_new k rd n)) ! i = [unat n..<unat n + k] ! i"
    using assms by (simp add: VLinks_new_nth VLinks_new_length unat_add_small)
qed

definition ids_below :: "64 word \<Rightarrow> VLink list \<Rightarrow> bool" where
  "ids_below n vs = (distinct (map vl_ID vs) \<and> (\<forall>v \<in> set vs. unat (vl_ID v) < unat n))"

lemma ids_below_VLinks_new:
  assumes "ids_below n vs" "unat n + k < 2 ^ 64"
  shows "ids_below (snd (VLinks_new k rd n)) (vs @ fst (VLinks_new k rd n))"
proof -
  let ?new = "fst (VLinks_new k rd n)"
  note ids = VLinks_new_ids[OF assms(2), of rd]
  have "distinct (map (\<lambda>v. unat (vl_ID v)) ?new)" unfolding ids by simp
  then have d: "distinct (map vl_ID ?new)"
    by (auto simp: distinct_map inj_on_def)
  have r: "unat n \<le> unat (vl_ID v) \<and> unat (vl_ID v) < unat n + k" if "v \<in> set ?new" for v
    using arg_cong[OF ids, of set] that by auto
  have nx: "unat (snd (VLinks_new k rd n)) = unat n + k"
    by (simp add: VLinks_new_next unat_add_small[OF assms(2)])
  have "vl_ID v \<noteq> vl_ID w" if "v \<in> set vs" "w \<in> set ?new" for v w
    using that assms(1) r[OF that(2)] by (auto simp: ids_below_def)
  with d r assms(1) show ?thesis
    by (force simp: ids_below_def nx)
qed

text \<open>The maps from names to links.\<close>

definition vlink_names :: "LSI \<Rightarrow> (string, 64 word) omap list" where
  "vlink_names l = [nfs_vlinks l, ports_vlinks l, endpoints_vlinks l, endpoints_gre_vlinks l]"

definition map_named :: "(string, 64 word) omap \<Rightarrow> 64 word set \<Rightarrow> bool" where
  "map_named m ids = (om_wf m \<and> ran (map_of m) \<subseteq> ids)"

definition vlinks_named :: "LSI \<Rightarrow> bool" where
  "vlinks_named l =
     (distinct (map vl_ID (virtual_links l)) \<and>
      (\<forall>m \<in> set (vlink_names l). map_named m (set (map vl_ID (virtual_links l)))))"

lemma map_named_put: "map_named m ids \<Longrightarrow> i \<in> ids \<Longrightarrow> map_named (om_put k i m) ids"
  by (auto simp: map_named_def om_wf_put map_of_om_put ran_def split: if_splits)

lemma map_named_erase: "map_named m ids \<Longrightarrow> map_named (om_erase k m) ids"
  by (auto simp: map_named_def om_wf_erase map_of_om_erase ran_def split: if_splits)

lemma map_named_mono: "map_named m ids \<Longrightarrow> ran (map_of m) \<inter> ids \<subseteq> ids' \<Longrightarrow> map_named m ids'"
  by (auto simp: map_named_def)

lemma getVirtualLink_named:
  assumes "vlinks_named l" "m \<in> set (vlink_names l)" "map_of m k = Some i"
  shows "\<exists>v. getVirtualLink i l = Inr v \<and> v \<in> set (virtual_links l) \<and> vl_ID v = i"
proof -
  have "i \<in> set (map vl_ID (virtual_links l))"
    using assms by (auto simp: vlinks_named_def map_named_def ran_def)
  then obtain v where "v \<in> set (virtual_links l)" "vl_ID v = i" by auto
  moreover obtain w where "find (\<lambda>v. vl_ID v = i) (virtual_links l) = Some w"
    using calculation by (cases "find (\<lambda>v. vl_ID v = i) (virtual_links l)") (auto simp: find_None_iff)
  moreover from this have "w \<in> set (virtual_links l)" "vl_ID w = i" by (auto simp: find_Some_iff)
  ultimately show ?thesis by (auto simp: getVirtualLink_def)
qed

lemma vlinks_named_addVlink:
  assumes "vlinks_named l" "vl_ID v \<notin> set (map vl_ID (virtual_links l))"
  shows "vlinks_named (snd (addVlink v l))"
  using assms
  by (auto simp: vlinks_named_def vlink_names_def addVlink_def elim!: map_named_mono)

lemma vlinks_named_add:
  assumes "vlinks_named l" "i \<in> set (map vl_ID (virtual_links l))"
  shows "vlinks_named (addNFvlink k i l)" "vlinks_named (addPortvlink k i l)"
    "vlinks_named (addEndpointInternalvlink k i l)" "vlinks_named (addEndpointGrevlink k i l)"
  using assms
  by (simp_all add: vlinks_named_def vlink_names_def addNFvlink_def addPortvlink_def
      addEndpointInternalvlink_def addEndpointGrevlink_def map_named_put)

lemma vlinks_named_remove:
  assumes "vlinks_named l"
  shows "removeNFvlink k l = Inr l' \<Longrightarrow> vlinks_named l'"
    "removePortvlink k l = Inr l' \<Longrightarrow> vlinks_named l'"
    "removeEndPointvlink k l = Inr l' \<Longrightarrow> vlinks_named l'"
    "removeEndPointGrevlink k l = Inr l' \<Longrightarrow> vlinks_named l'"
  using assms
  by (auto simp: vlinks_named_def vlink_names_def removeNFvlink_def removePortvlink_def
      removeEndPointvlink_def removeEndPointGrevlink_def bindR_Inr_iff intro: map_named_erase)

lemma vlinks_named_removeVlink:
  assumes "vlinks_named l" "removeVlink i l = Inr l'"
    and "\<forall>m \<in> set (vlink_names l). i \<notin> ran (map_of m)"
  shows "vlinks_named l'"
proof -
  obtain vs where vs: "erase_first (\<lambda>v. vl_ID v = i) (virtual_links l) = Some vs"
    "l' = l\<lparr>virtual_links := vs\<rparr>"
    using assms(2) by (auto simp: removeVlink_def bindR_Inr_iff)
  from vs(1) obtain as x bs where x: "virtual_links l = as @ x # bs" "vs = as @ bs" "vl_ID x = i"
    by (rule erase_first_SomeD)
  have "distinct (map vl_ID vs)"
    using assms(1) by (auto simp: vlinks_named_def x)
  moreover have "map_named m (set (map vl_ID vs))" if m: "m \<in> set (vlink_names l)" for m
  proof (rule map_named_mono)
    show "map_named m (set (map vl_ID (virtual_links l)))"
      using assms(1) m by (simp add: vlinks_named_def)
    have "i \<notin> ran (map_of m)" using assms(3) m by blast
    then show "ran (map_of m) \<inter> set (map vl_ID (virtual_links l)) \<subseteq> set (map vl_ID vs)"
      by (auto simp: x)
  qed
  ultimately show ?thesis
    using vs(2) by (simp add: vlinks_named_def vlink_names_def)
qed

section \<open>Properties\<close>

text \<open>
  (C16) Links made from the counter have identifiers that no earlier link has, and the
  counter stays above all of them, as long as the 64-bit counter does not wrap.
\<close>

theorem vlink_ids_fresh:
  assumes "ids_below n vs" "unat n + k < 2 ^ 64"
  shows "distinct (map vl_ID (vs @ fst (VLinks_new k rd n))) \<and>
    ids_below (snd (VLinks_new k rd n)) (vs @ fst (VLinks_new k rd n))"
  using ids_below_VLinks_new[OF assms, of rd] by (simp add: ids_below_def)

theorem vlink_ids_fresh_witness:
  "distinct (map vl_ID (fst (VLinks_new 2 7 0) @ fst (VLinks_new 3 7 2)))"
proof -
  have 1: "ids_below 2 (fst (VLinks_new 2 7 0))"
    using ids_below_VLinks_new[of 0 "[]" 2 7] by (simp add: ids_below_def VLinks_new_next)
  show ?thesis using vlink_ids_fresh[OF 1, of 3 7] by simp
qed

lemma nf_port_name_inj: "nf_port_name nf p = nf_port_name nf' p' \<longleftrightarrow> nf = nf' \<and> p = p'"
  by (simp add: nf_port_name_def word_unat_eq_iff)

end
