(* ===== verification/Graph_Translator.thy ===== *)
theory Graph_Translator
  imports High_Level_Graph Low_Level_Graph Lsi_State
begin

text \<open>
  The translation of a graph into the flow rules of LSI-0 and of the tenant LSI
  (\<open>graph_manager/graph_translator.cc\<close>), one definition per branch of the two loops. A rule
  is lowered to at most one rule on each switch. The storage that a low-level match is built
  in is an argument, one for each rule.
\<close>

section \<open>Lookups\<close>

text \<open>
  The virtual link a name is mapped to. A missing name is a fault of the given kind: some
  branches assert, others only log a warning and use the value behind \<open>end()\<close>.
\<close>

definition vlink_by_name :: "fault \<Rightarrow> (string, 64 word) omap \<Rightarrow> string \<Rightarrow> LSI \<Rightarrow> VLink result" where
  "vlink_by_name e m k tenant = bindR (optionR e (map_of m k)) (\<lambda>i. getVirtualLink i tenant)"

text \<open>The port of LSI-0 towards the switch of an internal endpoint; 0 when it has none.\<close>

definition internal_port ::
  "(string, (string, 32 word) omap) omap \<Rightarrow> string \<Rightarrow> string \<Rightarrow> 32 word" where
  "internal_port conns ep graph =
     (case map_of conns ep of
        None \<Rightarrow> 0
      | Some m \<Rightarrow> (case map_of m graph of None \<Rightarrow> 0 | Some p \<Rightarrow> p))"

text \<open>The port of an endpoint on the tenant LSI; 0 when it has none.\<close>

definition endpoint_port :: "LSI \<Rightarrow> string \<Rightarrow> 32 word" where
  "endpoint_port tenant ep = (case map_of (endpoints_ports_id tenant) ep of None \<Rightarrow> 0 | Some p \<Rightarrow> p)"

definition lsi0_rule_id :: "HLGraph \<Rightarrow> HLRule \<Rightarrow> string" where
  "lsi0_rule_id g r = graph_ID g @ ''_'' @ hr_ruleID r"

definition out_port :: "hl_output \<Rightarrow> 32 word" where
  "out_port out = (case out of ActionNetworkFunction _ _ p \<Rightarrow> p | _ \<Rightarrow> 0)"

text \<open>The output action with the generic actions of the high-level one.\<close>

definition with_generic :: "32 word \<Rightarrow> HLAction \<Rightarrow> LLAction" where
  "with_generic p a = fold LLAction_addGenericAction (genericActions a) (LLAction_port p)"

section \<open>LSI-0\<close>

definition lsi0_skips :: "HLRule \<Rightarrow> bool" where
  "lsi0_skips r =
     (let m = hr_match r; t = getType (hr_action r)
      in (matchOnNF m \<and> t = ACTION_ON_NETWORK_FUNCTION) \<or>
         (matchOnNF m \<and> t = ACTION_ON_ENDPOINT_GRE) \<or>
         (matchOnEndPointGre m \<and> t = ACTION_ON_ENDPOINT_GRE) \<or>
         (matchOnEndPointGre m \<and> t = ACTION_ON_NETWORK_FUNCTION))"

definition lsi0_to_internal ::
  "HLGraph \<Rightarrow> LSI \<Rightarrow> (string, (string, 32 word) omap) omap \<Rightarrow> LLMatch \<Rightarrow> HLRule \<Rightarrow> LLRule result" where
  "lsi0_to_internal g tenant conns mem r =
     (let out = hl_out (hr_action r)
      in bindR (vlink_by_name EndIterator (endpoints_vlinks tenant) (out_toString out) tenant) (\<lambda>vlink.
         Inr \<lparr>ll_priority = hr_priority r,
              ll_match = LLMatch_setInputPort (remote_id vlink) (LLMatch_new mem),
              ll_action = LLAction_port (internal_port conns (out_toString out) (graph_ID g)),
              flowID = lsi0_rule_id g r\<rparr>))"

definition lsi0_port_to_port :: "HLGraph \<Rightarrow> LSI \<Rightarrow> LLMatch \<Rightarrow> HLRule \<Rightarrow> LLRule result" where
  "lsi0_port_to_port g lsi0 m r =
     bindR (optionR GraphManagerException
       (map_of (physical_ports lsi0) (out_getInfo (hl_out (hr_action r))))) (\<lambda>p.
     Inr \<lparr>ll_priority = hr_priority r, ll_match = m, ll_action = with_generic p (hr_action r),
          flowID = lsi0_rule_id g r\<rparr>)"

definition lsi0_to_gre :: "HLGraph \<Rightarrow> LSI \<Rightarrow> LLMatch \<Rightarrow> HLRule \<Rightarrow> LLRule result" where
  "lsi0_to_gre g tenant m r =
     bindR (vlink_by_name AssertFailure (endpoints_gre_vlinks tenant)
              (out_getOutputEndpointID (hl_out (hr_action r))) tenant) (\<lambda>vlink.
     Inr \<lparr>ll_priority = hr_priority r, ll_match = m,
          ll_action = with_generic (remote_id vlink) (hr_action r), flowID = lsi0_rule_id g r\<rparr>)"

definition lsi0_to_nf :: "HLGraph \<Rightarrow> LSI \<Rightarrow> LLMatch \<Rightarrow> HLRule \<Rightarrow> LLRule result" where
  "lsi0_to_nf g tenant m r =
     (let out = hl_out (hr_action r)
      in bindR (vlink_by_name AssertFailure (nfs_vlinks tenant)
                  (underscore_name (out_getInfo out) (unat (out_port out))) tenant) (\<lambda>vlink.
         Inr \<lparr>ll_priority = hr_priority r, ll_match = m,
              ll_action = with_generic (remote_id vlink) (hr_action r), flowID = lsi0_rule_id g r\<rparr>))"

text \<open>A match on a physical port. An action on an internal endpoint adds no rule.\<close>

definition lsi0_from_port ::
  "HLGraph \<Rightarrow> LSI \<Rightarrow> LSI \<Rightarrow> LLMatch \<Rightarrow> HLRule \<Rightarrow> LLRule option result" where
  "lsi0_from_port g tenant lsi0 mem r =
     bindR (getPhysicalPort (hr_match r)) (\<lambda>port.
     bindR (optionR GraphManagerException (map_of (physical_ports lsi0) port)) (\<lambda>n.
     bindR (setAllCommonFields (hr_match r) (LLMatch_new mem)) (\<lambda>m.
     let m = LLMatch_setInputPort n m
     in case getType (hr_action r) of
          ACTION_ON_PORT \<Rightarrow> bindR (lsi0_port_to_port g lsi0 m r) (\<lambda>x. Inr (Some x))
        | ACTION_ON_ENDPOINT_GRE \<Rightarrow> bindR (lsi0_to_gre g tenant m r) (\<lambda>x. Inr (Some x))
        | ACTION_ON_NETWORK_FUNCTION \<Rightarrow> bindR (lsi0_to_nf g tenant m r) (\<lambda>x. Inr (Some x))
        | ACTION_ON_ENDPOINT_INTERNAL \<Rightarrow> Inr None)))"

text \<open>
  A match on a GRE endpoint with an action on a port. When the port has no virtual link the
  rule is added all the same, with an empty match.
\<close>

definition lsi0_from_gre ::
  "HLGraph \<Rightarrow> LSI \<Rightarrow> LSI \<Rightarrow> LLMatch \<Rightarrow> HLRule \<Rightarrow> LLRule result" where
  "lsi0_from_gre g tenant lsi0 mem r =
     bindR (assertR (getType (hr_action r) = ACTION_ON_PORT)) (\<lambda>_.
     let info = out_getInfo (hl_out (hr_action r))
     in bindR (if om_count (ports_vlinks tenant) info
               then bindR (vlink_by_name EndIterator (ports_vlinks tenant) info tenant) (\<lambda>vlink.
                    bindR (setAllCommonFields (hr_match r) (LLMatch_new mem)) (\<lambda>m.
                    Inr (LLMatch_setInputPort (remote_id vlink) m)))
               else Inr (LLMatch_new mem)) (\<lambda>m.
        bindR (optionR GraphManagerException (map_of (physical_ports lsi0) info)) (\<lambda>p.
        Inr \<lparr>ll_priority = hr_priority r, ll_match = m, ll_action = with_generic p (hr_action r),
             flowID = lsi0_rule_id g r\<rparr>)))"

definition lsi0_from_internal ::
  "HLGraph \<Rightarrow> LSI \<Rightarrow> (string, (string, 32 word) omap) omap \<Rightarrow> LLMatch \<Rightarrow> HLRule \<Rightarrow> LLRule result" where
  "lsi0_from_internal g tenant conns mem r =
     bindR (assertR (getType (hr_action r) \<in> {ACTION_ON_NETWORK_FUNCTION, ACTION_ON_ENDPOINT_GRE})) (\<lambda>_.
     bindR (getEndPointInternal (hr_match r)) (\<lambda>grp.
     bindR (setAllCommonFields (hr_match r) (LLMatch_new mem)) (\<lambda>m.
     let m = LLMatch_setInputPort (internal_port conns (dec (unat grp)) (graph_ID g)) m
     in if getType (hr_action r) = ACTION_ON_NETWORK_FUNCTION
        then lsi0_to_nf g tenant m r
        else lsi0_to_gre g tenant m r)))"

definition lsi0_from_nf ::
  "HLGraph \<Rightarrow> LSI \<Rightarrow> LSI \<Rightarrow> LLMatch \<Rightarrow> HLRule \<Rightarrow> LLRule option result" where
  "lsi0_from_nf g tenant lsi0 mem r =
     bindR (assertR (matchOnNF (hr_match r))) (\<lambda>_.
     if getType (hr_action r) = ACTION_ON_PORT
     then let info = out_getInfo (hl_out (hr_action r))
          in bindR (optionR GraphManagerException (map_of (physical_ports lsi0) info)) (\<lambda>p.
             bindR (vlink_by_name EndIterator (ports_vlinks tenant) info tenant) (\<lambda>vlink.
             Inr (Some \<lparr>ll_priority = hr_priority r,
                        ll_match = LLMatch_setInputPort (remote_id vlink) (LLMatch_new mem),
                        ll_action = LLAction_port p, flowID = lsi0_rule_id g r\<rparr>)))
     else Inr None)"

definition lower_rule_lsi0 ::
  "HLGraph \<Rightarrow> LSI \<Rightarrow> LSI \<Rightarrow> (string, (string, 32 word) omap) omap \<Rightarrow> LLMatch \<Rightarrow> HLRule \<Rightarrow>
     LLRule option result" where
  "lower_rule_lsi0 g tenant lsi0 conns mem r =
     (if lsi0_skips r then Inr None
      else if (matchOnNF (hr_match r) \<or> matchOnEndPointGre (hr_match r))
           \<and> getType (hr_action r) = ACTION_ON_ENDPOINT_INTERNAL
      then bindR (lsi0_to_internal g tenant conns mem r) (\<lambda>x. Inr (Some x))
      else if matchOnPort (hr_match r) then lsi0_from_port g tenant lsi0 mem r
      else if matchOnEndPointGre (hr_match r)
      then bindR (lsi0_from_gre g tenant lsi0 mem r) (\<lambda>x. Inr (Some x))
      else if matchOnEndPointInternal (hr_match r)
      then bindR (lsi0_from_internal g tenant conns mem r) (\<lambda>x. Inr (Some x))
      else lsi0_from_nf g tenant lsi0 mem r)"

definition add_lowered :: "LLRule option \<Rightarrow> LLGraph \<Rightarrow> LLGraph" where
  "add_lowered r g = (case r of None \<Rightarrow> g | Some r \<Rightarrow> LLGraph_addRule r g)"

definition lowerGraphToLSI0 ::
  "HLGraph \<Rightarrow> LSI \<Rightarrow> LSI \<Rightarrow> (string, (string, 32 word) omap) omap \<Rightarrow> (HLRule \<Rightarrow> LLMatch) \<Rightarrow>
     LLGraph result" where
  "lowerGraphToLSI0 g tenant lsi0 conns mem =
     foldR (\<lambda>r acc. bindR (lower_rule_lsi0 g tenant lsi0 conns (mem r) r) (\<lambda>x.
              Inr (add_lowered x acc))) (rules g) []"

section \<open>Tenant LSI\<close>

definition tenant_skips :: "HLRule \<Rightarrow> bool" where
  "tenant_skips r =
     (let m = hr_match r; t = getType (hr_action r)
      in (matchOnPort m \<and> t = ACTION_ON_PORT) \<or>
         (matchOnEndPointInternal m \<and> t = ACTION_ON_ENDPOINT_INTERNAL) \<or>
         (matchOnEndPointInternal m \<and> t = ACTION_ON_PORT) \<or>
         (matchOnPort m \<and> t = ACTION_ON_ENDPOINT_INTERNAL))"

definition tenant_link_to_gre :: "LSI \<Rightarrow> LLMatch \<Rightarrow> HLRule \<Rightarrow> LLRule result" where
  "tenant_link_to_gre tenant mem r =
     (let ep = out_getOutputEndpointID (hl_out (hr_action r))
      in bindR (vlink_by_name EndIterator (endpoints_gre_vlinks tenant) ep tenant) (\<lambda>vlink.
         Inr \<lparr>ll_priority = hr_priority r,
              ll_match = LLMatch_setInputPort (local_id vlink) (LLMatch_new mem),
              ll_action = LLAction_port (endpoint_port tenant ep), flowID = hr_ruleID r\<rparr>))"

definition tenant_link_to_nf :: "LSI \<Rightarrow> LLMatch \<Rightarrow> HLRule \<Rightarrow> LLRule result" where
  "tenant_link_to_nf tenant mem r =
     (let out = hl_out (hr_action r);
          nf_port = underscore_name (out_getInfo out) (unat (out_port out))
      in bindR (if out_getInfo out \<in> set (getNetworkFunctionsId tenant) then Inr ()
                else Inl GraphManagerException) (\<lambda>_.
         bindR (optionR GraphManagerException
           (map_of (fst (getNetworkFunctionsPorts (out_getInfo out) tenant)) nf_port)) (\<lambda>p.
         bindR (vlink_by_name EndIterator (nfs_vlinks tenant) nf_port tenant) (\<lambda>vlink.
         Inr \<lparr>ll_priority = hr_priority r,
              ll_match = LLMatch_setInputPort (local_id vlink) (LLMatch_new mem),
              ll_action = LLAction_port p, flowID = hr_ruleID r\<rparr>))))"

definition tenant_from_link :: "LSI \<Rightarrow> LLMatch \<Rightarrow> HLRule \<Rightarrow> LLRule result" where
  "tenant_from_link tenant mem r =
     bindR (assertR (getType (hr_action r) \<in> {ACTION_ON_NETWORK_FUNCTION, ACTION_ON_ENDPOINT_GRE})) (\<lambda>_.
     if getType (hr_action r) = ACTION_ON_ENDPOINT_GRE then tenant_link_to_gre tenant mem r
     else tenant_link_to_nf tenant mem r)"

text \<open>The name of the endpoint is copied into a buffer of 64 characters.\<close>

definition copy_64 :: "string \<Rightarrow> string result" where
  "copy_64 s = (if length s < 64 then Inr s else Inl OutOfBounds)"

definition tenant_gre_to_nf :: "LSI \<Rightarrow> HLRule \<Rightarrow> (32 word) result" where
  "tenant_gre_to_nf tenant r =
     (let out = hl_out (hr_action r)
      in optionR EndIterator (map_of (fst (getNetworkFunctionsPorts (out_getInfo out) tenant))
           (underscore_name (out_getInfo out) (unat (out_port out)))))"

definition tenant_from_gre :: "LSI \<Rightarrow> LLMatch \<Rightarrow> HLRule \<Rightarrow> LLRule result" where
  "tenant_from_gre tenant mem r =
     bindR (getInputEndpoint (hr_match r)) (\<lambda>e.
     bindR (copy_64 e) (\<lambda>e.
     bindR (assertR (getType (hr_action r) \<in>
       {ACTION_ON_NETWORK_FUNCTION, ACTION_ON_PORT, ACTION_ON_ENDPOINT_INTERNAL})) (\<lambda>_.
     bindR (setAllCommonFields (hr_match r) (LLMatch_new mem)) (\<lambda>m.
     let m = LLMatch_setInputPort (endpoint_port tenant e) m;
         info = out_getInfo (hl_out (hr_action r))
     in bindR (case getType (hr_action r) of
                 ACTION_ON_NETWORK_FUNCTION \<Rightarrow> tenant_gre_to_nf tenant r
               | ACTION_ON_ENDPOINT_INTERNAL \<Rightarrow>
                   bindR (vlink_by_name AssertFailure (endpoints_vlinks tenant) info tenant)
                     (\<lambda>vlink. Inr (local_id vlink))
               | _ \<Rightarrow>
                   bindR (vlink_by_name AssertFailure (ports_vlinks tenant) info tenant)
                     (\<lambda>vlink. Inr (local_id vlink))) (\<lambda>p.
        Inr \<lparr>ll_priority = hr_priority r, ll_match = m, ll_action = with_generic p (hr_action r),
             flowID = hr_ruleID r\<rparr>)))))"

definition tenant_nf_to_nf :: "LSI \<Rightarrow> HLRule \<Rightarrow> (32 word) result" where
  "tenant_nf_to_nf tenant r =
     (let out = hl_out (hr_action r)
      in bindR (if out_getInfo out \<in> set (getNetworkFunctionsId tenant) then Inr ()
                else Inl GraphManagerException) (\<lambda>_.
         optionR GraphManagerException (map_of (fst (getNetworkFunctionsPorts (out_getInfo out) tenant))
           (underscore_name (out_getInfo out) (unat (out_port out))))))"

definition tenant_nf_out :: "LSI \<Rightarrow> HLRule \<Rightarrow> (32 word) result" where
  "tenant_nf_out tenant r =
     (let out = hl_out (hr_action r)
      in case getType (hr_action r) of
           ACTION_ON_NETWORK_FUNCTION \<Rightarrow> tenant_nf_to_nf tenant r
         | ACTION_ON_PORT \<Rightarrow>
             bindR (vlink_by_name EndIterator (ports_vlinks tenant) (out_getInfo out) tenant)
               (\<lambda>vlink. Inr (local_id vlink))
         | ACTION_ON_ENDPOINT_INTERNAL \<Rightarrow>
             bindR (vlink_by_name AssertFailure (endpoints_vlinks tenant) (out_toString out) tenant)
               (\<lambda>vlink. Inr (local_id vlink))
         | ACTION_ON_ENDPOINT_GRE \<Rightarrow> Inr (endpoint_port tenant (out_getOutputEndpointID out)))"

definition tenant_from_nf :: "LSI \<Rightarrow> LLMatch \<Rightarrow> HLRule \<Rightarrow> LLRule result" where
  "tenant_from_nf tenant mem r =
     bindR (assertR (matchOnNF (hr_match r))) (\<lambda>_.
     bindR (getNF (hr_match r)) (\<lambda>nf.
     bindR (getPortOfNF (hr_match r)) (\<lambda>nfPort.
     bindR (if nf \<in> set (getNetworkFunctionsId tenant) then Inr () else Inl GraphManagerException) (\<lambda>_.
     bindR (optionR GraphManagerException
       (map_of (fst (getNetworkFunctionsPorts nf tenant)) (nf @ ''_'' @ dec_int (sint nfPort)))) (\<lambda>n.
     bindR (setAllCommonFields (hr_match r) (LLMatch_new mem)) (\<lambda>m.
     bindR (tenant_nf_out tenant r) (\<lambda>p.
     Inr \<lparr>ll_priority = hr_priority r, ll_match = LLMatch_setInputPort n m,
          ll_action = with_generic p (hr_action r), flowID = hr_ruleID r\<rparr>)))))))"

definition lower_rule_tenant :: "LSI \<Rightarrow> LLMatch \<Rightarrow> HLRule \<Rightarrow> LLRule option result" where
  "lower_rule_tenant tenant mem r =
     (if tenant_skips r then Inr None
      else if matchOnPort (hr_match r) \<or> matchOnEndPointInternal (hr_match r)
      then bindR (tenant_from_link tenant mem r) (\<lambda>x. Inr (Some x))
      else if matchOnEndPointGre (hr_match r)
      then bindR (tenant_from_gre tenant mem r) (\<lambda>x. Inr (Some x))
      else bindR (tenant_from_nf tenant mem r) (\<lambda>x. Inr (Some x)))"

definition lowerGraphToTenantLSI :: "HLGraph \<Rightarrow> LSI \<Rightarrow> (HLRule \<Rightarrow> LLMatch) \<Rightarrow> LLGraph result" where
  "lowerGraphToTenantLSI g tenant mem =
     foldR (\<lambda>r acc. bindR (lower_rule_tenant tenant (mem r) r) (\<lambda>x. Inr (add_lowered x acc)))
       (rules g) []"

end
