(* ===== verification/Data_Plane.thy ===== *)
theory Data_Plane
  imports Graph_Translator
begin

text \<open>
  What the lowered rules do to packets. A packet is an element of any type; \<open>sat o k\<close> says
  that packet \<open>k\<close> meets a condition of a flow entry and \<open>act a k\<close> is \<open>k\<close> after a VLAN operation:
  both belong to the switch and are arguments. A switch applies an entry of the highest priority
  among those that match; with several of them any may be taken, so the result is a set.

  The main theorem: LSI-0 and the tenant LSI, joined by the virtual links, forward every packet
  exactly as the rules of the high-level graph say, for graphs whose rules connect physical
  ports, NF ports and GRE endpoints (a GRE endpoint to a physical port excepted, see
  \<open>gre_to_port_applies_twice\<close>).
\<close>

section \<open>A flow table\<close>

definition oxm_holds :: "(oxm \<Rightarrow> 'k \<Rightarrow> bool) \<Rightarrow> 32 word \<Rightarrow> 'k \<Rightarrow> oxm \<Rightarrow> bool" where
  "oxm_holds sat p k c =
     (case c of Set_in_port q \<Rightarrow> q = p | Set_in_port_local \<Rightarrow> False | _ \<Rightarrow> sat c k)"

definition entry_matches :: "(oxm \<Rightarrow> 'k \<Rightarrow> bool) \<Rightarrow> 32 word \<Rightarrow> 'k \<Rightarrow> flowmod \<Rightarrow> bool" where
  "entry_matches sat p k e = (\<forall>c \<in> set (fm_match e). oxm_holds sat p k c)"

fun run_actions :: "(of_action \<Rightarrow> 'k \<Rightarrow> 'k) \<Rightarrow> of_action list \<Rightarrow> 'k \<Rightarrow> (32 word \<times> 'k) list" where
  "run_actions act [] k = []"
| "run_actions act (Output_port q # as) k = (q, k) # run_actions act as k"
| "run_actions act (Output_local # as) k = run_actions act as k"
| "run_actions act (Output_normal # as) k = run_actions act as k"
| "run_actions act (a # as) k = run_actions act as (act a k)"

definition installed :: "LLGraph \<Rightarrow> flowmod set" where
  "installed t = {e. \<exists>r \<in> set t. LLRule_fillFlowmodMessage OFP_12 r OF_12 ADD_RULE = Inr e}"

text \<open>The priority field of a flow entry has 16 bits.\<close>

definition wire_priority :: "64 word \<Rightarrow> nat" where
  "wire_priority p = unat p mod 2 ^ 16"

definition switch_out ::
  "(oxm \<Rightarrow> 'k \<Rightarrow> bool) \<Rightarrow> (of_action \<Rightarrow> 'k \<Rightarrow> 'k) \<Rightarrow> LLGraph \<Rightarrow> 32 word \<Rightarrow> 'k \<Rightarrow> (32 word \<times> 'k) set" where
  "switch_out sat act t p k =
     {x. \<exists>e \<in> installed t. entry_matches sat p k e \<and>
        (\<forall>f \<in> installed t. entry_matches sat p k f \<longrightarrow> wire_priority (fm_priority f) \<le> wire_priority (fm_priority e)) \<and>
        x \<in> set (run_actions act (map snd (fm_actions e)) k)}"

section \<open>The high-level graph\<close>

datatype point = PhysPort string | NFPort string "32 word" | GrePoint string

definition entry_point :: "HLMatch \<Rightarrow> point option" where
  "entry_point m =
     (case match_type m of
        MATCH_PORT \<Rightarrow> Some (PhysPort (the (input m)))
      | MATCH_NF \<Rightarrow> Some (NFPort (the (input m)) (nf_port m))
      | MATCH_ENDPOINT_GRE \<Rightarrow> Some (GrePoint (colon_piece 1 (the (input_endpoint m))))
      | _ \<Rightarrow> None)"

fun exit_point :: "hl_output \<Rightarrow> point option" where
  "exit_point (ActionPort p _) = Some (PhysPort p)"
| "exit_point (ActionNetworkFunction nf _ p) = Some (NFPort nf p)"
| "exit_point (ActionEndPointGre g _) = Some (GrePoint g)"
| "exit_point (ActionEndPointInternal _ _) = None"

definition vlan_ops :: "GenericAction \<Rightarrow> of_action list" where
  "vlan_ops ga =
     (if vlan_type ga = ACTION_VLAN_PUSH \<or> vlan_type ga = ACTION_ENDPOINT_VLAN_PUSH
      then [Push_vlan_ctag, Set_field_vlan_vid (or (vlan_label ga) 0x1000)]
      else [Pop_vlan])"

definition hl_effect :: "(of_action \<Rightarrow> 'k \<Rightarrow> 'k) \<Rightarrow> HLAction \<Rightarrow> 'k \<Rightarrow> 'k" where
  "hl_effect act a k = fold act (concat (map vlan_ops (genericActions a))) k"

definition hl_matches :: "(oxm \<Rightarrow> 'k \<Rightarrow> bool) \<Rightarrow> point \<Rightarrow> 'k \<Rightarrow> HLRule \<Rightarrow> bool" where
  "hl_matches sat e k r =
     (entry_point (hr_match r) = Some e \<and> (\<forall>c \<in> set (fill_common (hr_match r)). sat c k))"

definition hl_best :: "(oxm \<Rightarrow> 'k \<Rightarrow> bool) \<Rightarrow> HLRule list \<Rightarrow> point \<Rightarrow> 'k \<Rightarrow> HLRule \<Rightarrow> bool" where
  "hl_best sat rs e k r =
     (r \<in> set rs \<and> hl_matches sat e k r \<and>
      (\<forall>r' \<in> set rs. hl_matches sat e k r' \<longrightarrow> hr_priority r' \<le> hr_priority r))"

definition hl_outcomes ::
  "(oxm \<Rightarrow> 'k \<Rightarrow> bool) \<Rightarrow> (of_action \<Rightarrow> 'k \<Rightarrow> 'k) \<Rightarrow> HLRule list \<Rightarrow> point \<Rightarrow> 'k \<Rightarrow> (point \<times> 'k) set" where
  "hl_outcomes sat act rs e k =
     {(x, hl_effect act (hr_action r) k) | x r.
        hl_best sat rs e k r \<and> exit_point (hl_out (hr_action r)) = Some x}"

section \<open>Two switches and the links between them\<close>

definition phys_num :: "LSI \<Rightarrow> string \<Rightarrow> 32 word option" where
  "phys_num lsi0 p = map_of (physical_ports lsi0) p"

definition nf_num :: "LSI \<Rightarrow> string \<Rightarrow> 32 word \<Rightarrow> 32 word option" where
  "nf_num tenant nf i =
     Option.bind (map_of (network_functions tenant) nf) (\<lambda>d. map_of (ports_switch_id d) (nf_port_name nf i))"

definition gre_num :: "LSI \<Rightarrow> string \<Rightarrow> 32 word option" where
  "gre_num tenant ep = map_of (endpoints_ports_id tenant) ep"

text \<open>The port a point is attached to, on LSI-0 or on the tenant LSI.\<close>

fun on_lsi0 :: "point \<Rightarrow> bool" where
  "on_lsi0 (PhysPort _) = True"
| "on_lsi0 _ = False"

fun point_num :: "LSI \<Rightarrow> LSI \<Rightarrow> point \<Rightarrow> 32 word option" where
  "point_num tenant lsi0 (PhysPort p) = phys_num lsi0 p"
| "point_num tenant lsi0 (NFPort nf i) = nf_num tenant nf i"
| "point_num tenant lsi0 (GrePoint ep) = gre_num tenant ep"

definition here_num :: "bool \<Rightarrow> VLink \<Rightarrow> 32 word" where
  "here_num b v = (if b then remote_id v else local_id v)"

text \<open>
  A packet at a port of one switch (\<open>b\<close> tells which) leaves at a point of that switch, or
  crosses a virtual link and leaves at a point of the other one.
\<close>

definition leaves_at ::
  "(oxm \<Rightarrow> 'k \<Rightarrow> bool) \<Rightarrow> (of_action \<Rightarrow> 'k \<Rightarrow> 'k) \<Rightarrow> LSI \<Rightarrow> LSI \<Rightarrow> (bool \<Rightarrow> LLGraph) \<Rightarrow> bool \<Rightarrow>
     32 word \<Rightarrow> 'k \<Rightarrow> point \<Rightarrow> 'k \<Rightarrow> bool" where
  "leaves_at sat act tenant lsi0 tab b q k1 x k2 =
     (if on_lsi0 x = b then point_num tenant lsi0 x = Some q \<and> k2 = k1
      else \<exists>v \<in> set (virtual_links tenant). here_num b v = q \<and>
        (\<exists>q2. (q2, k2) \<in> switch_out sat act (tab (on_lsi0 x)) (here_num (on_lsi0 x) v) k1 \<and>
           point_num tenant lsi0 x = Some q2))"

definition net_outcomes ::
  "(oxm \<Rightarrow> 'k \<Rightarrow> bool) \<Rightarrow> (of_action \<Rightarrow> 'k \<Rightarrow> 'k) \<Rightarrow> LSI \<Rightarrow> LSI \<Rightarrow> (bool \<Rightarrow> LLGraph) \<Rightarrow> point \<Rightarrow> 'k \<Rightarrow>
     (point \<times> 'k) set" where
  "net_outcomes sat act tenant lsi0 tab e k =
     {(x, k2). \<exists>p q k1. point_num tenant lsi0 e = Some p \<and>
        (q, k1) \<in> switch_out sat act (tab (on_lsi0 e)) p k \<and>
        leaves_at sat act tenant lsi0 tab (on_lsi0 e) q k1 x k2}"

section \<open>Deployed graphs\<close>

text \<open>The port numbers of each switch are pairwise different.\<close>

definition nf_numbers :: "LSI \<Rightarrow> 32 word list" where
  "nf_numbers tenant = concat (map (\<lambda>(nf, d). map snd (ports_switch_id d)) (network_functions tenant))"

definition numbers_ok :: "LSI \<Rightarrow> LSI \<Rightarrow> bool" where
  "numbers_ok tenant lsi0 =
     (distinct (map snd (physical_ports lsi0) @ map remote_id (virtual_links tenant)) \<and>
      distinct (nf_numbers tenant @ map snd (endpoints_ports_id tenant) @ map local_id (virtual_links tenant)))"

text \<open>In each direction a virtual link serves one port.\<close>

definition links_ok :: "LSI \<Rightarrow> bool" where
  "links_ok tenant =
     (distinct (map vl_ID (virtual_links tenant)) \<and>
      distinct (map snd (nfs_vlinks tenant) @ map snd (endpoints_gre_vlinks tenant)) \<and>
      distinct (map snd (ports_vlinks tenant)))"

definition link_of :: "LSI \<Rightarrow> (string, 64 word) omap \<Rightarrow> string \<Rightarrow> VLink option" where
  "link_of tenant m k =
     Option.bind (map_of m k) (\<lambda>i. find (\<lambda>v. vl_ID v = i) (virtual_links tenant))"

text \<open>The link that traffic for a point of the other switch takes.\<close>

fun link_to :: "LSI \<Rightarrow> point \<Rightarrow> VLink option" where
  "link_to tenant (PhysPort p) = link_of tenant (ports_vlinks tenant) p"
| "link_to tenant (NFPort nf i) = link_of tenant (nfs_vlinks tenant) (nf_port_name nf i)"
| "link_to tenant (GrePoint ep) = link_of tenant (endpoints_gre_vlinks tenant) ep"

fun kind_ok :: "point \<Rightarrow> point \<Rightarrow> bool" where
  "kind_ok (GrePoint e) (NFPort _ _) = (length e < 64)"
| "kind_ok (GrePoint _) _ = False"
| "kind_ok (NFPort _ i) _ = (unat i < 2 ^ 31)"
| "kind_ok _ _ = True"

definition rule_deployed :: "LSI \<Rightarrow> LSI \<Rightarrow> HLRule \<Rightarrow> bool" where
  "rule_deployed tenant lsi0 r =
     (wf_input (hr_match r) \<and> wf_match (hr_match r) \<and> unat (hr_priority r) < 2 ^ 16 \<and>
      (ipv6_dst (hr_match r) = None \<or> gre_key (hr_match r) \<noteq> None) \<and>
      (case (entry_point (hr_match r), exit_point (hl_out (hr_action r))) of
         (Some e, Some x) \<Rightarrow>
           kind_ok e x \<and> point_num tenant lsi0 e \<noteq> None \<and> point_num tenant lsi0 x \<noteq> None \<and>
           (on_lsi0 e \<noteq> on_lsi0 x \<longrightarrow> link_to tenant x \<noteq> None)
       | _ \<Rightarrow> False))"

definition deployed :: "HLGraph \<Rightarrow> LSI \<Rightarrow> LSI \<Rightarrow> bool" where
  "deployed g tenant lsi0 =
     (numbers_ok tenant lsi0 \<and> links_ok tenant \<and> (\<forall>r \<in> set (rules g). rule_deployed tenant lsi0 r))"

section \<open>Entries of a lowered rule\<close>

lemma list_all_emit:
  "list_all P (emit_if b c) = (b \<longrightarrow> P c)" "list_all P (emit_flag b f v) = (b \<longrightarrow> P (f v))"
  "list_all P (emit_str g p) = (\<forall>s. p = Some s \<longrightarrow> P (g s))"
  "list_all P (emit_addr h p q) = (\<forall>s. p = Some s \<longrightarrow> P (h s q))"
  by (simp_all add: emit_if_def emit_flag_def emit_str_def emit_addr_def split: option.split)

definition on_port :: "oxm \<Rightarrow> bool" where
  "on_port c = (case c of Set_in_port _ \<Rightarrow> True | Set_in_port_local \<Rightarrow> True | _ \<Rightarrow> False)"

lemma oxm_holds_field: "\<not> on_port c \<Longrightarrow> oxm_holds sat p k c = sat c k"
  by (cases c) (simp_all add: on_port_def oxm_holds_def)

lemma fill_common_no_port: "list_all (\<lambda>c. \<not> on_port c) (fill_common m)"
  by (simp add: fill_common_def fill_ethernet_def fill_vlan_def fill_ipv4_def fill_transport_def
      fill_icmpv4_def fill_arp_def fill_ipv6_def fill_mpls_gre_def list_all_emit on_port_def
      split: option.split)

lemma fold_addGeneric:
  "fold LLAction_addGenericAction gas a = a\<lparr>ll_genericActions := ll_genericActions a @ gas\<rparr>"
  by (induction gas arbitrary: a) (simp_all add: LLAction_addGenericAction_def)

lemma with_generic_eq:
  "with_generic p a = (LLAction_port p)\<lparr>ll_genericActions := genericActions a\<rparr>"
  by (simp add: with_generic_def fold_addGeneric LLAction_port_def)

lemma VlanAction_fill_ops:
  "\<exists>n' new. VlanAction_fill OFP_12 ga (n, acts) = Inr (n', acts @ new) \<and> map snd new = vlan_ops ga"
  by (simp add: VlanAction_fill_def vlan_ops_def)

lemma foldR_VlanAction_ops:
  "\<exists>n' acts'. foldR (VlanAction_fill OFP_12) gas (n, acts) = Inr (n', acts') \<and>
     map snd acts' = map snd acts @ concat (map vlan_ops gas)"
proof (induction gas arbitrary: n acts)
  case Nil
  then show ?case by simp
next
  case (Cons ga gas)
  obtain m new where n: "VlanAction_fill OFP_12 ga (n, acts) = Inr (m, acts @ new)"
    "map snd new = vlan_ops ga"
    using VlanAction_fill_ops by blast
  then show ?case using Cons.IH[of m "acts @ new"] by simp
qed

lemma run_vlan_ops:
  "run_actions act (concat (map vlan_ops gas) @ as) k =
     run_actions act as (fold act (concat (map vlan_ops gas)) k)"
  by (induction gas arbitrary: k) (simp_all add: vlan_ops_def)

definition ll_run :: "(of_action \<Rightarrow> 'k \<Rightarrow> 'k) \<Rightarrow> LLRule \<Rightarrow> 'k \<Rightarrow> (32 word \<times> 'k) list" where
  "ll_run act r k =
     (case LLAction_fillFlowmodMessage OFP_12 (ll_action r) of
        Inl _ \<Rightarrow> [] | Inr acts \<Rightarrow> run_actions act (map snd acts) k)"

definition ll_matches :: "(oxm \<Rightarrow> 'k \<Rightarrow> bool) \<Rightarrow> 32 word \<Rightarrow> 'k \<Rightarrow> LLRule \<Rightarrow> bool" where
  "ll_matches sat p k r = (\<forall>c \<in> set (LLMatch_fillFlowmodMessage (ll_match r)). oxm_holds sat p k c)"

lemma LLAction_fill_12: "\<exists>acts. LLAction_fillFlowmodMessage OFP_12 a = Inr acts"
  using foldR_VlanAction_ops[of "ll_genericActions a" 0 "[]"]
  by (auto simp: LLAction_fillFlowmodMessage_def)

lemma installed_entries:
  "installed t = {e. \<exists>r \<in> set t. \<exists>acts. LLAction_fillFlowmodMessage OFP_12 (ll_action r) = Inr acts \<and>
     fm_match e = LLMatch_fillFlowmodMessage (ll_match r) \<and> fm_actions e = acts \<and>
     fm_priority e = ll_priority r \<and> LLRule_fillFlowmodMessage OFP_12 r OF_12 ADD_RULE = Inr e}"
  by (auto simp: installed_def LLRule_fillFlowmodMessage_def bindR_Inr_iff)

lemma entry_exists:
  "\<exists>e. LLRule_fillFlowmodMessage OFP_12 r OF_12 ADD_RULE = Inr e \<and>
     fm_match e = LLMatch_fillFlowmodMessage (ll_match r) \<and> fm_priority e = ll_priority r"
  using LLAction_fill_12[of "ll_action r"] by (auto simp: LLRule_fillFlowmodMessage_def)

lemma switch_out_rules:
  "x \<in> switch_out sat act t p k \<longleftrightarrow>
     (\<exists>r \<in> set t. ll_matches sat p k r \<and>
        (\<forall>r' \<in> set t. ll_matches sat p k r' \<longrightarrow> wire_priority (ll_priority r') \<le> wire_priority (ll_priority r)) \<and>
        x \<in> set (ll_run act r k))"
proof
  assume "x \<in> switch_out sat act t p k"
  then obtain e r where e: "entry_matches sat p k e" "r \<in> set t"
    "\<forall>f \<in> installed t. entry_matches sat p k f \<longrightarrow> wire_priority (fm_priority f) \<le> wire_priority (fm_priority e)"
    "x \<in> set (run_actions act (map snd (fm_actions e)) k)"
    "LLAction_fillFlowmodMessage OFP_12 (ll_action r) = Inr (fm_actions e)"
    "fm_match e = LLMatch_fillFlowmodMessage (ll_match r)" "fm_priority e = ll_priority r"
    by (auto simp: switch_out_def installed_entries)
  have "wire_priority (ll_priority r') \<le> wire_priority (ll_priority r)" if r': "r' \<in> set t" "ll_matches sat p k r'" for r'
  proof -
    obtain f where f: "LLRule_fillFlowmodMessage OFP_12 r' OF_12 ADD_RULE = Inr f"
      "fm_match f = LLMatch_fillFlowmodMessage (ll_match r')" "fm_priority f = ll_priority r'"
      using entry_exists by blast
    with r' have "f \<in> installed t" "entry_matches sat p k f"
      by (auto simp: installed_def entry_matches_def ll_matches_def)
    with e(3) f(3) e(7) show ?thesis by fastforce
  qed
  with e show "\<exists>r \<in> set t. ll_matches sat p k r \<and>
        (\<forall>r' \<in> set t. ll_matches sat p k r' \<longrightarrow> wire_priority (ll_priority r') \<le> wire_priority (ll_priority r)) \<and>
        x \<in> set (ll_run act r k)"
    by (intro bexI[of _ r]) (auto simp: ll_matches_def entry_matches_def ll_run_def)
next
  assume "\<exists>r \<in> set t. ll_matches sat p k r \<and>
        (\<forall>r' \<in> set t. ll_matches sat p k r' \<longrightarrow> wire_priority (ll_priority r') \<le> wire_priority (ll_priority r)) \<and>
        x \<in> set (ll_run act r k)"
  then obtain r where r: "r \<in> set t" "ll_matches sat p k r"
    "\<forall>r' \<in> set t. ll_matches sat p k r' \<longrightarrow> wire_priority (ll_priority r') \<le> wire_priority (ll_priority r)" "x \<in> set (ll_run act r k)"
    by blast
  obtain acts where a: "LLAction_fillFlowmodMessage OFP_12 (ll_action r) = Inr acts"
    using LLAction_fill_12 by blast
  then obtain e where e: "LLRule_fillFlowmodMessage OFP_12 r OF_12 ADD_RULE = Inr e"
    "fm_match e = LLMatch_fillFlowmodMessage (ll_match r)" "fm_priority e = ll_priority r"
    "fm_actions e = acts"
    by (auto simp: LLRule_fillFlowmodMessage_def)
  show "x \<in> switch_out sat act t p k"
    unfolding switch_out_def mem_Collect_eq
  proof (intro bexI[of _ e] conjI ballI impI)
    show "e \<in> installed t" using r(1) e(1) by (auto simp: installed_def)
    show "entry_matches sat p k e" using r(2) e(2) by (simp add: entry_matches_def ll_matches_def)
    show "x \<in> set (run_actions act (map snd (fm_actions e)) k)"
      using r(4) a e(4) by (simp add: ll_run_def)
    fix f assume "f \<in> installed t" "entry_matches sat p k f"
    then show "wire_priority (fm_priority f) \<le> wire_priority (fm_priority e)"
      using r(3) e(3) by (auto simp: installed_entries entry_matches_def ll_matches_def)
  qed
qed

lemma ll_run_generic:
  assumes "ll_action r = with_generic p a"
  shows "ll_run act r k = [(p, hl_effect act a k)]"
proof -
  obtain n acts where "foldR (VlanAction_fill OFP_12) (genericActions a) (0, []) = Inr (n, acts)"
    "map snd acts = concat (map vlan_ops (genericActions a))"
    using foldR_VlanAction_ops[of "genericActions a" 0 "[]"] by auto
  then show ?thesis
    using run_vlan_ops[of act "genericActions a" "[Output_port p]" k] assms
    by (simp add: ll_run_def LLAction_fillFlowmodMessage_def with_generic_eq LLAction_port_def
        hl_effect_def)
qed

lemma ll_run_port: "ll_action r = LLAction_port p \<Longrightarrow> ll_run act r k = [(p, k)]"
  by (simp add: ll_run_def LLAction_fillFlowmodMessage_def LLAction_port_def)

section \<open>Matches of a lowered rule\<close>

lemma fill_common_setInputPort: "fill_common (LLMatch_setInputPort n m) = fill_common m"
  by (simp add: fill_common_def fill_ethernet_def fill_vlan_def fill_ipv4_def fill_transport_def
      fill_icmpv4_def fill_arp_def fill_ipv6_def fill_mpls_gre_def LLMatch_setInputPort_def)

lemma fill_common_new: "fill_common (Match_new mem) = []"
  by (simp add: fill_common_def fill_ethernet_def fill_vlan_def fill_ipv4_def fill_transport_def
      fill_icmpv4_def fill_arp_def fill_ipv6_def fill_mpls_gre_def Match_new_def emit_if_def
      emit_flag_def emit_str_def emit_addr_def)

lemma LLMatch_new_eq: "LLMatch_new mem = Match_new (mem\<lparr>isInput_port := False, is_local_port := False\<rparr>)"
  by (simp add: LLMatch_new_def Match_new_def)

lemma LLMatch_fill_port:
  "\<not> is_local_port m \<Longrightarrow>
     LLMatch_fillFlowmodMessage (LLMatch_setInputPort n m) = Set_in_port n # fill_common m"
  using fill_common_setInputPort[of n m]
  by (simp add: LLMatch_fillFlowmodMessage_def LLMatch_setInputPort_def emit_if_def emit_flag_def)

lemma LLMatch_new_not_local: "\<not> is_local_port (LLMatch_new mem)" "\<not> is_local_port (copy_fields src (LLMatch_new mem))"
  by (simp_all add: LL_frame LLMatch_new_def)

lemma ll_matches_link:
  assumes "ll_match r = LLMatch_setInputPort n (LLMatch_new mem)"
  shows "ll_matches sat p k r \<longleftrightarrow> p = n"
  using LLMatch_fill_port[OF LLMatch_new_not_local(1), of n mem]
  by (auto simp: ll_matches_def assms LLMatch_new_eq fill_common_new oxm_holds_def)

lemma ll_matches_copy:
  assumes "ll_match r = LLMatch_setInputPort n (copy_fields src (LLMatch_new mem))" "wf_match src"
  shows "ll_matches sat p k r \<longleftrightarrow> p = n \<and> (\<forall>c \<in> set (fill_common src). sat c k)"
proof -
  have "fill_common (copy_fields src (LLMatch_new mem)) = fill_common src"
    unfolding LLMatch_new_eq by (rule fill_common_copy[OF assms(2)])
  then have "LLMatch_fillFlowmodMessage (ll_match r) = Set_in_port n # fill_common src"
    using LLMatch_fill_port[OF LLMatch_new_not_local(2), of n src mem] by (simp add: assms(1))
  moreover have "oxm_holds sat p k c = sat c k" if "c \<in> set (fill_common src)" for c
    using fill_common_no_port[of src] that by (auto simp: list_all_iff oxm_holds_field)
  ultimately show ?thesis
    by (auto simp: ll_matches_def oxm_holds_def[of sat p k "Set_in_port n"])
qed

section \<open>What a deployed rule is lowered to\<close>

definition ent :: "HLRule \<Rightarrow> point" where
  "ent r = the (entry_point (hr_match r))"

definition ext :: "HLRule \<Rightarrow> point" where
  "ext r = the (exit_point (hl_out (hr_action r)))"

text \<open>The port a packet is sent to by the switch it enters at.\<close>

definition first_out :: "LSI \<Rightarrow> LSI \<Rightarrow> HLRule \<Rightarrow> 32 word" where
  "first_out tenant lsi0 r =
     (if on_lsi0 (ent r) = on_lsi0 (ext r) then the (point_num tenant lsi0 (ext r))
      else here_num (on_lsi0 (ent r)) (the (link_to tenant (ext r))))"

definition first_rule :: "LSI \<Rightarrow> LSI \<Rightarrow> LLMatch \<Rightarrow> string \<Rightarrow> HLRule \<Rightarrow> LLRule" where
  "first_rule tenant lsi0 mem i r =
     \<lparr>ll_priority = hr_priority r,
      ll_match = LLMatch_setInputPort (the (point_num tenant lsi0 (ent r)))
        (copy_fields (hr_match r) (LLMatch_new mem)),
      ll_action = with_generic (first_out tenant lsi0 r) (hr_action r), flowID = i\<rparr>"

definition second_rule :: "LSI \<Rightarrow> LSI \<Rightarrow> LLMatch \<Rightarrow> string \<Rightarrow> HLRule \<Rightarrow> LLRule" where
  "second_rule tenant lsi0 mem i r =
     \<lparr>ll_priority = hr_priority r,
      ll_match = LLMatch_setInputPort (here_num (on_lsi0 (ext r)) (the (link_to tenant (ext r))))
        (LLMatch_new mem),
      ll_action = LLAction_port (the (point_num tenant lsi0 (ext r))), flowID = i\<rparr>"

definition lowered :: "LSI \<Rightarrow> LSI \<Rightarrow> bool \<Rightarrow> LLMatch \<Rightarrow> string \<Rightarrow> HLRule \<Rightarrow> LLRule option" where
  "lowered tenant lsi0 b mem i r =
     (if on_lsi0 (ent r) = b then Some (first_rule tenant lsi0 mem i r)
      else if on_lsi0 (ext r) = b then Some (second_rule tenant lsi0 mem i r)
      else None)"

lemma rule_deployedD:
  assumes "rule_deployed tenant lsi0 r"
  shows "wf_input (hr_match r)" "wf_match (hr_match r)"
    "ipv6_dst (hr_match r) = None \<or> gre_key (hr_match r) \<noteq> None"
    "entry_point (hr_match r) = Some (ent r)" "exit_point (hl_out (hr_action r)) = Some (ext r)"
    "kind_ok (ent r) (ext r)" "point_num tenant lsi0 (ent r) \<noteq> None"
    "point_num tenant lsi0 (ext r) \<noteq> None"
    "on_lsi0 (ent r) \<noteq> on_lsi0 (ext r) \<Longrightarrow> link_to tenant (ext r) \<noteq> None"
    "wire_priority (hr_priority r) = unat (hr_priority r)"
  using assms by (auto simp: rule_deployed_def ent_def ext_def wire_priority_def split: option.splits)

lemma copy_defined:
  "ipv6_dst src = None \<or> gre_key src \<noteq> None \<Longrightarrow>
     setAllCommonFields src (LLMatch_new mem) = Inr (copy_fields src (LLMatch_new mem))"
  by (auto simp: setAllCommonFields_eq)

lemma vlink_by_name_link_of:
  "link_of tenant m k = Some v \<Longrightarrow> vlink_by_name e m k tenant = Inr v"
  by (auto simp: link_of_def vlink_by_name_def getVirtualLink_def Option.bind_eq_Some_conv)

lemma sint_small:
  assumes "unat (i :: 32 word) < 2 ^ 31"
  shows "sint i = int (unat i)"
proof -
  have u: "uint i < 2 ^ 31"
    using assms by (metis of_nat_less_iff of_nat_numeral of_nat_power uint_nat)
  have "- (2 ^ 31) \<le> uint i" by (rule order_trans[OF _ uint_ge_0]) simp
  then have "signed_take_bit 31 (uint i) = uint i"
    using u by (rule signed_take_bit_int_eq_self)
  then show ?thesis by (simp add: sint_uint)
qed

lemma dec_int_small: "unat (i :: 32 word) < 2 ^ 31 \<Longrightarrow> nf @ ''_'' @ dec_int (sint i) = nf_port_name nf i"
  by (simp only: sint_small dec_int_def nf_port_name_def underscore_name_def) simp

lemma nf_num_ports:
  assumes "nf_num tenant nf i = Some n"
  shows "nf \<in> set (getNetworkFunctionsId tenant)"
    "map_of (fst (getNetworkFunctionsPorts nf tenant)) (underscore_name nf (unat i)) = Some n"
proof -
  have s: "set (fold os_insert xs ys) = set xs \<union> set ys" for xs ys :: "string list"
    by (induction xs arbitrary: ys) auto
  obtain d where d: "map_of (network_functions tenant) nf = Some d"
    "map_of (ports_switch_id d) (nf_port_name nf i) = Some n"
    using assms by (auto simp: nf_num_def Option.bind_eq_Some_conv)
  then show "nf \<in> set (getNetworkFunctionsId tenant)"
    by (auto simp: getNetworkFunctionsId_def s dest: map_of_SomeD intro: rev_image_eqI)
  show "map_of (fst (getNetworkFunctionsPorts nf tenant)) (underscore_name nf (unat i)) = Some n"
    using d by (simp add: getNetworkFunctionsPorts_def touch_nf_def nf_port_name_def)
qed

definition lowers :: "HLGraph \<Rightarrow> LSI \<Rightarrow> LSI \<Rightarrow> (string, (string, 32 word) omap) omap \<Rightarrow> LLMatch \<Rightarrow> HLRule \<Rightarrow> bool"
where
  "lowers g tenant lsi0 conns mem r =
     (lower_rule_lsi0 g tenant lsi0 conns mem r =
        Inr (lowered tenant lsi0 True mem (lsi0_rule_id g r) r) \<and>
      lower_rule_tenant tenant mem r = Inr (lowered tenant lsi0 False mem (hr_ruleID r) r))"

lemmas lowering_defs = lowers_def lower_rule_lsi0_def lower_rule_tenant_def lsi0_skips_def
  tenant_skips_def matchOn_defs getType_def lowered_def first_rule_def second_rule_def
  first_out_def here_num_def

lemma lower_port_port:
  assumes d: "rule_deployed tenant lsi0 r" and e: "match_type (hr_match r) = MATCH_PORT"
    and x: "hl_out (hr_action r) = ActionPort q y"
  shows "lowers g tenant lsi0 conns mem r"
proof -
  note D = rule_deployedD[OF d]
  obtain p where p: "input (hr_match r) = Some p"
    using D(1) e by (auto simp: wf_input_def)
  have ee: "ent r = PhysPort p" "ext r = PhysPort q"
    using e p x by (simp_all add: ent_def ext_def entry_point_def)
  obtain n m where n: "map_of (physical_ports lsi0) p = Some n" "map_of (physical_ports lsi0) q = Some m"
    using D(7,8) by (auto simp: ee phys_num_def)
  show ?thesis
    using e x p n by (simp add: lowering_defs ee copy_defined[OF D(3)] lsi0_from_port_def
        lsi0_port_to_port_def getPhysicalPort_def phys_num_def)
qed

lemma lower_port_nf:
  assumes d: "rule_deployed tenant lsi0 r" and e: "match_type (hr_match r) = MATCH_PORT"
    and x: "hl_out (hr_action r) = ActionNetworkFunction nf y i"
  shows "lowers g tenant lsi0 conns mem r"
proof -
  note D = rule_deployedD[OF d]
  obtain p where p: "input (hr_match r) = Some p"
    using D(1) e by (auto simp: wf_input_def)
  have ee: "ent r = PhysPort p" "ext r = NFPort nf i"
    using e p x by (simp_all add: ent_def ext_def entry_point_def)
  obtain n m v where n: "map_of (physical_ports lsi0) p = Some n" "nf_num tenant nf i = Some m"
    "link_of tenant (nfs_vlinks tenant) (nf_port_name nf i) = Some v"
    using D(7-9) by (auto simp: ee phys_num_def)
  show ?thesis
    using e x p n nf_num_ports[OF n(2)] vlink_by_name_link_of[OF n(3)]
    by (simp add: lowering_defs ee copy_defined[OF D(3)] lsi0_from_port_def lsi0_to_nf_def
        tenant_from_link_def tenant_link_to_nf_def getPhysicalPort_def phys_num_def out_port_def
        nf_port_name_def)
qed

lemma lower_port_gre:
  assumes d: "rule_deployed tenant lsi0 r" and e: "match_type (hr_match r) = MATCH_PORT"
    and x: "hl_out (hr_action r) = ActionEndPointGre ep y"
  shows "lowers g tenant lsi0 conns mem r"
proof -
  note D = rule_deployedD[OF d]
  obtain p where p: "input (hr_match r) = Some p"
    using D(1) e by (auto simp: wf_input_def)
  have ee: "ent r = PhysPort p" "ext r = GrePoint ep"
    using e p x by (simp_all add: ent_def ext_def entry_point_def)
  obtain n m v where n: "map_of (physical_ports lsi0) p = Some n"
    "map_of (endpoints_ports_id tenant) ep = Some m"
    "link_of tenant (endpoints_gre_vlinks tenant) ep = Some v"
    using D(7-9) by (auto simp: ee phys_num_def gre_num_def)
  show ?thesis
    using e x p n vlink_by_name_link_of[OF n(3)]
    by (simp add: lowering_defs ee copy_defined[OF D(3)] lsi0_from_port_def lsi0_to_gre_def
        tenant_from_link_def tenant_link_to_gre_def getPhysicalPort_def phys_num_def gre_num_def
        endpoint_port_def)
qed

text \<open>A match on an NF: the tenant LSI has the port, LSI-0 at most the second half.\<close>

lemma tenant_from_nf_eq:
  assumes d: "rule_deployed tenant lsi0 r" and e: "match_type (hr_match r) = MATCH_NF"
    and out: "tenant_nf_out tenant r = Inr p"
  shows "lower_rule_tenant tenant mem r = Inr (Some
    \<lparr>ll_priority = hr_priority r,
     ll_match = LLMatch_setInputPort (the (point_num tenant lsi0 (ent r)))
       (copy_fields (hr_match r) (LLMatch_new mem)),
     ll_action = with_generic p (hr_action r), flowID = hr_ruleID r\<rparr>)"
proof -
  note D = rule_deployedD[OF d]
  obtain nf where nf: "input (hr_match r) = Some nf"
    using D(1) e by (auto simp: wf_input_def)
  have ee: "ent r = NFPort nf (nf_port (hr_match r))"
    using e nf by (simp add: ent_def entry_point_def)
  obtain n where n: "nf_num tenant nf (nf_port (hr_match r)) = Some n"
    using D(7) by (auto simp: ee)
  have "unat (nf_port (hr_match r)) < 2 ^ 31"
    using D(6) by (cases "ext r") (simp_all add: ee)
  then have "nf @ ''_'' @ dec_int (sint (nf_port (hr_match r))) =
      underscore_name nf (unat (nf_port (hr_match r)))"
    by (simp only: dec_int_small nf_port_name_def)
  then show ?thesis
    using e nf n nf_num_ports[OF n] out
    by (simp add: lower_rule_tenant_def tenant_skips_def matchOn_defs tenant_from_nf_def getNF_def
        getPortOfNF_def ee copy_defined[OF D(3)])
qed

lemma lower_nf_nf:
  assumes d: "rule_deployed tenant lsi0 r" and e: "match_type (hr_match r) = MATCH_NF"
    and x: "hl_out (hr_action r) = ActionNetworkFunction nf y i"
  shows "lowers g tenant lsi0 conns mem r"
proof -
  note D = rule_deployedD[OF d]
  have ee: "\<not> on_lsi0 (ent r)" "ext r = NFPort nf i"
    using e x by (simp_all add: ent_def ext_def entry_point_def)
  obtain m where m: "nf_num tenant nf i = Some m" using D(8) by (auto simp: ee)
  have "tenant_nf_out tenant r = Inr m"
    using x nf_num_ports[OF m] by (simp add: tenant_nf_out_def tenant_nf_to_nf_def getType_def out_port_def)
  from tenant_from_nf_eq[OF d e this] show ?thesis
    using e x m ee by (simp add: lowers_def lower_rule_lsi0_def lsi0_skips_def matchOn_defs getType_def
        lowered_def first_rule_def first_out_def)
qed

lemma lower_nf_gre:
  assumes d: "rule_deployed tenant lsi0 r" and e: "match_type (hr_match r) = MATCH_NF"
    and x: "hl_out (hr_action r) = ActionEndPointGre ep y"
  shows "lowers g tenant lsi0 conns mem r"
proof -
  note D = rule_deployedD[OF d]
  have ee: "\<not> on_lsi0 (ent r)" "ext r = GrePoint ep"
    using e x by (simp_all add: ent_def ext_def entry_point_def)
  obtain m where m: "map_of (endpoints_ports_id tenant) ep = Some m"
    using D(8) by (auto simp: ee gre_num_def)
  have "tenant_nf_out tenant r = Inr m"
    using x m by (simp add: tenant_nf_out_def getType_def endpoint_port_def)
  from tenant_from_nf_eq[OF d e this] show ?thesis
    using e x m ee by (simp add: lowers_def lower_rule_lsi0_def lsi0_skips_def matchOn_defs getType_def
        lowered_def first_rule_def first_out_def gre_num_def)
qed

lemma lower_nf_port:
  assumes d: "rule_deployed tenant lsi0 r" and e: "match_type (hr_match r) = MATCH_NF"
    and x: "hl_out (hr_action r) = ActionPort q y"
  shows "lowers g tenant lsi0 conns mem r"
proof -
  note D = rule_deployedD[OF d]
  have ee: "\<not> on_lsi0 (ent r)" "ext r = PhysPort q"
    using e x by (simp_all add: ent_def ext_def entry_point_def)
  obtain m v where m: "map_of (physical_ports lsi0) q = Some m"
    "link_of tenant (ports_vlinks tenant) q = Some v"
    using D(8,9) by (auto simp: ee phys_num_def)
  note v = vlink_by_name_link_of[OF m(2)]
  have "tenant_nf_out tenant r = Inr (local_id v)"
    using x v by (simp add: tenant_nf_out_def getType_def)
  from tenant_from_nf_eq[OF d e this] show ?thesis
    using e x m v ee by (simp add: lowers_def lower_rule_lsi0_def lsi0_skips_def matchOn_defs
        getType_def lowered_def first_rule_def second_rule_def first_out_def phys_num_def
        lsi0_from_nf_def here_num_def)
qed

lemma lower_gre_nf:
  assumes d: "rule_deployed tenant lsi0 r" and e: "match_type (hr_match r) = MATCH_ENDPOINT_GRE"
    and x: "hl_out (hr_action r) = ActionNetworkFunction nf y i"
  shows "lowers g tenant lsi0 conns mem r"
proof -
  note D = rule_deployedD[OF d]
  obtain s where s: "input_endpoint (hr_match r) = Some s"
    using D(1) e by (auto simp: wf_input_def)
  have ee: "ent r = GrePoint (colon_piece 1 s)" "ext r = NFPort nf i"
    using e x s by (simp_all add: ent_def ext_def entry_point_def)
  obtain n m where n: "map_of (endpoints_ports_id tenant) (colon_piece 1 s) = Some n"
    "nf_num tenant nf i = Some m" "length (colon_piece 1 s) < 64"
    using D(6-8) by (auto simp: ee gre_num_def)
  show ?thesis
    using e x s n nf_num_ports[OF n(2)]
    by (simp add: lowering_defs ee copy_defined[OF D(3)] tenant_from_gre_def getInputEndpoint_def
        copy_64_def tenant_gre_to_nf_def endpoint_port_def gre_num_def out_port_def)
qed

lemma lower_deployed:
  assumes d: "rule_deployed tenant lsi0 r"
  shows "lowers g tenant lsi0 conns mem r"
proof -
  note D = rule_deployedD[OF d]
  show ?thesis
  proof (cases "match_type (hr_match r)")
    case MATCH_PORT
    then show ?thesis
      using d D(5) lower_port_port lower_port_nf lower_port_gre by (cases "hl_out (hr_action r)") auto
  next
    case MATCH_NF
    then show ?thesis
      using d D(5) lower_nf_port lower_nf_nf lower_nf_gre by (cases "hl_out (hr_action r)") auto
  next
    case MATCH_ENDPOINT_GRE
    then have g: "ent r = GrePoint (colon_piece 1 (the (input_endpoint (hr_match r))))"
      by (simp add: ent_def entry_point_def)
    have "\<exists>nf y i. hl_out (hr_action r) = ActionNetworkFunction nf y i"
      using D(5,6) unfolding g by (cases "hl_out (hr_action r)"; cases "ext r") auto
    then show ?thesis using d MATCH_ENDPOINT_GRE lower_gre_nf by blast
  qed (use D(4) in \<open>simp_all add: entry_point_def\<close>)
qed

section \<open>Tables of a deployed graph\<close>

definition table :: "LSI \<Rightarrow> LSI \<Rightarrow> bool \<Rightarrow> (HLRule \<Rightarrow> LLMatch) \<Rightarrow> (HLRule \<Rightarrow> string) \<Rightarrow> HLRule list \<Rightarrow> LLGraph" where
  "table tenant lsi0 b mem ids rs =
     concat (map (\<lambda>r. case lowered tenant lsi0 b (mem r) (ids r) r of None \<Rightarrow> [] | Some s \<Rightarrow> [s]) rs)"

lemma foldR_add_lowered:
  "\<forall>r \<in> set rs. f r = Inr (h r) \<Longrightarrow>
     foldR (\<lambda>r acc. bindR (f r) (\<lambda>x. Inr (add_lowered x acc))) rs acc =
       Inr (acc @ concat (map (\<lambda>r. case h r of None \<Rightarrow> [] | Some s \<Rightarrow> [s]) rs))"
  by (induction rs arbitrary: acc)
     (simp_all add: add_lowered_def LLGraph_addRule_def split: option.split)

lemma lowered_tables:
  assumes "deployed g tenant lsi0"
  shows "lowerGraphToLSI0 g tenant lsi0 conns mem =
      Inr (table tenant lsi0 True mem (lsi0_rule_id g) (rules g))"
    and "lowerGraphToTenantLSI g tenant mem =
      Inr (table tenant lsi0 False mem hr_ruleID (rules g))"
proof -
  have l: "\<forall>r \<in> set (rules g). lowers g tenant lsi0 conns (mem r) r"
    using assms lower_deployed by (auto simp: deployed_def)
  have a: "\<forall>r \<in> set (rules g). lower_rule_lsi0 g tenant lsi0 conns (mem r) r =
      Inr (lowered tenant lsi0 True (mem r) (lsi0_rule_id g r) r)"
    and b: "\<forall>r \<in> set (rules g). lower_rule_tenant tenant (mem r) r =
      Inr (lowered tenant lsi0 False (mem r) (hr_ruleID r) r)"
    using l by (simp_all add: lowers_def)
  show "lowerGraphToLSI0 g tenant lsi0 conns mem =
      Inr (table tenant lsi0 True mem (lsi0_rule_id g) (rules g))"
    using foldR_add_lowered[OF a, of "[]"] by (simp add: lowerGraphToLSI0_def table_def)
  show "lowerGraphToTenantLSI g tenant mem =
      Inr (table tenant lsi0 False mem hr_ruleID (rules g))"
    using foldR_add_lowered[OF b, of "[]"] by (simp add: lowerGraphToTenantLSI_def table_def)
qed

lemma in_table:
  "s \<in> set (table tenant lsi0 b mem ids rs) \<longleftrightarrow>
     (\<exists>r \<in> set rs. on_lsi0 (ent r) = b \<and> s = first_rule tenant lsi0 (mem r) (ids r) r \<or>
        on_lsi0 (ent r) \<noteq> b \<and> on_lsi0 (ext r) = b \<and> s = second_rule tenant lsi0 (mem r) (ids r) r)"
  by (auto simp: table_def lowered_def)

section \<open>Port numbers\<close>

lemma distinct_concat_same:
  "distinct (concat (map f xs)) \<Longrightarrow> x \<in> set xs \<Longrightarrow> y \<in> set xs \<Longrightarrow> z \<in> set (f x) \<Longrightarrow> z \<in> set (f y) \<Longrightarrow> x = y"
  by (induction xs) auto

lemma map_of_inj_snd:
  "distinct (map snd xs) \<Longrightarrow> map_of xs k = Some v \<Longrightarrow> map_of xs k' = Some v \<Longrightarrow> k = k'"
  by (auto dest!: map_of_SomeD simp: distinct_map dest: inj_onD[of snd _ "(k, v)" "(k', v)"])

lemma nf_num_listed:
  assumes "nf_num tenant nf i = Some n"
  obtains d where "(nf, d) \<in> set (network_functions tenant)"
    "map_of (ports_switch_id d) (nf_port_name nf i) = Some n" "n \<in> set (map snd (ports_switch_id d))"
proof -
  obtain d where "map_of (network_functions tenant) nf = Some d"
    "map_of (ports_switch_id d) (nf_port_name nf i) = Some n"
    using assms by (auto simp: nf_num_def Option.bind_eq_Some_conv)
  then show thesis using that by (force dest: map_of_SomeD)
qed

lemma nf_num_inj:
  assumes ok: "numbers_ok tenant lsi0"
    and n: "nf_num tenant nf i = Some n" and n': "nf_num tenant nf' i' = Some n"
  shows "nf = nf' \<and> i = i'"
proof -
  let ?f = "\<lambda>(nf, d). map snd (ports_switch_id d)"
  have dist: "distinct (concat (map ?f (network_functions tenant)))"
    using ok by (simp add: numbers_ok_def nf_numbers_def)
  obtain d where d: "(nf, d) \<in> set (network_functions tenant)"
    "map_of (ports_switch_id d) (nf_port_name nf i) = Some n" "n \<in> set (map snd (ports_switch_id d))"
    using n by (rule nf_num_listed)
  obtain d' where d': "(nf', d') \<in> set (network_functions tenant)"
    "map_of (ports_switch_id d') (nf_port_name nf' i') = Some n"
    "n \<in> set (map snd (ports_switch_id d'))"
    using n' by (rule nf_num_listed)
  have same: "nf' = nf" "d' = d"
    using distinct_concat_same[OF dist d(1) d'(1)] d(3) d'(3) by auto
  have "distinct (?f (nf, d))"
    using dist d(1) by (auto simp: distinct_concat_iff)
  then have "distinct (map snd (ports_switch_id d))" by simp
  from map_of_inj_snd[OF this d(2)] d'(2) have "nf_port_name nf i = nf_port_name nf' i'"
    unfolding same by simp
  then show ?thesis by (simp only: nf_port_name_inj)
qed

lemma num_listed:
  "map_of xs k = Some n \<Longrightarrow> n \<in> set (map snd xs)"
  by (force dest: map_of_SomeD)

lemma nf_num_in_numbers: "nf_num tenant nf i = Some n \<Longrightarrow> n \<in> set (nf_numbers tenant)"
  by (elim nf_num_listed) (force simp: nf_numbers_def)

lemma numbers_okD:
  assumes "numbers_ok tenant lsi0"
  shows "distinct (map snd (physical_ports lsi0))" "distinct (map snd (endpoints_ports_id tenant))"
    "set (nf_numbers tenant) \<inter> set (map snd (endpoints_ports_id tenant)) = {}"
    "v \<in> set (virtual_links tenant) \<Longrightarrow> remote_id v \<notin> set (map snd (physical_ports lsi0))"
    "v \<in> set (virtual_links tenant) \<Longrightarrow> local_id v \<notin> set (map snd (endpoints_ports_id tenant))"
    "v \<in> set (virtual_links tenant) \<Longrightarrow> local_id v \<notin> set (nf_numbers tenant)"
  using assms by (auto simp: numbers_ok_def)

lemma point_num_inj:
  assumes ok: "numbers_ok tenant lsi0" and same: "on_lsi0 e = on_lsi0 e'"
    and p: "point_num tenant lsi0 e = Some p" and p': "point_num tenant lsi0 e' = Some p"
  shows "e = e'"
proof -
  note d = numbers_okD[OF ok]
  have mixed: False if "nf_num tenant nf i = Some p" "gre_num tenant g = Some p" for nf i g
    using nf_num_in_numbers[OF that(1)] num_listed[OF that(2)[unfolded gre_num_def]] d(3) by blast
  show ?thesis
  proof (cases e)
    case (PhysPort k)
    then show ?thesis
      using same p p' by (cases e') (auto simp: phys_num_def dest: map_of_inj_snd[OF d(1)])
  next
    case (NFPort nf i)
    then show ?thesis
      using same p p' by (cases e') (auto dest: mixed nf_num_inj[OF ok])
  next
    case (GrePoint k)
    then show ?thesis
      using same p p' by (cases e') (auto dest: mixed simp: gre_num_def intro: map_of_inj_snd[OF d(2)])
  qed
qed

lemma point_num_not_link:
  assumes ok: "numbers_ok tenant lsi0" and v: "v \<in> set (virtual_links tenant)"
  shows "point_num tenant lsi0 e \<noteq> Some (here_num (on_lsi0 e) v)"
proof
  assume p: "point_num tenant lsi0 e = Some (here_num (on_lsi0 e) v)"
  note d = numbers_okD(4-6)[OF ok v]
  show False
    using p d
    by (cases e) (auto simp: here_num_def phys_num_def gre_num_def simp del: set_map
        dest: num_listed nf_num_in_numbers)
qed

lemma here_num_inj:
  assumes "numbers_ok tenant lsi0" "v \<in> set (virtual_links tenant)" "v' \<in> set (virtual_links tenant)"
    "here_num b v = here_num b v'"
  shows "v = v'"
  using assms by (auto simp: numbers_ok_def here_num_def distinct_map split: if_splits dest: inj_onD)

lemma link_of_SomeD:
  "link_of tenant m k = Some v \<Longrightarrow> map_of m k = Some (vl_ID v) \<and> v \<in> set (virtual_links tenant)"
  by (auto simp: link_of_def Option.bind_eq_Some_conv find_Some_iff)

lemma link_to_listed: "link_to tenant x = Some v \<Longrightarrow> v \<in> set (virtual_links tenant)"
  by (cases x) (auto dest: link_of_SomeD)

lemma link_to_inj:
  assumes ok: "links_ok tenant" and same: "on_lsi0 x = on_lsi0 x'"
    and v: "link_to tenant x = Some v" and v': "link_to tenant x' = Some v"
  shows "x = x'"
proof -
  have d: "distinct (map snd (nfs_vlinks tenant))" "distinct (map snd (endpoints_gre_vlinks tenant))"
    "distinct (map snd (ports_vlinks tenant))"
    "set (map snd (nfs_vlinks tenant)) \<inter> set (map snd (endpoints_gre_vlinks tenant)) = {}"
    using ok by (simp_all add: links_ok_def)
  have mixed: False if "link_of tenant (nfs_vlinks tenant) k = Some v"
    "link_of tenant (endpoints_gre_vlinks tenant) k' = Some v" for k k'
    using num_listed[OF conjunct1[OF link_of_SomeD[OF that(1)]]]
      num_listed[OF conjunct1[OF link_of_SomeD[OF that(2)]]] d(4) by blast
  have inj: "k = k'" if "distinct (map snd m)" "link_of tenant m k = Some v" "link_of tenant m k' = Some v" for m k k'
    by (rule map_of_inj_snd[OF that(1) conjunct1[OF link_of_SomeD[OF that(2)]]
          conjunct1[OF link_of_SomeD[OF that(3)]]])
  show ?thesis
  proof (cases x)
    case (PhysPort k)
    then show ?thesis using same v v' by (cases x') (auto intro: inj[OF d(3)])
  next
    case x: (NFPort nf i)
    show ?thesis
    proof (cases x')
      case x': (NFPort nf' i')
      have "nf_port_name nf i = nf_port_name nf' i'"
        by (rule inj[OF d(1)]) (use v v' x x' in simp_all)
      then show ?thesis by (simp add: x x' nf_port_name_inj)
    qed (use same v v' x mixed in simp_all)
  next
    case x: (GrePoint k)
    show ?thesis
    proof (cases x')
      case x': (GrePoint k')
      have "k = k'" by (rule inj[OF d(2)]) (use v v' x x' in simp_all)
      then show ?thesis by (simp add: x x')
    qed (use same v v' x mixed in simp_all)
  qed
qed

section \<open>The two stages\<close>

lemma first_rule_matches:
  assumes "rule_deployed tenant lsi0 r"
  shows "ll_matches sat p k (first_rule tenant lsi0 mem i r) \<longleftrightarrow>
     point_num tenant lsi0 (ent r) = Some p \<and> (\<forall>c \<in> set (fill_common (hr_match r)). sat c k)"
proof -
  have "ll_matches sat p k (first_rule tenant lsi0 mem i r) \<longleftrightarrow>
      p = the (point_num tenant lsi0 (ent r)) \<and> (\<forall>c \<in> set (fill_common (hr_match r)). sat c k)"
    by (rule ll_matches_copy) (simp_all add: first_rule_def rule_deployedD(2)[OF assms])
  then show ?thesis using rule_deployedD(7)[OF assms] by auto
qed

lemma second_rule_matches:
  "ll_matches sat p k (second_rule tenant lsi0 mem i r) \<longleftrightarrow>
     p = here_num (on_lsi0 (ext r)) (the (link_to tenant (ext r)))"
  by (rule ll_matches_link) (simp add: second_rule_def)

lemma ll_run_first:
  "ll_run act (first_rule tenant lsi0 mem i r) k =
     [(first_out tenant lsi0 r, hl_effect act (hr_action r) k)]"
  by (rule ll_run_generic) (simp add: first_rule_def)

lemma ll_run_second:
  "ll_run act (second_rule tenant lsi0 mem i r) k = [(the (point_num tenant lsi0 (ext r)), k)]"
  by (rule ll_run_port) (simp add: second_rule_def)

lemma ll_priority_stage [simp]:
  "ll_priority (first_rule tenant lsi0 mem i r) = hr_priority r"
  "ll_priority (second_rule tenant lsi0 mem i r) = hr_priority r"
  by (simp_all add: first_rule_def second_rule_def)

lemma hl_matches_ent:
  "rule_deployed tenant lsi0 r \<Longrightarrow>
     hl_matches sat e k r \<longleftrightarrow> ent r = e \<and> (\<forall>c \<in> set (fill_common (hr_match r)). sat c k)"
  using rule_deployedD(4) by (auto simp: hl_matches_def)

text \<open>A table whose matching entries come from the rules in \<open>Q\<close>, by a function that keeps priorities.\<close>

lemma switch_out_best:
  assumes m: "\<And>s. s \<in> set t \<and> ll_matches sat p k s \<longleftrightarrow> (\<exists>r. Q r \<and> s = f r)"
    and pri: "\<And>r. ll_priority (f r) = hr_priority r"
    and wire: "\<And>r. Q r \<Longrightarrow> wire_priority (hr_priority r) = unat (hr_priority r)"
  shows "x \<in> switch_out sat act t p k \<longleftrightarrow>
     (\<exists>r. Q r \<and> (\<forall>r'. Q r' \<longrightarrow> hr_priority r' \<le> hr_priority r) \<and> x \<in> set (ll_run act (f r) k))"
proof -
  have all: "(\<forall>s'. (\<exists>r. Q r \<and> s' = f r) \<longrightarrow> wire_priority (ll_priority s') \<le> n) \<longleftrightarrow>
      (\<forall>r'. Q r' \<longrightarrow> unat (hr_priority r') \<le> n)" for n
    by (metis pri wire)
  have "x \<in> switch_out sat act t p k \<longleftrightarrow>
      (\<exists>s. (s \<in> set t \<and> ll_matches sat p k s) \<and>
        (\<forall>s'. s' \<in> set t \<and> ll_matches sat p k s' \<longrightarrow> wire_priority (ll_priority s') \<le> wire_priority (ll_priority s)) \<and>
        x \<in> set (ll_run act s k))"
    by (simp only: switch_out_rules Bex_def Ball_def conj_assoc imp_conjL)
  also have "\<dots> \<longleftrightarrow>
      (\<exists>r. Q r \<and> (\<forall>r'. Q r' \<longrightarrow> hr_priority r' \<le> hr_priority r) \<and> x \<in> set (ll_run act (f r) k))"
    unfolding m all by (auto simp: pri wire word_le_nat_alt)
  finally show ?thesis .
qed

lemma first_stage_matches:
  assumes dep: "deployed g tenant lsi0" and p: "point_num tenant lsi0 e = Some p"
  shows "s \<in> set (table tenant lsi0 (on_lsi0 e) mem ids (rules g)) \<and> ll_matches sat p k s \<longleftrightarrow>
     (\<exists>r. (r \<in> set (rules g) \<and> hl_matches sat e k r) \<and> s = first_rule tenant lsi0 (mem r) (ids r) r)"
proof -
  have rd: "rule_deployed tenant lsi0 r" if "r \<in> set (rules g)" for r
    using dep that by (simp add: deployed_def)
  have ok: "numbers_ok tenant lsi0" using dep by (simp add: deployed_def)
  have first: "on_lsi0 (ent r) = on_lsi0 e \<and> ll_matches sat p k (first_rule tenant lsi0 m i r) \<longleftrightarrow>
      hl_matches sat e k r" if r: "r \<in> set (rules g)" for r m i
    using first_rule_matches[OF rd[OF r]] hl_matches_ent[OF rd[OF r]] p point_num_inj[OF ok _ p]
    by metis
  have second: "\<not> ll_matches sat p k (second_rule tenant lsi0 m i r)"
    if r: "r \<in> set (rules g)" "on_lsi0 (ent r) \<noteq> on_lsi0 e" "on_lsi0 (ext r) = on_lsi0 e" for r m i
  proof -
    obtain v where v: "link_to tenant (ext r) = Some v"
      using rule_deployedD(9)[OF rd[OF r(1)]] r(2,3) by auto
    show ?thesis
      using point_num_not_link[OF ok link_to_listed[OF v], of e] p v r(3)
      by (auto simp: second_rule_matches)
  qed
  show ?thesis using first second by (auto simp: in_table)
qed

lemma rules_wire:
  "deployed g tenant lsi0 \<Longrightarrow> r \<in> set (rules g) \<Longrightarrow> wire_priority (hr_priority r) = unat (hr_priority r)"
  using rule_deployedD(10) by (auto simp: deployed_def)

lemma first_stage:
  assumes dep: "deployed g tenant lsi0" and p: "point_num tenant lsi0 e = Some p"
  shows "(q, k1) \<in> switch_out sat act (table tenant lsi0 (on_lsi0 e) mem ids (rules g)) p k \<longleftrightarrow>
     (\<exists>r. hl_best sat (rules g) e k r \<and> q = first_out tenant lsi0 r \<and> k1 = hl_effect act (hr_action r) k)"
proof -
  note wire = rules_wire[OF dep]
  have "(q, k1) \<in> switch_out sat act (table tenant lsi0 (on_lsi0 e) mem ids (rules g)) p k \<longleftrightarrow>
      (\<exists>r. (r \<in> set (rules g) \<and> hl_matches sat e k r) \<and>
        (\<forall>r'. r' \<in> set (rules g) \<and> hl_matches sat e k r' \<longrightarrow> hr_priority r' \<le> hr_priority r) \<and>
        (q, k1) \<in> set (ll_run act (first_rule tenant lsi0 (mem r) (ids r) r) k))"
    by (rule switch_out_best[OF first_stage_matches[OF dep p]]) (auto dest: wire)
  then show ?thesis by (simp only: ll_run_first hl_best_def) auto
qed

definition crosses :: "LSI \<Rightarrow> HLRule list \<Rightarrow> bool \<Rightarrow> VLink \<Rightarrow> HLRule \<Rightarrow> bool" where
  "crosses tenant rs c v r =
     (r \<in> set rs \<and> on_lsi0 (ent r) \<noteq> c \<and> on_lsi0 (ext r) = c \<and> link_to tenant (ext r) = Some v)"

lemma second_stage_matches:
  assumes dep: "deployed g tenant lsi0" and v: "v \<in> set (virtual_links tenant)"
  shows "s \<in> set (table tenant lsi0 c mem ids (rules g)) \<and> ll_matches sat (here_num c v) k s \<longleftrightarrow>
     (\<exists>r. crosses tenant (rules g) c v r \<and> s = second_rule tenant lsi0 (mem r) (ids r) r)"
proof -
  have rd: "rule_deployed tenant lsi0 r" if "r \<in> set (rules g)" for r
    using dep that by (simp add: deployed_def)
  have ok: "numbers_ok tenant lsi0" using dep by (simp add: deployed_def)
  have first: "\<not> ll_matches sat (here_num c v) k (first_rule tenant lsi0 m i r)"
    if "r \<in> set (rules g)" "on_lsi0 (ent r) = c" for r m i
    using point_num_not_link[OF ok v, of "ent r"] that(2)
    by (simp add: first_rule_matches[OF rd[OF that(1)]])
  have second: "ll_matches sat (here_num c v) k (second_rule tenant lsi0 m i r) \<longleftrightarrow>
      link_to tenant (ext r) = Some v"
    if r: "r \<in> set (rules g)" "on_lsi0 (ent r) \<noteq> c" "on_lsi0 (ext r) = c" for r m i
  proof -
    obtain w where w: "link_to tenant (ext r) = Some w"
      using rule_deployedD(9)[OF rd[OF r(1)]] r(2,3) by auto
    show ?thesis
      using here_num_inj[OF ok v link_to_listed[OF w], of c] w r(3) by (auto simp: second_rule_matches)
  qed
  show ?thesis using first second by (auto simp: in_table crosses_def)
qed

lemma ex_best:
  "finite A \<Longrightarrow> A \<noteq> {} \<Longrightarrow> \<exists>b \<in> A. \<forall>x \<in> A. (f x :: 'b :: linorder) \<le> f b"
  by (induction A rule: finite_ne_induct) (auto, meson linear order_trans)

lemma second_stage:
  assumes dep: "deployed g tenant lsi0" and r: "crosses tenant (rules g) c v r"
  shows "(q, k2) \<in> switch_out sat act (table tenant lsi0 c mem ids (rules g)) (here_num c v) k \<longleftrightarrow>
     q = the (point_num tenant lsi0 (ext r)) \<and> k2 = k"
proof -
  let ?C = "crosses tenant (rules g) c v"
  note wire = rules_wire[OF dep]
  have v: "v \<in> set (virtual_links tenant)" using r link_to_listed by (auto simp: crosses_def)
  have same: "ext r' = ext r" if "?C r'" for r'
    using that r dep link_to_inj[of tenant "ext r'" "ext r" v] by (auto simp: crosses_def deployed_def)
  have "{r'. ?C r'} \<subseteq> set (rules g)" by (auto simp: crosses_def)
  then have fin: "finite {r'. ?C r'}" by (rule finite_subset) simp
  obtain b where b: "?C b" "\<forall>r'. ?C r' \<longrightarrow> hr_priority r' \<le> hr_priority b"
    using ex_best[OF fin, of hr_priority] r by auto
  have "(q, k2) \<in> switch_out sat act (table tenant lsi0 c mem ids (rules g)) (here_num c v) k \<longleftrightarrow>
      (\<exists>r'. ?C r' \<and> (\<forall>r''. ?C r'' \<longrightarrow> hr_priority r'' \<le> hr_priority r') \<and>
        (q, k2) \<in> set (ll_run act (second_rule tenant lsi0 (mem r') (ids r') r') k))"
    by (rule switch_out_best[OF second_stage_matches[OF dep v]]) (auto dest: wire simp: crosses_def)
  also have "\<dots> \<longleftrightarrow> q = the (point_num tenant lsi0 (ext r)) \<and> k2 = k"
    using b same by (auto simp: ll_run_second)
  finally show ?thesis .
qed

lemma rule_outcome:
  assumes dep: "deployed g tenant lsi0" and r: "r \<in> set (rules g)" "ent r = e"
  shows "leaves_at sat act tenant lsi0 (\<lambda>b. table tenant lsi0 b mem (ids b) (rules g)) (on_lsi0 e)
       (first_out tenant lsi0 r) k1 x k2 \<longleftrightarrow> x = ext r \<and> k2 = k1"
proof -
  have ok: "numbers_ok tenant lsi0" "links_ok tenant" and rd: "rule_deployed tenant lsi0 r"
    using dep r by (auto simp: deployed_def)
  obtain n where n: "point_num tenant lsi0 (ext r) = Some n" using rule_deployedD(8)[OF rd] by auto
  show ?thesis
  proof (cases "on_lsi0 e = on_lsi0 (ext r)")
    case same: True
    then have fo: "first_out tenant lsi0 r = n" using n r(2) by (simp add: first_out_def)
    have "here_num (on_lsi0 e) v \<noteq> n" if "v \<in> set (virtual_links tenant)" for v
      using point_num_not_link[OF ok(1) that, of "ext r"] n same by auto
    then show ?thesis
      using fo same n point_num_inj[OF ok(1) _ _ n, of x] by (auto simp: leaves_at_def)
  next
    case cross: False
    then obtain v where v: "link_to tenant (ext r) = Some v"
      using rule_deployedD(9)[OF rd] r(2) by auto
    note vl = link_to_listed[OF v]
    have fo: "first_out tenant lsi0 r = here_num (on_lsi0 e) v"
      using cross v r(2) by (simp add: first_out_def)
    have st: "(q2, k2) \<in> switch_out sat act (table tenant lsi0 c mem (ids c) (rules g)) (here_num c v) k1 \<longleftrightarrow>
        q2 = n \<and> k2 = k1" if "c = on_lsi0 (ext r)" for q2 c
      using second_stage[OF dep, of c v r] r v cross n that by (simp add: crosses_def)
    have "leaves_at sat act tenant lsi0 (\<lambda>b. table tenant lsi0 b mem (ids b) (rules g)) (on_lsi0 e)
        (first_out tenant lsi0 r) k1 x k2 \<longleftrightarrow>
        on_lsi0 x \<noteq> on_lsi0 e \<and>
        (\<exists>q2. (q2, k2) \<in> switch_out sat act (table tenant lsi0 (on_lsi0 x) mem (ids (on_lsi0 x)) (rules g))
                 (here_num (on_lsi0 x) v) k1 \<and> point_num tenant lsi0 x = Some q2)"
      using vl here_num_inj[OF ok(1) _ vl] point_num_not_link[OF ok(1) vl, of x]
      unfolding fo leaves_at_def by auto
    also have "\<dots> \<longleftrightarrow> on_lsi0 x = on_lsi0 (ext r) \<and> point_num tenant lsi0 x = Some n \<and> k2 = k1"
      using st[of "on_lsi0 x"] cross by auto
    also have "\<dots> \<longleftrightarrow> x = ext r \<and> k2 = k1" using n point_num_inj[OF ok(1) _ _ n] by metis
    finally show ?thesis .
  qed
qed

lemma net_outcomes_tables:
  assumes dep: "deployed g tenant lsi0"
  shows "net_outcomes sat act tenant lsi0 (\<lambda>b. table tenant lsi0 b mem (ids b) (rules g)) e k =
     hl_outcomes sat act (rules g) e k"
proof -
  have rd: "rule_deployed tenant lsi0 r" if "r \<in> set (rules g)" for r
    using dep that by (simp add: deployed_def)
  have best: "r \<in> set (rules g) \<and> ent r = e \<and> exit_point (hl_out (hr_action r)) = Some (ext r)"
    if "hl_best sat (rules g) e k r" for r
  proof -
    have r: "r \<in> set (rules g)" "hl_matches sat e k r" using that by (simp_all add: hl_best_def)
    then show ?thesis
      using hl_matches_ent[OF rd[OF r(1)], of sat e k] rule_deployedD(5)[OF rd[OF r(1)]] by simp
  qed
  show ?thesis
  proof (cases "point_num tenant lsi0 e")
    case None
    then have "\<not> hl_best sat (rules g) e k r" for r
      using best[of r] rule_deployedD(7)[OF rd, of r] by auto
    then show ?thesis using None by (simp add: net_outcomes_def hl_outcomes_def)
  next
    case (Some p)
    note first = first_stage[OF dep Some, of _ _ sat act mem "ids (on_lsi0 e)" k]
    have "(x, k2) \<in> net_outcomes sat act tenant lsi0 (\<lambda>b. table tenant lsi0 b mem (ids b) (rules g)) e k \<longleftrightarrow>
        (\<exists>r. hl_best sat (rules g) e k r \<and> x = ext r \<and> k2 = hl_effect act (hr_action r) k)" for x k2
    proof -
      let ?L = "\<lambda>q k1. leaves_at sat act tenant lsi0 (\<lambda>b. table tenant lsi0 b mem (ids b) (rules g))
          (on_lsi0 e) q k1 x k2"
      have "(x, k2) \<in> net_outcomes sat act tenant lsi0 (\<lambda>b. table tenant lsi0 b mem (ids b) (rules g)) e k \<longleftrightarrow>
          (\<exists>r. hl_best sat (rules g) e k r \<and> ?L (first_out tenant lsi0 r) (hl_effect act (hr_action r) k))"
        by (simp add: net_outcomes_def Some first) blast
      also have "\<dots> \<longleftrightarrow> (\<exists>r. hl_best sat (rules g) e k r \<and> x = ext r \<and> k2 = hl_effect act (hr_action r) k)"
        by (intro ex_cong1 conj_cong refl rule_outcome[OF dep]) (use best in blast)+
      finally show ?thesis .
    qed
    then show ?thesis using best by (fastforce simp: hl_outcomes_def)
  qed
qed



definition ex_tenant :: LSI where
  "ex_tenant =
     \<lparr>controllerAddress = ''127.0.0.1'', controllerPort = ''6653'', dpid = 2, physical_ports = [],
      gre_endpoints_ports = [], endpoints_ports_id = [(''9'', 4)],
      network_functions = [(''01'', nfData_new\<lparr>ports_switch_id := [(nf_port_name ''01'' 1, 1)]\<rparr>)],
      virtual_links = [\<lparr>vl_ID = 0, remote_dpid = 1, local_id = 2, remote_id = 3\<rparr>],
      nfs_vlinks = [(nf_port_name ''01'' 1, 0)], ports_vlinks = [(''eth1'', 0)], endpoints_vlinks = [],
      endpoints_gre_vlinks = []\<rparr>"

definition ex_lsi0 :: LSI where
  "ex_lsi0 =
     \<lparr>controllerAddress = ''127.0.0.1'', controllerPort = ''6653'', dpid = 1,
      physical_ports = [(''eth0'', 1), (''eth1'', 2)], gre_endpoints_ports = [],
      endpoints_ports_id = [], network_functions = [], virtual_links = [], nfs_vlinks = [],
      ports_vlinks = [], endpoints_vlinks = [], endpoints_gre_vlinks = []\<rparr>"

lemma ex_numbers: "numbers_ok ex_tenant ex_lsi0" "links_ok ex_tenant"
  by (simp_all add: numbers_ok_def links_ok_def nf_numbers_def ex_tenant_def ex_lsi0_def)

lemma ex_nums:
  "phys_num ex_lsi0 ''eth0'' = Some 1" "phys_num ex_lsi0 ''eth1'' = Some 2"
  "nf_num ex_tenant ''01'' 1 = Some 1"
  "link_of ex_tenant (nfs_vlinks ex_tenant) (nf_port_name ''01'' 1) =
     Some \<lparr>vl_ID = 0, remote_dpid = 1, local_id = 2, remote_id = 3\<rparr>"
  "link_of ex_tenant (ports_vlinks ex_tenant) ''eth1'' =
     Some \<lparr>vl_ID = 0, remote_dpid = 1, local_id = 2, remote_id = 3\<rparr>"
  "gre_num ex_tenant ''9'' = Some 4"
  by (simp_all add: phys_num_def nf_num_def gre_num_def link_of_def ex_tenant_def ex_lsi0_def)

lemma wf_ex_matches: "wf_match (ex_match_port p)" "wf_match ex_match_nf"
  by (simp_all add: ex_defs wf_match_def Match_new_def)

lemma ex_deployed: "deployed ex_old ex_tenant ex_lsi0"
  unfolding deployed_def
proof (intro conjI ex_numbers ballI)
  fix r assume "r \<in> set (rules ex_old)"
  then consider "r = ex_rule_in" | "r = ex_rule_out ''2'' ''eth1''"
    by (auto simp: ex_old_def HLGraph_new_def)
  then show "rule_deployed ex_tenant ex_lsi0 r"
  proof cases
    case 1
    show ?thesis unfolding 1 rule_deployed_def ex_rule_in_def HLRule.simps
      using wf_ex_matches(1)[of "''eth0''"]
      by (simp add: ex_nums) (simp add: ex_defs wf_input_def entry_point_def ex_nums Match_new_def)
  next
    case 2
    show ?thesis unfolding 2 rule_deployed_def ex_rule_out_def HLRule.simps
      using wf_ex_matches(2)
      by (simp add: ex_nums) (simp add: ex_defs wf_input_def entry_point_def ex_nums Match_new_def)
  qed
qed

lemma ex_points:
  "rules ex_old = [ex_rule_in, ex_rule_out ''2'' ''eth1'']"
  "entry_point (hr_match ex_rule_in) = Some (PhysPort ''eth0'')"
  "entry_point (hr_match (ex_rule_out i p)) = Some (NFPort ''01'' 1)"
  "exit_point (hl_out (hr_action ex_rule_in)) = Some (NFPort ''01'' 1)"
  "genericActions (hr_action ex_rule_in) = []"
  by (simp_all add: ex_defs entry_point_def)

lemma ex_outcomes: "hl_outcomes (\<lambda>_ _. True) (\<lambda>_ k. k) (rules ex_old) (PhysPort ''eth0'') k = {(NFPort ''01'' 1, k)}"
proof -
  have "hl_best (\<lambda>_ _. True) (rules ex_old) (PhysPort ''eth0'') k r \<longleftrightarrow> r = ex_rule_in" for r
    by (auto simp: hl_best_def hl_matches_def ex_points)
  then show ?thesis by (simp add: hl_outcomes_def ex_points hl_effect_def)
qed


lemma switch_out_one:
  "x \<in> switch_out sat act [s] p k \<longleftrightarrow> ll_matches sat p k s \<and> x \<in> set (ll_run act s k)"
  by (auto simp: switch_out_rules)

section \<open>From a GRE endpoint to a physical port\<close>

definition gre_port_ready :: "LSI \<Rightarrow> LSI \<Rightarrow> HLRule \<Rightarrow> string \<Rightarrow> string \<Rightarrow> VLink \<Rightarrow> bool" where
  "gre_port_ready tenant lsi0 r ep q v =
     (wf_input (hr_match r) \<and> wf_match (hr_match r) \<and>
      (ipv6_dst (hr_match r) = None \<or> gre_key (hr_match r) \<noteq> None) \<and>
      entry_point (hr_match r) = Some (GrePoint ep) \<and> length ep < 64 \<and>
      exit_point (hl_out (hr_action r)) = Some (PhysPort q) \<and>
      gre_num tenant ep \<noteq> None \<and> phys_num lsi0 q \<noteq> None \<and>
      link_of tenant (ports_vlinks tenant) q = Some v)"

lemma gre_port_lowered:
  assumes ready: "gre_port_ready tenant lsi0 r ep q v" and g: "rules g = [r]"
  shows "lowerGraphToLSI0 g tenant lsi0 conns mem =
      Inr [\<lparr>ll_priority = hr_priority r,
            ll_match = LLMatch_setInputPort (remote_id v) (copy_fields (hr_match r) (LLMatch_new (mem r))),
            ll_action = with_generic (the (phys_num lsi0 q)) (hr_action r), flowID = lsi0_rule_id g r\<rparr>]"
    and "lowerGraphToTenantLSI g tenant mem =
      Inr [\<lparr>ll_priority = hr_priority r,
            ll_match = LLMatch_setInputPort (the (gre_num tenant ep))
              (copy_fields (hr_match r) (LLMatch_new (mem r))),
            ll_action = with_generic (local_id v) (hr_action r), flowID = hr_ruleID r\<rparr>]"
proof -
  note R = ready[unfolded gre_port_ready_def]
  obtain y where x: "hl_out (hr_action r) = ActionPort q y"
    using R by (cases "hl_out (hr_action r)") auto
  have e: "match_type (hr_match r) = MATCH_ENDPOINT_GRE"
    using R by (auto simp: entry_point_def split: match_t.splits)
  obtain s where s: "input_endpoint (hr_match r) = Some s" "ep = colon_piece 1 s"
    using R e by (auto simp: wf_input_def entry_point_def)
  have c: "setAllCommonFields (hr_match r) (LLMatch_new (mem r)) =
      Inr (copy_fields (hr_match r) (LLMatch_new (mem r)))"
    using R copy_defined by blast
  obtain n m where nm: "map_of (endpoints_ports_id tenant) ep = Some n" "map_of (physical_ports lsi0) q = Some m"
    using R by (auto simp: gre_num_def phys_num_def)
  have l: "link_of tenant (ports_vlinks tenant) q = Some v" and len: "length ep < 64"
    using R by simp_all
  note v = vlink_by_name_link_of[OF l]
  have oc: "om_count (ports_vlinks tenant) q"
    using link_of_SomeD[OF l] by (simp add: om_count_def)
  show "lowerGraphToLSI0 g tenant lsi0 conns mem =
      Inr [\<lparr>ll_priority = hr_priority r,
            ll_match = LLMatch_setInputPort (remote_id v) (copy_fields (hr_match r) (LLMatch_new (mem r))),
            ll_action = with_generic (the (phys_num lsi0 q)) (hr_action r), flowID = lsi0_rule_id g r\<rparr>]"
    using e x nm v oc by (simp add: lowerGraphToLSI0_def g lower_rule_lsi0_def lsi0_skips_def matchOn_defs
        getType_def lsi0_from_gre_def c phys_num_def add_lowered_def LLGraph_addRule_def)
  show "lowerGraphToTenantLSI g tenant mem =
      Inr [\<lparr>ll_priority = hr_priority r,
            ll_match = LLMatch_setInputPort (the (gre_num tenant ep))
              (copy_fields (hr_match r) (LLMatch_new (mem r))),
            ll_action = with_generic (local_id v) (hr_action r), flowID = hr_ruleID r\<rparr>]"
    using e x nm v s len by (simp add: lowerGraphToTenantLSI_def g lower_rule_tenant_def tenant_skips_def
        matchOn_defs getType_def tenant_from_gre_def c getInputEndpoint_def copy_64_def
        endpoint_port_def gre_num_def add_lowered_def LLGraph_addRule_def)
qed


definition ex_gre_rule :: HLRule where
  "ex_gre_rule =
     \<lparr>hr_match = snd (setEndPointGre ''9'' (snd (setInputEndpoint ''endpoint:9'' (HLMatch_new zero_HLMatch)))),
      hr_action = \<lparr>hl_out = ActionPort ''eth1'' ''endpoint:2'',
        genericActions = [VlanAction ACTION_VLAN_PUSH '''' 25]\<rparr>,
      hr_priority = 1, hr_ruleID = ''1''\<rparr>"

definition ex_gre_graph :: HLGraph where
  "ex_gre_graph = (HLGraph_new ''g'')\<lparr>rules := [ex_gre_rule]\<rparr>"

lemma ex_piece: "colon_piece (Suc 0) ''endpoint:9'' = ''9''"
  by code_simp

lemma ex_gre_ready:
  "gre_port_ready ex_tenant ex_lsi0 ex_gre_rule ''9'' ''eth1''
     \<lparr>vl_ID = 0, remote_dpid = 1, local_id = 2, remote_id = 3\<rparr>"
  unfolding gre_port_ready_def
  by (intro conjI) (simp_all add: ex_nums, simp_all add: ex_gre_rule_def ex_defs setEndPointGre_def
      wf_input_def wf_match_def Match_new_def entry_point_def ex_piece)


end
