(* ===== verification/Exec_Monad.thy ===== *)
theory Exec_Monad
  imports UN_Prelude
begin

text \<open>
  Operations that change a state and may end in a fault, where the state after the fault
  matters: the manager of the graphs keeps running after an exception, with what the operation
  had changed so far. An operation maps a state to a result and the state it leaves behind.

  \<open>ensures P m Q E\<close> says what holds when \<open>m\<close> returns (\<open>Q\<close>) and when it ends in a fault
  (\<open>E\<close>), for every state with \<open>P\<close>; the rules for the combinators are collected in
  \<open>ensures_intros\<close>.
\<close>

named_theorems ensures_intros "rules for the combinators of operations"

type_synonym ('s, 'a) exec = "'s \<Rightarrow> 'a result \<times> 's"

definition returnS :: "'a \<Rightarrow> ('s, 'a) exec" where
  "returnS x s = (Inr x, s)"

definition throwS :: "fault \<Rightarrow> ('s, 'a) exec" where
  "throwS e s = (Inl e, s)"

definition bindS :: "('s, 'a) exec \<Rightarrow> ('a \<Rightarrow> ('s, 'b) exec) \<Rightarrow> ('s, 'b) exec" where
  "bindS m f s = (case m s of (Inl e, s') \<Rightarrow> (Inl e, s') | (Inr x, s') \<Rightarrow> f x s')"

definition liftS :: "'a result \<Rightarrow> ('s, 'a) exec" where
  "liftS r s = (r, s)"

definition getsS :: "('s \<Rightarrow> 'a) \<Rightarrow> ('s, 'a) exec" where
  "getsS f s = (Inr (f s), s)"

definition modifyS :: "('s \<Rightarrow> 's) \<Rightarrow> ('s, unit) exec" where
  "modifyS f s = (Inr (), f s)"

text \<open>The exceptions of the orchestrator and of rofl, as opposed to the faults that stop it.\<close>

definition thrown :: "fault \<Rightarrow> bool" where
  "thrown e = (e \<in> {BadVersion, GraphManagerException, SwitchManagerException, GraphException})"

text \<open>\<open>try { m } catch (c) { h }\<close> for the exceptions \<open>c\<close> accepts.\<close>

definition catchS :: "('s, 'a) exec \<Rightarrow> (fault \<Rightarrow> bool) \<Rightarrow> (fault \<Rightarrow> ('s, 'a) exec) \<Rightarrow> ('s, 'a) exec" where
  "catchS m c h s =
     (case m s of (Inl e, s') \<Rightarrow> if thrown e \<and> c e then h e s' else (Inl e, s') | (Inr x, s') \<Rightarrow> (Inr x, s'))"

fun forS :: "('a \<Rightarrow> ('s, unit) exec) \<Rightarrow> 'a list \<Rightarrow> ('s, unit) exec" where
  "forS f [] = returnS ()"
| "forS f (x # xs) = bindS (f x) (\<lambda>_. forS f xs)"

definition whenS :: "bool \<Rightarrow> ('s, unit) exec \<Rightarrow> ('s, unit) exec" where
  "whenS b m = (if b then m else returnS ())"

lemma exec_simps:
  "returnS x s = (Inr x, s)" "throwS e s = (Inl e, s)" "liftS r s = (r, s)"
  "getsS f s = (Inr (f s), s)" "modifyS h s = (Inr (), h s)"
  "whenS True m = m" "whenS False m = returnS ()"
  by (simp_all add: returnS_def throwS_def liftS_def getsS_def modifyS_def whenS_def)

lemma bindS_simps [simp]:
  "bindS (returnS x) f = f x" "bindS (throwS e) f = throwS e" "bindS (liftS (Inr x)) f = f x"
  "bindS (liftS (Inl e)) f = throwS e" "bindS (getsS g) f = (\<lambda>s. f (g s) s)"
  "bindS (modifyS h) k = (\<lambda>s. k () (h s))"
  by (simp_all add: bindS_def fun_eq_iff exec_simps)

lemma bindS_assoc: "bindS (bindS m f) g = bindS m (\<lambda>x. bindS (f x) g)"
  by (auto simp: bindS_def fun_eq_iff split: prod.split sum.split)

lemma bindS_Inr_iff:
  "bindS m f s = (Inr y, t) \<longleftrightarrow> (\<exists>x u. m s = (Inr x, u) \<and> f x u = (Inr y, t))"
  by (auto simp: bindS_def split: prod.split sum.split)

lemma forS_append: "forS f (xs @ ys) = bindS (forS f xs) (\<lambda>_. forS f ys)"
  by (induction xs) (simp_all add: bindS_assoc)

section \<open>Conditions before and after\<close>

definition ensures :: "('s \<Rightarrow> bool) \<Rightarrow> ('s, 'a) exec \<Rightarrow> ('a \<Rightarrow> 's \<Rightarrow> bool) \<Rightarrow> (fault \<Rightarrow> 's \<Rightarrow> bool) \<Rightarrow> bool" where
  "ensures P m Q E \<longleftrightarrow>
     (\<forall>s. P s \<longrightarrow> (case m s of (Inl e, s') \<Rightarrow> E e s' | (Inr x, s') \<Rightarrow> Q x s'))"

lemma ensuresD: "ensures P m Q E \<Longrightarrow> P s \<Longrightarrow> m s = (Inr x, t) \<Longrightarrow> Q x t"
  by (fastforce simp: ensures_def)

lemma ensures_faultD: "ensures P m Q E \<Longrightarrow> P s \<Longrightarrow> m s = (Inl e, t) \<Longrightarrow> E e t"
  by (fastforce simp: ensures_def)

lemma ensures_weaken:
  assumes "ensures P m Q E" "\<And>s. P' s \<Longrightarrow> P s" "\<And>x s. Q x s \<Longrightarrow> Q' x s" "\<And>e s. E e s \<Longrightarrow> E' e s"
  shows "ensures P' m Q' E'"
  unfolding ensures_def
proof (intro allI impI)
  fix s assume "P' s"
  then have "case m s of (Inl e, s') \<Rightarrow> E e s' | (Inr x, s') \<Rightarrow> Q x s'"
    using assms(1,2) by (simp add: ensures_def)
  then show "case m s of (Inl e, s') \<Rightarrow> E' e s' | (Inr x, s') \<Rightarrow> Q' x s'"
    using assms(3,4) by (auto split: prod.splits sum.splits)
qed

lemma ensures_basic [ensures_intros]:
  "ensures (Q x) (returnS x) Q E" "ensures (E e) (throwS e) Q E"
  "ensures (\<lambda>s. Q (g s) s) (getsS g) Q E" "ensures (\<lambda>s. R () (h s)) (modifyS h) R E"
  by (simp_all add: ensures_def exec_simps)

lemma ensures_lift [ensures_intros]:
  "ensures (\<lambda>s. case r of Inl e \<Rightarrow> E e s | Inr x \<Rightarrow> Q x s) (liftS r) Q E"
  by (auto simp: ensures_def exec_simps split: sum.splits)

lemma ensures_bind [ensures_intros]:
  assumes "\<And>x. ensures (R x) (f x) Q E" "ensures P m R E"
  shows "ensures P (bindS m f) Q E"
  unfolding ensures_def
proof (intro allI impI)
  fix s assume "P s"
  with assms(2) have m: "case m s of (Inl e, s') \<Rightarrow> E e s' | (Inr x, s') \<Rightarrow> R x s'"
    by (simp add: ensures_def)
  show "case bindS m f s of (Inl e, s') \<Rightarrow> E e s' | (Inr x, s') \<Rightarrow> Q x s'"
  proof (cases "m s")
    case (Pair r s')
    with m assms(1) show ?thesis by (cases r) (auto simp: bindS_def ensures_def)
  qed
qed

lemma ensures_if [ensures_intros]:
  "(b \<Longrightarrow> ensures P m Q E) \<Longrightarrow> (\<not> b \<Longrightarrow> ensures P' n Q E) \<Longrightarrow>
     ensures (\<lambda>s. if b then P s else P' s) (if b then m else n) Q E"
  by (simp add: ensures_def)

lemma ensures_for:
  assumes "\<And>x. x \<in> set xs \<Longrightarrow> ensures I (f x) (\<lambda>_. I) E"
  shows "ensures I (forS f xs) (\<lambda>_. I) E"
  using assms
proof (induction xs)
  case Nil
  show ?case by (simp add: ensures_def exec_simps)
next
  case (Cons x xs)
  show ?case unfolding forS.simps
    by (rule ensures_bind[where R = "\<lambda>_. I"]) (use Cons in auto)
qed

lemma ensures_catch:
  assumes "ensures P m Q F" "\<And>e. thrown e \<Longrightarrow> c e \<Longrightarrow> ensures (F e) (h e) Q E"
    and "\<And>e s. \<not> (thrown e \<and> c e) \<Longrightarrow> F e s \<Longrightarrow> E e s"
  shows "ensures P (catchS m c h) Q E"
  unfolding ensures_def
proof (intro allI impI)
  fix s assume "P s"
  with assms(1) have m: "case m s of (Inl e, s') \<Rightarrow> F e s' | (Inr x, s') \<Rightarrow> Q x s'"
    by (simp add: ensures_def)
  show "case catchS m c h s of (Inl e, s') \<Rightarrow> E e s' | (Inr x, s') \<Rightarrow> Q x s'"
  proof (cases "m s")
    case (Pair r s')
    with m assms(2,3) show ?thesis by (cases r) (auto simp: catchS_def ensures_def)
  qed
qed

end
