(* ===== verification/OpenFlow_Controller.thy ===== *)
theory OpenFlow_Controller
  imports Data_Plane Exec_Monad
begin

text \<open>
  The OpenFlow controller of a switch (\<open>controller.cc\<close>): the rules kept for the switch, the
  connection, and the messages sent over it. The connection is the protocol version negotiated
  on it; the messages are recorded in the order in which they are sent. Each operation but
  \<open>handle_dpt_close\<close> holds the mutex of the controller from its first to its last line, so it is
  one step; the closing of the connection is taken as one step between them.

  The switch is not part of the orchestrator. What the controller relies on is the locale
  \<open>openflow_switch\<close>: the table of a switch maps a priority and a match to actions, an added
  entry takes the place of one with the same priority and match, a strict deletion takes that
  entry away, and a reset empties the table.

  The main theorem: whatever the order in which the connection opens and closes and rules come
  and go, the table of a connected switch is that of the rules kept by the controller.
\<close>

section \<open>Messages and state\<close>

datatype dpt_msg = Flow_mod_reset | Group_mod_reset | Flow_mod flowmod

record Controller =
  ctl_dpt :: "of_wire_version option"
  isOpen :: bool
  ctl_graph :: LLGraph
  ctl_port :: string
  ctl_sent :: "dpt_msg list"

definition Controller_new :: "LLGraph \<Rightarrow> string \<Rightarrow> Controller" where
  "Controller_new g port =
     \<lparr>ctl_dpt = None, isOpen = False, ctl_graph = g, ctl_port = port, ctl_sent = []\<rparr>"

definition send_to_dpt :: "dpt_msg \<Rightarrow> Controller \<Rightarrow> Controller" where
  "send_to_dpt m c = c\<lparr>ctl_sent := ctl_sent c @ [m]\<rparr>"

text \<open>One turn of the loops that send a rule; \<open>dpt\<close> is dereferenced for the version.\<close>

definition send_rule :: "ofp_version \<Rightarrow> command_t \<Rightarrow> LLRule \<Rightarrow> Controller \<Rightarrow> Controller result" where
  "send_rule v command r c =
     bindR (optionR NullPointer (ctl_dpt c)) (\<lambda>wire.
     bindR (LLRule_fillFlowmodMessage v r wire command) (\<lambda>fe.
     Inr (send_to_dpt (Flow_mod fe) c)))"

definition installNewRulesIntoLSI ::
  "ofp_version \<Rightarrow> LLRule list \<Rightarrow> Controller \<Rightarrow> (bool \<times> Controller) result" where
  "installNewRulesIntoLSI v rs c =
     (if length rs = 0 then Inr (True, c)
      else if isOpen c then bindR (foldR (send_rule v ADD_RULE) rs c) (\<lambda>c. Inr (True, c))
      else Inr (False, c))"

definition removeRulesFromLSI ::
  "ofp_version \<Rightarrow> LLRule list \<Rightarrow> Controller \<Rightarrow> (bool \<times> Controller) result" where
  "removeRulesFromLSI v rs c =
     (if isOpen c then bindR (foldR (send_rule v RM_RULE) rs c) (\<lambda>c. Inr (True, c))
      else Inr (False, c))"

section \<open>Operations\<close>

definition handle_dpt_open :: "ofp_version \<Rightarrow> of_wire_version \<Rightarrow> Controller \<Rightarrow> Controller result" where
  "handle_dpt_open v wire c =
     (let c = send_to_dpt Flow_mod_reset c;
          c = (case v of OFP_10 \<Rightarrow> c | OFP_12 \<Rightarrow> send_to_dpt Group_mod_reset c
               | OFP_13 \<Rightarrow> send_to_dpt Group_mod_reset c);
          c = c\<lparr>ctl_dpt := Some wire, isOpen := True\<rparr>
      in bindR (installNewRulesIntoLSI v (ctl_graph c) c) (\<lambda>(_, c). Inr c))"

definition handle_dpt_close :: "Controller \<Rightarrow> Controller" where
  "handle_dpt_close c = c\<lparr>isOpen := False, ctl_dpt := None\<rparr>"

definition installNewRule :: "ofp_version \<Rightarrow> LLRule \<Rightarrow> Controller \<Rightarrow> (bool \<times> Controller) result" where
  "installNewRule v r c =
     installNewRulesIntoLSI v [r] (c\<lparr>ctl_graph := LLGraph_addRule r (ctl_graph c)\<rparr>)"

definition installNewRules :: "ofp_version \<Rightarrow> LLRule list \<Rightarrow> Controller \<Rightarrow> (bool \<times> Controller) result" where
  "installNewRules v rs c =
     installNewRulesIntoLSI v rs (c\<lparr>ctl_graph := fold LLGraph_addRule rs (ctl_graph c)\<rparr>)"

definition removeRules :: "ofp_version \<Rightarrow> LLRule list \<Rightarrow> Controller \<Rightarrow> (bool \<times> Controller) result" where
  "removeRules v rs c =
     bindR (foldR LLGraph_removeRule rs (ctl_graph c)) (\<lambda>g.
     removeRulesFromLSI v rs (c\<lparr>ctl_graph := g\<rparr>))"

text \<open>\<open>catch(...)\<close> takes the exceptions (\<^const>\<open>thrown\<close>), not a failed assertion or a bad access.\<close>

definition removeRuleFromID :: "ofp_version \<Rightarrow> string \<Rightarrow> Controller \<Rightarrow> (bool \<times> Controller) result" where
  "removeRuleFromID v i c =
     (case LLGraph_getRule i (ctl_graph c) of
        Inl e \<Rightarrow> if thrown e then Inr (False, c) else Inl e
      | Inr r \<Rightarrow>
          (let (again, g) = LLGraph_removeRuleFromID i (ctl_graph c);
               c = c\<lparr>ctl_graph := g\<rparr>
           in if again then Inr (False, c)
              else case removeRulesFromLSI v [r] c of
                     Inl e \<Rightarrow> if thrown e then Inr (False, c) else Inl e
                   | Inr x \<Rightarrow> Inr x))"

section \<open>The switch\<close>

type_synonym flow_key = "nat \<times> oxm set"

definition entry_key :: "flowmod \<Rightarrow> flow_key" where
  "entry_key e = (wire_priority (fm_priority e), set (fm_match e))"

locale openflow_switch =
  fixes receive :: "dpt_msg \<Rightarrow> 't \<Rightarrow> 't"
    and entries :: "'t \<Rightarrow> flow_key \<Rightarrow> of_action list option"
  assumes entries_reset: "entries (receive Flow_mod_reset t) k = None"
    and entries_group_reset: "entries (receive Group_mod_reset t) k = entries t k"
    and entries_add: "fm_command e = OFPFC_ADD \<Longrightarrow>
      entries (receive (Flow_mod e) t) k = (if k = entry_key e then Some (map snd (fm_actions e)) else entries t k)"
    and entries_delete: "fm_command e = OFPFC_DELETE_STRICT \<Longrightarrow>
      entries (receive (Flow_mod e) t) k = (if k = entry_key e then None else entries t k)"
begin

lemmas entries_simps = entries_reset entries_group_reset entries_add entries_delete

lemma entries_cong:
  assumes "entries t = entries u"
  shows "entries (receive m t) = entries (receive m u)"
proof
  fix k
  have e: "entries t k = entries u k" using assms by simp
  show "entries (receive m t) k = entries (receive m u) k"
  proof (cases m)
    case (Flow_mod f)
    then show ?thesis
      by (cases "fm_command f") (simp_all only: entries_add entries_delete e)
  qed (simp_all only: entries_reset entries_group_reset e)
qed

lemma entries_fold_cong: "entries t = entries u \<Longrightarrow> entries (fold receive ms t) = entries (fold receive ms u)"
proof (induction ms arbitrary: t u)
  case (Cons m ms)
  from entries_cong[OF Cons.prems, of m] show ?case unfolding fold_simps by (rule Cons.IH)
qed simp

end

text \<open>A table of flow entries as a map satisfies the contract.\<close>

type_synonym flow_table = "flow_key \<Rightarrow> of_action list option"

fun table_receive :: "dpt_msg \<Rightarrow> flow_table \<Rightarrow> flow_table" where
  "table_receive Flow_mod_reset t = Map.empty"
| "table_receive Group_mod_reset t = t"
| "table_receive (Flow_mod e) t =
     (case fm_command e of
        OFPFC_ADD \<Rightarrow> t(entry_key e \<mapsto> map snd (fm_actions e))
      | OFPFC_DELETE_STRICT \<Rightarrow> t(entry_key e := None))"

interpretation map_table: openflow_switch table_receive id
  by unfold_locales auto

section \<open>The table a list of rules asks for\<close>

definition rule_key :: "LLRule \<Rightarrow> flow_key" where
  "rule_key r = (wire_priority (ll_priority r), set (LLMatch_fillFlowmodMessage (ll_match r)))"

definition rule_actions :: "ofp_version \<Rightarrow> LLRule \<Rightarrow> of_action list" where
  "rule_actions v r =
     (case LLAction_fillFlowmodMessage v (ll_action r) of Inl _ \<Rightarrow> [] | Inr as \<Rightarrow> map snd as)"

definition wanted :: "ofp_version \<Rightarrow> LLGraph \<Rightarrow> flow_table" where
  "wanted v g = fold (\<lambda>r t. t(rule_key r \<mapsto> rule_actions v r)) g Map.empty"

text \<open>
  Rules on ports, with different identifiers, that do not contradict each other: two rules of the
  same flow entry are equal and have the same actions. The action part can be built.
\<close>

definition plain_rule :: "ofp_version \<Rightarrow> LLRule \<Rightarrow> bool" where
  "plain_rule v r =
     (\<not> is_local_port (ll_match r) \<and> \<not> isEndpointVlanID (ll_match r) \<and>
      (case LLAction_fillFlowmodMessage v (ll_action r) of Inl _ \<Rightarrow> False | Inr _ \<Rightarrow> True))"

definition good_rules :: "ofp_version \<Rightarrow> LLGraph \<Rightarrow> bool" where
  "good_rules v g =
     (distinct (map flowID g) \<and> list_all (plain_rule v) g \<and>
      (\<forall>r \<in> set g. \<forall>s \<in> set g. rule_key r = rule_key s \<longrightarrow> LLRule_eq r s \<and> rule_actions v r = rule_actions v s))"

section \<open>Lookups in the wanted table\<close>

lemma wanted_snoc: "wanted v (g @ [r]) = (wanted v g)(rule_key r \<mapsto> rule_actions v r)"
  by (simp add: wanted_def)

lemma wanted_append:
  "wanted v (g @ rs) = fold (\<lambda>r t. t(rule_key r \<mapsto> rule_actions v r)) rs (wanted v g)"
  by (simp add: wanted_def)

lemma wanted_None: "k \<notin> rule_key ` set g \<Longrightarrow> wanted v g k = None"
proof (induction g rule: rev_induct)
  case Nil
  show ?case by (simp add: wanted_def)
next
  case (snoc r g)
  then show ?case by (simp add: wanted_snoc)
qed

lemma wanted_Some:
  "\<forall>s \<in> set g. rule_key s = rule_key r \<longrightarrow> rule_actions v s = rule_actions v r \<Longrightarrow> r \<in> set g \<Longrightarrow>
     wanted v g (rule_key r) = Some (rule_actions v r)"
proof (induction g rule: rev_induct)
  case Nil
  then show ?case by simp
next
  case (snoc s g)
  show ?case
  proof (cases "rule_key s = rule_key r")
    case True
    moreover have "rule_actions v s = rule_actions v r" using snoc.prems(1) True by (meson in_set_conv_decomp)
    ultimately show ?thesis by (simp add: wanted_snoc)
  next
    case False
    then have "r \<in> set g" using snoc.prems(2) by auto
    moreover have "\<forall>s \<in> set g. rule_key s = rule_key r \<longrightarrow> rule_actions v s = rule_actions v r"
      using snoc.prems(1) unfolding set_append by blast
    ultimately have "wanted v g (rule_key r) = Some (rule_actions v r)" by (intro snoc.IH)
    then show ?thesis using False by (simp add: wanted_snoc)
  qed
qed

lemma good_rulesD:
  assumes "good_rules v g" "r \<in> set g"
  shows "plain_rule v r"
    and "s \<in> set g \<Longrightarrow> rule_key r = rule_key s \<Longrightarrow> LLRule_eq r s \<and> rule_actions v r = rule_actions v s"
  using assms unfolding good_rules_def list_all_iff by blast+

lemma good_rules_subset:
  assumes "good_rules v g" "set h \<subseteq> set g" "distinct (map flowID h)"
  shows "good_rules v h"
  using assms unfolding good_rules_def list_all_iff by blast

lemma wanted_good:
  assumes "good_rules v g" "r \<in> set g"
  shows "wanted v g (rule_key r) = Some (rule_actions v r)"
proof (rule wanted_Some)
  show "\<forall>s \<in> set g. rule_key s = rule_key r \<longrightarrow> rule_actions v s = rule_actions v r"
    using good_rulesD(2)[OF assms] by metis
qed (rule assms(2))

text \<open>Equal rules ask for the same flow entry.\<close>

lemma LLRule_eq_key:
  assumes "LLRule_eq r s" "plain_rule v r" "plain_rule v s"
  shows "rule_key r = rule_key s"
proof -
  have "fill_common (ll_match r) = fill_common (ll_match s)"
    using assms by (intro fill_common_key) (simp_all add: LLRule_eq_def LLMatch_eq_iff plain_rule_def)
  with assms show ?thesis
    by (simp add: rule_key_def LLMatch_fillFlowmodMessage_def LLRule_eq_def LLMatch_eq_iff plain_rule_def)
qed

lemma wanted_remove:
  assumes good: "good_rules v (as @ r # bs)"
  shows "wanted v (as @ bs) k =
    (if k = rule_key r \<and> \<not> (\<exists>s \<in> set (as @ bs). LLRule_eq r s) then None else wanted v (as @ r # bs) k)"
proof -
  let ?g = "as @ r # bs" and ?h = "as @ bs"
  have h: "good_rules v ?h"
  proof (rule good_rules_subset[OF good])
    show "distinct (map flowID ?h)" using conjunct1[OF good[unfolded good_rules_def]] by simp
  qed auto
  have r: "r \<in> set ?g" by simp
  show ?thesis
  proof (cases "k \<in> rule_key ` set ?h")
    case True
    then obtain s where s: "s \<in> set ?h" "k = rule_key s" by auto
    then have sg: "s \<in> set ?g" by auto
    have "\<exists>s \<in> set ?h. LLRule_eq r s" if "k = rule_key r"
      using good_rulesD(2)[OF good r sg] s that by metis
    then show ?thesis using wanted_good[OF h s(1)] wanted_good[OF good sg] s(2) by auto
  next
    case False
    then have n: "wanted v ?h k = None" by (rule wanted_None)
    have "\<not> (\<exists>s \<in> set ?h. LLRule_eq r s)" if k: "k = rule_key r"
    proof
      assume "\<exists>s \<in> set ?h. LLRule_eq r s"
      then obtain s where s: "s \<in> set ?h" "LLRule_eq r s" by auto
      then have "rule_key r = rule_key s"
        using LLRule_eq_key[OF s(2), of v] good_rulesD(1)[OF good, of r] good_rulesD(1)[OF good, of s] by auto
      with s(1) k False show False by auto
    qed
    moreover have "wanted v ?g k = None" if "k \<noteq> rule_key r"
      by (rule wanted_None) (use False that in auto)
    ultimately show ?thesis using n by auto
  qed
qed

section \<open>Messages sent\<close>

definition adds :: "ofp_version \<Rightarrow> LLRule \<Rightarrow> flowmod \<Rightarrow> bool" where
  "adds v r e = (fm_command e = OFPFC_ADD \<and> entry_key e = rule_key r \<and> map snd (fm_actions e) = rule_actions v r)"

lemma send_add:
  assumes "plain_rule v r" "wire \<noteq> OF_other" "ctl_dpt c = Some wire"
  shows "\<exists>e. send_rule v ADD_RULE r c = Inr (send_to_dpt (Flow_mod e) c) \<and> adds v r e"
proof -
  obtain acts where "LLAction_fillFlowmodMessage v (ll_action r) = Inr acts"
    using assms(1) by (auto simp: plain_rule_def split: sum.splits)
  then show ?thesis
    using assms by (auto simp: send_rule_def LLRule_fillFlowmodMessage_def adds_def entry_key_def
        rule_key_def rule_actions_def)
qed

lemma send_remove:
  assumes "wire \<noteq> OF_other" "ctl_dpt c = Some wire"
  shows "\<exists>e. send_rule v RM_RULE r c = Inr (send_to_dpt (Flow_mod e) c) \<and>
    fm_command e = OFPFC_DELETE_STRICT \<and> entry_key e = rule_key r"
  using assms by (auto simp: send_rule_def LLRule_fillFlowmodMessage_def entry_key_def rule_key_def)

lemma send_adds:
  assumes "list_all (plain_rule v) rs" "wire \<noteq> OF_other" "ctl_dpt c = Some wire"
  shows "\<exists>es. foldR (send_rule v ADD_RULE) rs c = Inr (c\<lparr>ctl_sent := ctl_sent c @ map Flow_mod es\<rparr>) \<and>
    list_all2 (adds v) rs es"
  using assms
proof (induction rs arbitrary: c)
  case Nil
  then show ?case by simp
next
  case (Cons r rs)
  obtain e where e: "send_rule v ADD_RULE r c = Inr (send_to_dpt (Flow_mod e) c)" "adds v r e"
    using send_add[of v r wire c] Cons.prems by auto
  obtain es where es: "foldR (send_rule v ADD_RULE) rs (send_to_dpt (Flow_mod e) c) =
      Inr ((send_to_dpt (Flow_mod e) c)\<lparr>ctl_sent := ctl_sent (send_to_dpt (Flow_mod e) c) @ map Flow_mod es\<rparr>)"
    "list_all2 (adds v) rs es"
    using Cons.IH[of "send_to_dpt (Flow_mod e) c"] Cons.prems by (auto simp: send_to_dpt_def)
  from e es show ?case by (intro exI[of _ "e # es"]) (simp add: send_to_dpt_def)
qed

context openflow_switch
begin

lemma entries_adds:
  "list_all2 (adds v) rs es \<Longrightarrow>
     entries (fold receive (map Flow_mod es) t) =
       fold (\<lambda>r t. t(rule_key r \<mapsto> rule_actions v r)) rs (entries t)"
proof (induction rs es arbitrary: t rule: list_all2_induct)
  case (Cons r rs e es)
  have "entries (receive (Flow_mod e) t) = (entries t)(rule_key r \<mapsto> rule_actions v r)"
    using Cons.hyps(1) by (auto simp: adds_def entries_add)
  with Cons.IH[of "receive (Flow_mod e) t"] show ?case by simp
qed simp

end

section \<open>Runs of a controller\<close>

datatype ctl_event =
    Dpt_open of_wire_version
  | Dpt_close
  | Install_rule LLRule
  | Install_rules "LLRule list"
  | Remove_id string

text \<open>
  The graph manager installs rules that do not contradict those the controller has; a
  connection has a version the controller offered.
\<close>

inductive ctl_step :: "ofp_version \<Rightarrow> Controller \<Rightarrow> ctl_event \<Rightarrow> Controller \<Rightarrow> bool" for v where
  opens: "wire \<noteq> OF_other \<Longrightarrow> handle_dpt_open v wire c = Inr c' \<Longrightarrow> ctl_step v c (Dpt_open wire) c'"
| closes: "ctl_step v c Dpt_close (handle_dpt_close c)"
| installs_rule: "good_rules v (ctl_graph c @ [r]) \<Longrightarrow> installNewRule v r c = Inr (b, c') \<Longrightarrow>
    ctl_step v c (Install_rule r) c'"
| installs: "good_rules v (ctl_graph c @ rs) \<Longrightarrow> installNewRules v rs c = Inr (b, c') \<Longrightarrow>
    ctl_step v c (Install_rules rs) c'"
| removes: "removeRuleFromID v i c = Inr (b, c') \<Longrightarrow> ctl_step v c (Remove_id i) c'"

inductive_cases ctl_step_openE: "ctl_step v c (Dpt_open wire) c'"

inductive ctl_run :: "ofp_version \<Rightarrow> Controller \<Rightarrow> ctl_event list \<Rightarrow> Controller \<Rightarrow> bool" for v where
  ctl_nil: "ctl_run v c [] c"
| ctl_snoc: "ctl_run v c es c' \<Longrightarrow> ctl_step v c' e c'' \<Longrightarrow> ctl_run v c (es @ [e]) c''"

lemma fold_addRule: "fold LLGraph_addRule rs g = g @ rs"
  by (induction rs arbitrary: g) (simp_all add: LLGraph_addRule_def)

definition connected :: "Controller \<Rightarrow> bool" where
  "connected c = (isOpen c \<longrightarrow> ctl_dpt c \<noteq> None \<and> ctl_dpt c \<noteq> Some OF_other)"

lemma install_into:
  assumes "list_all (plain_rule v) rs" "connected c"
  shows "\<exists>b es. installNewRulesIntoLSI v rs c = Inr (b, c\<lparr>ctl_sent := ctl_sent c @ map Flow_mod es\<rparr>) \<and>
    (isOpen c \<longrightarrow> list_all2 (adds v) rs es)"
proof (cases "isOpen c \<and> rs \<noteq> []")
  case True
  then obtain wire where "ctl_dpt c = Some wire" "wire \<noteq> OF_other"
    using assms(2) by (auto simp: connected_def)
  with send_adds[OF assms(1)] True show ?thesis by (fastforce simp: installNewRulesIntoLSI_def)
next
  case False
  then show ?thesis by (intro exI[of _ "\<not> isOpen c \<longrightarrow> rs = []"] exI[of _ "[]"])
      (auto simp: installNewRulesIntoLSI_def)
qed

lemma installNewRules_eq:
  assumes "good_rules v (ctl_graph c @ rs)" "connected c"
  shows "\<exists>b es. installNewRules v rs c =
      Inr (b, c\<lparr>ctl_graph := ctl_graph c @ rs, ctl_sent := ctl_sent c @ map Flow_mod es\<rparr>) \<and>
    (isOpen c \<longrightarrow> list_all2 (adds v) rs es)"
proof -
  have "list_all (plain_rule v) rs"
    using conjunct1[OF conjunct2[OF assms(1)[unfolded good_rules_def]]] by simp
  from install_into[OF this, of "c\<lparr>ctl_graph := ctl_graph c @ rs\<rparr>"] assms(2)
  show ?thesis by (simp add: installNewRules_def fold_addRule connected_def)
qed

lemma installNewRule_eq: "installNewRule v r c = installNewRules v [r] c"
  by (simp add: installNewRule_def installNewRules_def)

lemma handle_dpt_open_eq:
  assumes "good_rules v (ctl_graph c)" "wire \<noteq> OF_other"
  shows "\<exists>c' gs es. handle_dpt_open v wire c = Inr c' \<and>
    ctl_dpt c' = Some wire \<and> isOpen c' \<and> ctl_graph c' = ctl_graph c \<and>
    ctl_sent c' = ctl_sent c @ Flow_mod_reset # gs @ map Flow_mod es \<and>
    set gs \<subseteq> {Group_mod_reset} \<and> list_all2 (adds v) (ctl_graph c) es"
proof -
  let ?gs = "if v = OFP_10 then [] else [Group_mod_reset]"
  let ?c = "c\<lparr>ctl_sent := ctl_sent c @ Flow_mod_reset # ?gs, ctl_dpt := Some wire, isOpen := True\<rparr>"
  have p: "list_all (plain_rule v) (ctl_graph c)"
    using conjunct1[OF conjunct2[OF assms(1)[unfolded good_rules_def]]] .
  obtain b es where es: "installNewRulesIntoLSI v (ctl_graph c) ?c =
      Inr (b, ?c\<lparr>ctl_sent := ctl_sent ?c @ map Flow_mod es\<rparr>)" "list_all2 (adds v) (ctl_graph c) es"
    using install_into[OF p, of ?c] assms(2) by (auto simp: connected_def)
  have "handle_dpt_open v wire c = bindR (installNewRulesIntoLSI v (ctl_graph c) ?c) (\<lambda>(_, c). Inr c)"
    by (cases v) (simp_all add: handle_dpt_open_def send_to_dpt_def)
  with es show ?thesis
    by (intro exI[of _ "?c\<lparr>ctl_sent := ctl_sent ?c @ map Flow_mod es\<rparr>"] exI[of _ ?gs] exI[of _ es]) auto
qed

lemma removeRuleFromID_eq:
  assumes good: "good_rules v (ctl_graph c)" and con: "connected c"
  shows "removeRuleFromID v i c = Inr (False, c) \<and> i \<notin> flowID ` set (ctl_graph c) \<or>
    (\<exists>as r bs b es. ctl_graph c = as @ r # bs \<and> flowID r = i \<and>
       removeRuleFromID v i c =
         Inr (b, c\<lparr>ctl_graph := as @ bs, ctl_sent := ctl_sent c @ map Flow_mod es\<rparr>) \<and>
       (isOpen c \<longrightarrow> (if \<exists>s \<in> set (as @ bs). LLRule_eq r s then es = []
          else \<exists>e. es = [e] \<and> fm_command e = OFPFC_DELETE_STRICT \<and> entry_key e = rule_key r)))"
proof (cases "find (\<lambda>r. flowID r = i) (ctl_graph c)")
  case None
  then have "i \<notin> flowID ` set (ctl_graph c)" by (auto simp: find_None_iff)
  with None show ?thesis by (simp add: removeRuleFromID_def LLGraph_getRule_def thrown_def)
next
  case (Some r)
  then obtain as bs where g: "ctl_graph c = as @ r # bs" "flowID r = i" "\<forall>a \<in> set as. flowID a \<noteq> i"
    by (rule find_SomeD)
  have dist: "distinct (map flowID (as @ r # bs))" using good g(1) by (simp add: good_rules_def)
  have e: "erase_first (\<lambda>r. flowID r = i) (as @ r # bs) = Some (as @ bs)"
    by (rule erase_first_append_hit) (use g in auto)
  have again: "(\<exists>s \<in> set (as @ r # bs). flowID r \<noteq> flowID s \<and> LLRule_eq r s) \<longleftrightarrow>
      (\<exists>s \<in> set (as @ bs). LLRule_eq r s)"
    using dist by auto
  let ?c = "c\<lparr>ctl_graph := as @ bs\<rparr>"
  have rem: "removeRuleFromID v i c =
      (if \<exists>s \<in> set (as @ bs). LLRule_eq r s then Inr (False, ?c)
       else case removeRulesFromLSI v [r] ?c of
              Inl e \<Rightarrow> if thrown e then Inr (False, ?c) else Inl e | Inr x \<Rightarrow> Inr x)"
    using Some e unfolding again[symmetric]
    by (simp add: removeRuleFromID_def LLGraph_getRule_def LLGraph_removeRuleFromID_def g(1) Let_def)
  show ?thesis
  proof (cases "\<exists>s \<in> set (as @ bs). LLRule_eq r s")
    case True
    then show ?thesis using rem g by (intro disjI2 exI[of _ as] exI[of _ r] exI[of _ bs] exI[of _ False] exI[of _ "[]"]) auto
  next
    case no: False
    show ?thesis
    proof (cases "isOpen c")
      case True
      then obtain wire where "ctl_dpt ?c = Some wire" "wire \<noteq> OF_other"
        using con by (auto simp: connected_def)
      from send_remove[OF this(2,1), of v r] obtain e where
        "send_rule v RM_RULE r ?c = Inr (send_to_dpt (Flow_mod e) ?c)"
        "fm_command e = OFPFC_DELETE_STRICT" "entry_key e = rule_key r" by auto
      then show ?thesis using rem g no True
        by (intro disjI2 exI[of _ as] exI[of _ r] exI[of _ bs] exI[of _ True] exI[of _ "[e]"])
           (auto simp: removeRulesFromLSI_def send_to_dpt_def)
    next
      case False
      then show ?thesis using rem g no
        by (intro disjI2 exI[of _ as] exI[of _ r] exI[of _ bs] exI[of _ False] exI[of _ "[]"])
           (auto simp: removeRulesFromLSI_def)
    qed
  qed
qed

section \<open>The switch follows the controller\<close>

context openflow_switch
begin

definition synced :: "ofp_version \<Rightarrow> 't \<Rightarrow> Controller \<Rightarrow> bool" where
  "synced v t c =
     (good_rules v (ctl_graph c) \<and> connected c \<and>
      (isOpen c \<longrightarrow> entries (fold receive (ctl_sent c) t) = wanted v (ctl_graph c)))"

lemma synced_new: "good_rules v g \<Longrightarrow> synced v t (Controller_new g port)"
  by (simp add: synced_def connected_def Controller_new_def)

lemma synced_open:
  assumes "good_rules v (ctl_graph c)" "wire \<noteq> OF_other" "handle_dpt_open v wire c = Inr c'"
  shows "synced v t c'"
proof -
  obtain gs es where h: "ctl_dpt c' = Some wire" "isOpen c'" "ctl_graph c' = ctl_graph c"
    "ctl_sent c' = ctl_sent c @ Flow_mod_reset # gs @ map Flow_mod es"
    "set gs \<subseteq> {Group_mod_reset}" "list_all2 (adds v) (ctl_graph c) es"
    using handle_dpt_open_eq[OF assms(1,2)] assms(3) by auto
  have gs: "entries (fold receive gs u) = entries u" for u
    using h(5) by (induction gs arbitrary: u) (auto simp: entries_group_reset)
  have reset: "entries (receive Flow_mod_reset u) = Map.empty" for u
    by (rule ext) (rule entries_reset)
  have "entries (fold receive (ctl_sent c') t) =
      entries (fold receive (map Flow_mod es) (fold receive gs (receive Flow_mod_reset (fold receive (ctl_sent c) t))))"
    using h(4) by simp
  also have "\<dots> = wanted v (ctl_graph c)"
    unfolding entries_adds[OF h(6)] gs reset wanted_def ..
  finally show ?thesis using assms h by (simp add: synced_def connected_def)
qed

lemma synced_install:
  assumes s: "synced v t c" and g: "good_rules v (ctl_graph c @ rs)" and i: "installNewRules v rs c = Inr (b, c')"
  shows "synced v t c'"
proof -
  have con: "connected c" using s by (simp add: synced_def)
  obtain es where h: "c' = c\<lparr>ctl_graph := ctl_graph c @ rs, ctl_sent := ctl_sent c @ map Flow_mod es\<rparr>"
    "isOpen c \<longrightarrow> list_all2 (adds v) rs es"
    using installNewRules_eq[OF g con] i by auto
  have "entries (fold receive (ctl_sent c') t) = wanted v (ctl_graph c')" if "isOpen c"
    using s h that by (simp add: synced_def entries_adds wanted_append)
  then show ?thesis using con g h(1) by (simp add: synced_def connected_def)
qed

lemma synced_remove:
  assumes s: "synced v t c" and i: "removeRuleFromID v i c = Inr (b, c')"
  shows "synced v t c'"
proof -
  have g: "good_rules v (ctl_graph c)" and con: "connected c" using s by (simp_all add: synced_def)
  consider "c' = c" | as r bs es where "ctl_graph c = as @ r # bs"
      "c' = c\<lparr>ctl_graph := as @ bs, ctl_sent := ctl_sent c @ map Flow_mod es\<rparr>"
      "isOpen c \<longrightarrow> (if \<exists>s \<in> set (as @ bs). LLRule_eq r s then es = []
          else \<exists>e. es = [e] \<and> fm_command e = OFPFC_DELETE_STRICT \<and> entry_key e = rule_key r)"
    using removeRuleFromID_eq[OF g con, of i] i by auto
  then show ?thesis
  proof cases
    case 1
    then show ?thesis using s by simp
  next
    case 2
    have h: "good_rules v (as @ bs)"
    proof (rule good_rules_subset[OF g])
      show "distinct (map flowID (as @ bs))"
        using conjunct1[OF g[unfolded good_rules_def 2(1)]] by simp
    qed (use 2(1) in auto)
    have "entries (fold receive (ctl_sent c') t) k = wanted v (as @ bs) k" if "isOpen c" for k
    proof -
      have o: "entries (fold receive (ctl_sent c) t) = wanted v (as @ r # bs)"
        using s that 2(1) by (simp add: synced_def)
      show ?thesis
        using 2(2,3) that unfolding wanted_remove[OF g[unfolded 2(1)]]
        by (auto simp: o entries_delete split: if_splits)
    qed
    then show ?thesis using con h 2(2) by (auto simp: synced_def connected_def)
  qed
qed

lemma synced_step: "ctl_step v c e c' \<Longrightarrow> synced v t c \<Longrightarrow> synced v t c'"
proof (induction rule: ctl_step.induct)
  case (opens wire c c')
  then have "good_rules v (ctl_graph c)" by (simp add: synced_def)
  then show ?case using opens(1,2) by (rule synced_open)
next
  case (closes c)
  then show ?case by (simp add: synced_def connected_def handle_dpt_close_def)
next
  case (installs_rule c r b c')
  then show ?case by (auto simp: installNewRule_eq intro: synced_install)
next
  case (installs c rs b c')
  then show ?case by (auto intro: synced_install)
next
  case (removes i c b c')
  then show ?case by (auto intro: synced_remove)
qed

lemma synced_run: "ctl_run v c es c' \<Longrightarrow> synced v t c \<Longrightarrow> synced v t c'"
  by (induction rule: ctl_run.induct) (auto intro: synced_step)

end


lemma ex_ll_good: "good_rules OFP_12 [ex_ll_rule mem i]"
  by (simp add: good_rules_def plain_rule_def ex_ll_rule_def LLMatch_setInputPort_def LLMatch_new_def
      Match_new_def LLAction_port_def LLAction_fillFlowmodMessage_def LLRule_eq_def LLAction_eq_def
      LLMatch_eq_iff)


lemma run_good:
  assumes "good_rules v g" "ctl_run v (Controller_new g port) es c"
  shows "good_rules v (ctl_graph c)" "connected c"
  using map_table.synced_run[OF assms(2) map_table.synced_new[OF assms(1)]]
  by (simp_all add: map_table.synced_def)



text \<open>
  (C18) Removing a list of rules takes away the flow entry of a rule that stays. If the
  controller keeps another rule equal to the removed one, the switch loses the entry of both.
\<close>

theorem removeRules_drops_shared_flow:
  assumes sw: "openflow_switch receive entries" and g: "good_rules v (ctl_graph c)"
    and c: "isOpen c" "connected c"
    and rs: "r \<in> set (ctl_graph c)" "s \<in> set (ctl_graph c)" "flowID r \<noteq> flowID s" "LLRule_eq r s"
  shows "\<exists>c' x. removeRules v [r] c = Inr (True, c') \<and> x \<in> set (ctl_graph c') \<and> rule_key x = rule_key r \<and>
    entries (fold receive (ctl_sent c') t) (rule_key x) = None"
proof -
  obtain h where h: "erase_first (\<lambda>it. LLRule_eq it r) (ctl_graph c) = Some h"
    using rs(1) ll_rules.erase_first_defined[of r "ctl_graph c"] ll_rules.present_member by blast
  then obtain as y bs where y: "ctl_graph c = as @ y # bs" "h = as @ bs" "LLRule_eq y r"
    by (rule erase_first_SomeD)
  have "\<exists>x. x \<in> set h \<and> LLRule_eq x r"
    using rs y ll_rules.same_refl ll_rules.same_sym by (cases "y = r") auto
  then obtain x where x: "x \<in> set h" "LLRule_eq x r" by blast
  have "x \<in> set (ctl_graph c)" using x(1) y(1,2) by auto
  then have key: "rule_key x = rule_key r"
    using LLRule_eq_key[OF x(2)] good_rulesD(1)[OF g] rs(1) by blast
  obtain wire where w: "wire \<noteq> OF_other" "ctl_dpt (c\<lparr>ctl_graph := h\<rparr>) = Some wire"
    using c by (auto simp: connected_def)
  obtain e where e: "send_rule v RM_RULE r (c\<lparr>ctl_graph := h\<rparr>) = Inr (send_to_dpt (Flow_mod e) (c\<lparr>ctl_graph := h\<rparr>))"
    "fm_command e = OFPFC_DELETE_STRICT" "entry_key e = rule_key r"
    using send_remove[OF w] by blast
  have "removeRules v [r] c = Inr (True, send_to_dpt (Flow_mod e) (c\<lparr>ctl_graph := h\<rparr>))"
    using h c(1) e(1) by (simp add: removeRules_def LLGraph_removeRule_def removeRulesFromLSI_def)
  moreover have "entries (fold receive (ctl_sent (send_to_dpt (Flow_mod e) (c\<lparr>ctl_graph := h\<rparr>))) t) (rule_key x) = None"
    using openflow_switch.entries_delete[OF sw e(2)] e(3) key by (simp add: send_to_dpt_def)
  ultimately show ?thesis using x(1) key
    by (intro exI[of _ "send_to_dpt (Flow_mod e) (c\<lparr>ctl_graph := h\<rparr>)"] exI[of _ x]) (simp add: send_to_dpt_def)
qed

lemma ex_ll_good2: "good_rules OFP_12 [ex_ll_rule mem ''1'', ex_ll_rule mem ''2'']"
  by (simp add: good_rules_def plain_rule_def ex_ll_rule_def LLMatch_setInputPort_def LLMatch_new_def
      Match_new_def LLAction_port_def LLAction_fillFlowmodMessage_def LLRule_eq_def LLAction_eq_def
      LLMatch_eq_iff rule_actions_def)

theorem removeRules_drops_shared_flow_witness:
  "\<forall>mem. \<exists>c' x. removeRules OFP_12 [ex_ll_rule mem ''1'']
       \<lparr>ctl_dpt = Some OF_12, isOpen = True, ctl_graph = [ex_ll_rule mem ''1'', ex_ll_rule mem ''2''],
        ctl_port = ''6653'', ctl_sent = []\<rparr> = Inr (True, c') \<and>
     x \<in> set (ctl_graph c') \<and> rule_key x = rule_key (ex_ll_rule mem ''1'') \<and>
     id (fold table_receive (ctl_sent c') (wanted OFP_12 [ex_ll_rule mem ''1'', ex_ll_rule mem ''2''])) (rule_key x) = None"
  by (intro allI removeRules_drops_shared_flow[OF map_table.openflow_switch_axioms, where s = "ex_ll_rule _ ''2''"])
     (use ex_ll_good2 in \<open>simp_all add: connected_def\<close>,
      simp_all add: ex_ll_rule_def LLRule_eq_def LLAction_eq_def LLMatch_eq_iff)

end
