(* ===== verification/Compute_Controller.thy ===== *)
theory Compute_Controller
  imports Lsi_State Json_Value Exec_Monad
begin

unbundle bit_operations_syntax

text \<open>
  The compute controller (\<open>compute_controller.cc\<close>, with \<open>description.cc\<close>, \<open>nf.cc\<close>,
  \<open>nfs_manager.cc\<close> and \<open>nf_type.h\<close>): the network functions of a graph, their descriptions as
  the name resolver sends them, the choice of an implementation, and starting, updating and
  stopping them.

  Which execution environments are compiled in is an argument. The environments themselves
  (containers, virtual machines, processes) are behind the abstract class \<open>NFsManager\<close>; its
  operations are arguments with a state of their own. The threads that start network functions
  are taken one after the other.
\<close>

section \<open>Descriptions and network functions\<close>

datatype nf_t = DPDK | DOCKER | KVM | NATIVE

type_synonym environments = "nf_t \<Rightarrow> bool"

definition NFType_isValid :: "environments \<Rightarrow> string \<Rightarrow> bool" where
  "NFType_isValid env t =
     (env DPDK \<and> t = ''dpdk'' \<or> env DOCKER \<and> t = ''docker'' \<or> env KVM \<and> t = ''kvm'' \<or>
      env NATIVE \<and> t = ''native'')"

text \<open>The subclasses for DPDK and native functions add members; the others leave them empty.\<close>

record Description =
  d_type :: nf_t
  d_uri :: string
  d_supported :: bool
  d_port_types :: "(32 word, PortType) omap"
  d_cores :: string
  d_location :: string
  d_requirements :: "string list"

definition Description_new ::
  "environments \<Rightarrow> string \<Rightarrow> string \<Rightarrow> (32 word, PortType) omap \<Rightarrow> Description result" where
  "Description_new env t uri ports =
     bindR (if t = ''dpdk'' then Inr DPDK
            else if env DOCKER \<and> t = ''docker'' then Inr DOCKER
            else if env KVM \<and> t = ''kvm'' then Inr KVM
            else if env NATIVE \<and> t = ''native'' then Inr NATIVE
            else Inl AssertFailure) (\<lambda>ty.
     Inr \<lparr>d_type = ty, d_uri = uri, d_supported = False, d_port_types = ports, d_cores = '''',
          d_location = '''', d_requirements = []\<rparr>)"

definition getPortType :: "32 word \<Rightarrow> Description \<Rightarrow> PortType" where
  "getPortType i d = (case map_of (d_port_types d) i of Some t \<Rightarrow> t | None \<Rightarrow> UNDEFINED_PORT)"

record NF =
  NF_name :: string
  nf_descriptions :: "Description list"
  nf_selected :: "Description option"
  nf_isRunning :: bool

definition NF_new :: "string \<Rightarrow> NF" where
  "NF_new name = \<lparr>NF_name = name, nf_descriptions = [], nf_selected = None, nf_isRunning = False\<rparr>"

definition addDescription :: "Description \<Rightarrow> NF \<Rightarrow> NF" where
  "addDescription d nf = nf\<lparr>nf_descriptions := nf_descriptions nf @ [d]\<rparr>"

section \<open>The answer of the name resolver\<close>

text \<open>
  A step of \<open>parseAnswer\<close> goes on, makes it return \<open>false\<close> (also through an exception of the
  JSON library, which it catches), or fails an assertion.
\<close>

datatype parse_stop = Return_false | Abort

type_synonym 'a parse = "parse_stop + 'a"

definition bindP :: "'a parse \<Rightarrow> ('a \<Rightarrow> 'b parse) \<Rightarrow> 'b parse" where
  "bindP m f = (case m of Inl e \<Rightarrow> Inl e | Inr x \<Rightarrow> f x)"

definition needP :: "'a option \<Rightarrow> 'a parse" where
  "needP x = (case x of None \<Rightarrow> Inl Return_false | Some v \<Rightarrow> Inr v)"

definition checkP :: "bool \<Rightarrow> unit parse" where
  "checkP b = (if b then Inr () else Inl Return_false)"

definition assertP :: "bool \<Rightarrow> unit parse" where
  "assertP b = (if b then Inr () else Inl Abort)"

fun foldP :: "('a \<Rightarrow> 's \<Rightarrow> 's parse) \<Rightarrow> 'a list \<Rightarrow> 's \<Rightarrow> 's parse" where
  "foldP f [] s = Inr s"
| "foldP f (x # xs) s = bindP (f x s) (foldP f xs)"

text \<open>A port of an implementation.\<close>

definition parse_port_member :: "string \<times> jvalue \<Rightarrow> int \<times> PortType \<Rightarrow> (int \<times> PortType) parse" where
  "parse_port_member el port =
     (if fst el = ''id'' then bindP (needP (jint (snd el))) (\<lambda>i. Inr (i, snd port))
      else if fst el = ''type''
      then bindP (needP (jstr (snd el))) (\<lambda>s.
           bindP (checkP (portTypeFromString s \<noteq> INVALID_PORT)) (\<lambda>_.
           Inr (fst port, portTypeFromString s)))
      else Inl Return_false)"

definition parse_port :: "jvalue \<Rightarrow> (32 word, PortType) omap \<Rightarrow> ((32 word, PortType) omap) parse" where
  "parse_port v ports =
     bindP (needP (jobj v)) (\<lambda>port.
     bindP (foldP parse_port_member port (-1, UNDEFINED_PORT)) (\<lambda>(port_id, port_type).
     bindP (checkP (port_id \<noteq> -1)) (\<lambda>_.
     bindP (checkP (port_type \<noteq> UNDEFINED_PORT)) (\<lambda>_.
     Inr (om_insert (word_of_int port_id) port_type ports)))))"

text \<open>The members of an implementation; \<open>None\<close> is a member that was not found.\<close>

record implementation =
  i_type :: "string option"
  i_uri :: "string option"
  i_cores :: "string option"
  i_location :: "string option"
  i_dependencies :: "string option"
  i_port_types :: "(32 word, PortType) omap"
  i_foundPorts :: bool
  i_next :: bool

definition implementation_new :: "bool \<Rightarrow> implementation" where
  "implementation_new foundPorts =
     \<lparr>i_type = None, i_uri = None, i_cores = None, i_location = None, i_dependencies = None,
      i_port_types = [], i_foundPorts = foundPorts, i_next = False\<rparr>"

text \<open>The loop over the members ends at a type that is not supported.\<close>

definition parse_impl_member ::
  "environments \<Rightarrow> string \<times> jvalue \<Rightarrow> implementation \<Rightarrow> implementation parse" where
  "parse_impl_member env el i =
     (let el_name = fst el; el_value = snd el
      in if i_next i then Inr i
         else if el_name = ''type''
         then bindP (needP (jstr el_value)) (\<lambda>t.
              Inr (i\<lparr>i_type := Some t, i_next := \<not> NFType_isValid env t\<rparr>))
         else if el_name = ''uri''
         then bindP (needP (jstr el_value)) (\<lambda>s. Inr (i\<lparr>i_uri := Some s\<rparr>))
         else if el_name = ''cores''
         then bindP (needP (jstr el_value)) (\<lambda>s. Inr (i\<lparr>i_cores := Some s\<rparr>))
         else if el_name = ''location''
         then bindP (needP (jstr el_value)) (\<lambda>s. Inr (i\<lparr>i_location := Some s\<rparr>))
         else if el_name = ''ports''
         then bindP (needP (jarr el_value)) (\<lambda>ports_array.
              bindP (checkP (ports_array \<noteq> [])) (\<lambda>_.
              bindP (foldP parse_port ports_array (i_port_types i)) (\<lambda>ports.
              Inr (i\<lparr>i_port_types := ports, i_foundPorts := True\<rparr>))))
         else if el_name = ''dependencies''
         then bindP (needP (jstr el_value)) (\<lambda>s. Inr (i\<lparr>i_dependencies := Some s\<rparr>))
         else Inl Return_false)"

text \<open>The ports \<open>1\<close> to \<open>numports\<close>, all of one type.\<close>

definition numbered_ports :: "PortType \<Rightarrow> 32 word \<Rightarrow> (32 word, PortType) omap \<Rightarrow> (32 word, PortType) omap" where
  "numbered_ports t numports ports =
     fold (\<lambda>i. om_insert (of_nat i + 1) t) [0..<unat numports] ports"

text \<open>The words \<open>stream >> s\<close> reads.\<close>

fun stream_words :: "string \<Rightarrow> string \<Rightarrow> string list" where
  "stream_words w [] = (if w = [] then [] else [w])"
| "stream_words w (c # s) =
     (if is_space c then (if w = [] then stream_words [] s else w # stream_words [] s)
      else stream_words (w @ [c]) s)"

definition to_parse :: "'a result \<Rightarrow> 'a parse" where
  "to_parse r = (case r of Inl _ \<Rightarrow> Inl Abort | Inr x \<Rightarrow> Inr x)"

definition implementation_description ::
  "environments \<Rightarrow> 32 word \<Rightarrow> implementation \<Rightarrow> Description parse" where
  "implementation_description env numports i =
     bindP (checkP (i_uri i \<noteq> None \<and> i_type i \<noteq> None)) (\<lambda>_.
     let t = the (i_type i); uri = the (i_uri i)
     in if t = ''dpdk''
        then bindP (checkP (i_cores i \<noteq> None \<and> i_location i \<noteq> None)) (\<lambda>_.
             bindP (assertP (\<not> i_foundPorts i)) (\<lambda>_.
             bindP (to_parse (Description_new env t uri
                     (numbered_ports DPDKR_PORT numports (i_port_types i)))) (\<lambda>d.
             Inr (d\<lparr>d_cores := the (i_cores i), d_location := the (i_location i)\<rparr>))))
        else if t = ''native''
        then bindP (assertP (\<not> i_foundPorts i)) (\<lambda>_.
             bindP (checkP (i_location i \<noteq> None \<and> i_dependencies i \<noteq> None)) (\<lambda>_.
             bindP (to_parse (Description_new env t uri
                     (numbered_ports VETH_PORT numports (i_port_types i)))) (\<lambda>d.
             Inr (d\<lparr>d_location := the (i_location i),
                    d_requirements := stream_words [] (the (i_dependencies i))\<rparr>))))
        else bindP (checkP (i_cores i = None \<and> i_location i = None \<and> i_dependencies i = None)) (\<lambda>_.
             if i_foundPorts i then to_parse (Description_new env t uri (i_port_types i))
             else bindP (assertP (t = ''docker'')) (\<lambda>_.
                  to_parse (Description_new env t uri (numbered_ports VETH_PORT numports (i_port_types i))))))"

text \<open>
  One turn of the loop over the implementations. The flag \<open>foundPorts\<close> is declared before the
  loop, so it carries over from one implementation to the next.
\<close>

definition parse_implementation ::
  "environments \<Rightarrow> 32 word \<Rightarrow> jvalue \<Rightarrow> bool \<times> Description list \<Rightarrow> (bool \<times> Description list) parse" where
  "parse_implementation env numports v s =
     bindP (needP (jobj v)) (\<lambda>obj.
     bindP (foldP (parse_impl_member env) obj (implementation_new (fst s))) (\<lambda>i.
     if i_next i then Inr (i_foundPorts i, snd s)
     else bindP (implementation_description env numports i) (\<lambda>d. Inr (i_foundPorts i, snd s @ [d]))))"

record answer =
  foundName :: bool
  foundTextDescription :: bool
  foundImplementations :: bool
  possibleDescriptions :: "Description list"

definition parse_answer_member ::
  "environments \<Rightarrow> string \<Rightarrow> 32 word \<Rightarrow> string \<times> jvalue \<Rightarrow> answer \<Rightarrow> answer parse" where
  "parse_answer_member env nf_name numports el a =
     (let name = fst el; value = snd el
      in if name = ''name''
         then bindP (needP (jstr value)) (\<lambda>n.
              bindP (checkP (n = nf_name)) (\<lambda>_. Inr (a\<lparr>foundName := True\<rparr>)))
         else if name = ''nports'' then Inr a
         else if name = ''summary'' then Inr (a\<lparr>foundTextDescription := True\<rparr>)
         else if name = ''implementations''
         then bindP (needP (jarr value)) (\<lambda>impl_array.
              bindP (checkP (impl_array \<noteq> [])) (\<lambda>_.
              bindP (foldP (parse_implementation env numports) impl_array (False, possibleDescriptions a)) (\<lambda>(_, ds).
              Inr (a\<lparr>foundImplementations := True, possibleDescriptions := ds\<rparr>))))
         else Inl Return_false)"

definition parseAnswer_NF :: "environments \<Rightarrow> jvalue \<Rightarrow> string \<Rightarrow> NF parse" where
  "parseAnswer_NF env v nf_name =
     bindP (needP (jobj v)) (\<lambda>obj.
     bindP (needP (map_of obj ''nports'')) (\<lambda>n.
     bindP (needP (jint n)) (\<lambda>numports.
     bindP (foldP (parse_answer_member env nf_name (word_of_int numports)) obj
             \<lparr>foundName = False, foundTextDescription = False, foundImplementations = False,
              possibleDescriptions = []\<rparr>) (\<lambda>a.
     bindP (checkP (foundName a \<and> foundImplementations a \<and> foundTextDescription a)) (\<lambda>_.
     bindP (assertP (possibleDescriptions a \<noteq> [])) (\<lambda>_.
     Inr (fold addDescription (possibleDescriptions a) (NF_new nf_name))))))))"

section \<open>The cores for DPDK processes\<close>

record core_pool =
  cores :: "(int, 64 word) omap"
  nextCore :: int

definition setCoreMask_step :: "64 word \<Rightarrow> nat \<Rightarrow> core_pool \<Rightarrow> core_pool" where
  "setCoreMask_step core_mask i p =
     (let mask = push_bit i 1
      in if core_mask AND mask \<noteq> 0
         then \<lparr>cores = om_put (nextCore p) mask (cores p), nextCore = nextCore p + 1\<rparr>
         else p)"

definition setCoreMask :: "64 word \<Rightarrow> core_pool \<Rightarrow> core_pool" where
  "setCoreMask core_mask p = (fold (setCoreMask_step core_mask) [0..<64] p)\<lparr>nextCore := 0\<rparr>"

text \<open>\<open>cores[nextCore]\<close> makes a zero entry when there is none.\<close>

definition next_core :: "64 word \<times> core_pool \<Rightarrow> 64 word \<times> core_pool" where
  "next_core s =
     (let (mask, p) = s;
          cs = om_insert (nextCore p) 0 (cores p)
      in (mask OR the (map_of cs (nextCore p)),
          \<lparr>cores = cs, nextCore = (nextCore p + 1) mod int (length cs)\<rparr>))"

definition calculateCoreMask :: "string \<Rightarrow> core_pool \<Rightarrow> (64 word \<times> core_pool) result" where
  "calculateCoreMask coresRequired p =
     (if coresRequired = '''' then Inr (0, p)
      else bindR (optionR Uninitialised (sscanf_d coresRequired)) (\<lambda>requiredCores.
           Inr ((next_core ^^ nat requiredCores) (0, p))))"

section \<open>The network functions of a graph\<close>

record StartNFIn =
  sni_lsiID :: "64 word"
  sni_nf_id :: string
  sni_namesOfPortsOnTheSwitch :: "(32 word, string) omap"
  sni_portsConfiguration :: "(32 word, port_network_config) omap"
  sni_coreMask :: "64 word"

record UpdateNFIn =
  uni_lsiID :: "64 word"
  uni_nf_id :: string
  uni_namesOfPortsOnTheSwitch :: "(32 word, string) omap"
  uni_portsConfiguration :: "(32 word, port_network_config) omap"
  uni_newPortsToAdd :: "32 word list"

text \<open>
  The operations of the execution environments; \<open>native_new\<close> tells whether the constructor of
  the native environment returns.
\<close>

record 'w NFsManager =
  native_new :: "'w \<Rightarrow> bool \<times> 'w"
  isSupported :: "Description \<Rightarrow> 'w \<Rightarrow> bool \<times> 'w"
  nfm_startNF :: "Description \<Rightarrow> StartNFIn \<Rightarrow> 'w \<Rightarrow> bool \<times> 'w"
  nfm_updateNF :: "Description \<Rightarrow> UpdateNFIn \<Rightarrow> 'w \<Rightarrow> bool \<times> 'w"
  nfm_stopNF :: "Description \<Rightarrow> 64 word \<Rightarrow> string \<Rightarrow> 'w \<Rightarrow> bool \<times> 'w"

record ComputeController =
  cc_nfs :: "(string, NF) omap"
  cc_lsiID :: "64 word"

definition ComputeController_new :: "64 word \<Rightarrow> ComputeController" where
  "ComputeController_new mem = \<lparr>cc_nfs = [], cc_lsiID = mem\<rparr>"

definition parseAnswer ::
  "environments \<Rightarrow> jvalue \<Rightarrow> string \<Rightarrow> string \<Rightarrow> ComputeController \<Rightarrow> (bool \<times> ComputeController) result" where
  "parseAnswer env v nf_name nf_id cc =
     (case parseAnswer_NF env v nf_name of
        Inl Return_false \<Rightarrow> Inr (False, cc)
      | Inl Abort \<Rightarrow> Inl AssertFailure
      | Inr nf \<Rightarrow> Inr (True, cc\<lparr>cc_nfs := om_put nf_id nf (cc_nfs cc)\<rparr>))"

fun map_stateR :: "('a \<Rightarrow> 'w \<Rightarrow> ('b \<times> 'w) result) \<Rightarrow> 'a list \<Rightarrow> 'w \<Rightarrow> ('b list \<times> 'w) result" where
  "map_stateR f [] w = Inr ([], w)"
| "map_stateR f (x # xs) w =
     bindR (f x w) (\<lambda>(y, w). bindR (map_stateR f xs w) (\<lambda>(ys, w). Inr (y # ys, w)))"

text \<open>
  The last case of the switch prints the type, and \<open>NFType::toString\<close> fails its assertion on one
  that is not compiled in.
\<close>

definition check_description ::
  "environments \<Rightarrow> 'w NFsManager \<Rightarrow> Description \<Rightarrow> 'w \<Rightarrow> (Description \<times> 'w) result" where
  "check_description env mgr d w =
     (if \<not> env (d_type d) then Inl AssertFailure
      else let (made, w) = (if d_type d = NATIVE then native_new mgr w else (True, w))
           in if \<not> made then Inr (d, w)
              else let (ok, w) = isSupported mgr d w
                   in Inr (if ok then d\<lparr>d_supported := True\<rparr> else d, w))"

definition checkSupportedDescriptions ::
  "environments \<Rightarrow> 'w NFsManager \<Rightarrow> ComputeController \<Rightarrow> 'w \<Rightarrow> (ComputeController \<times> 'w) result" where
  "checkSupportedDescriptions env mgr cc w =
     bindR (map_stateR (\<lambda>(i, nf) w.
              bindR (map_stateR (check_description env mgr) (nf_descriptions nf) w) (\<lambda>(ds, w).
              Inr ((i, nf\<lparr>nf_descriptions := ds\<rparr>), w))) (cc_nfs cc) w) (\<lambda>(nfs, w).
     Inr (cc\<lparr>cc_nfs := nfs\<rparr>, w))"

fun selectNFImplementation ::
  "environments \<Rightarrow> 'w NFsManager \<Rightarrow> Description list \<Rightarrow> 'w \<Rightarrow> (Description option \<times> 'w) result" where
  "selectNFImplementation env mgr [] w = Inr (None, w)"
| "selectNFImplementation env mgr (d # ds) w =
     (if \<not> d_supported d then selectNFImplementation env mgr ds w
      else if \<not> env (d_type d) then Inl AssertFailure
      else let (made, w) = (if d_type d = NATIVE then native_new mgr w else (True, w))
           in if made then Inr (Some d, w) else selectNFImplementation env mgr ds w)"

text \<open>The loop returns at the first network function without a supported description.\<close>

fun select_all ::
  "environments \<Rightarrow> 'w NFsManager \<Rightarrow> (string \<times> NF) list \<Rightarrow> 'w \<Rightarrow> (bool \<times> (string \<times> NF) list \<times> 'w) result" where
  "select_all env mgr [] w = Inr (True, [], w)"
| "select_all env mgr ((i, nf) # nfs) w =
     bindR (if nf_selected nf \<noteq> None then Inr (nf_selected nf, w)
            else selectNFImplementation env mgr (nf_descriptions nf) w) (\<lambda>(sel, w).
     if sel = None then Inr (False, (i, nf) # nfs, w)
     else bindR (select_all env mgr nfs w) (\<lambda>(ok, nfs, w).
          Inr (ok, (i, nf\<lparr>nf_selected := sel\<rparr>) # nfs, w)))"

definition allSelected :: "ComputeController \<Rightarrow> bool" where
  "allSelected cc = (\<forall>(i, nf) \<in> set (cc_nfs cc). nf_selected nf \<noteq> None)"

definition selectImplementation ::
  "environments \<Rightarrow> 'w NFsManager \<Rightarrow> ComputeController \<Rightarrow> 'w \<Rightarrow> (bool \<times> ComputeController \<times> 'w) result" where
  "selectImplementation env mgr cc w =
     bindR (checkSupportedDescriptions env mgr cc w) (\<lambda>(cc, w).
     bindR (select_all env mgr (cc_nfs cc) w) (\<lambda>(ok, nfs, w).
     let cc = cc\<lparr>cc_nfs := nfs\<rparr>
     in Inr (ok \<and> allSelected cc, cc, w)))"

definition getNFType :: "string \<Rightarrow> ComputeController \<Rightarrow> nf_t result" where
  "getNFType i cc =
     bindR (optionR AssertFailure (map_of (cc_nfs cc) i)) (\<lambda>nf.
     bindR (optionR AssertFailure (nf_selected nf)) (\<lambda>d. Inr (d_type d)))"

definition getNFSelectedImplementation :: "string \<Rightarrow> ComputeController \<Rightarrow> Description option" where
  "getNFSelectedImplementation i cc = Option.bind (map_of (cc_nfs cc) i) nf_selected"

definition setLsiID :: "64 word \<Rightarrow> ComputeController \<Rightarrow> ComputeController" where
  "setLsiID i cc = cc\<lparr>cc_lsiID := i\<rparr>"

record 'w compute_env =
  ce_cc :: ComputeController
  ce_pool :: core_pool
  ce_world :: 'w

text \<open>Only DPDK processes ask for cores.\<close>

definition getCores :: "Description \<Rightarrow> string" where
  "getCores d = (if d_type d = DPDK then d_cores d else '''')"

definition startNF ::
  "'w NFsManager \<Rightarrow> string \<Rightarrow> (32 word, string) omap \<Rightarrow> (32 word, port_network_config) omap \<Rightarrow>
     'w compute_env \<Rightarrow> (bool \<times> 'w compute_env) result" where
  "startNF mgr nf_id names config e =
     bindR (optionR AssertFailure (map_of (cc_nfs (ce_cc e)) nf_id)) (\<lambda>nf.
     bindR (optionR NullPointer (nf_selected nf)) (\<lambda>d.
     bindR (calculateCoreMask (getCores d) (ce_pool e)) (\<lambda>(mask, pool).
     let sni = \<lparr>sni_lsiID = cc_lsiID (ce_cc e), sni_nf_id = nf_id, sni_namesOfPortsOnTheSwitch = names,
                sni_portsConfiguration = config, sni_coreMask = mask\<rparr>;
         (ok, w) = nfm_startNF mgr d sni (ce_world e);
         e = e\<lparr>ce_pool := pool, ce_world := w\<rparr>
     in if \<not> ok then Inr (False, e)
        else Inr (True, e\<lparr>ce_cc := (ce_cc e)
               \<lparr>cc_nfs := om_put nf_id (nf\<lparr>nf_isRunning := True\<rparr>) (cc_nfs (ce_cc e))\<rparr>\<rparr>))))"

definition updateNF ::
  "'w NFsManager \<Rightarrow> string \<Rightarrow> (32 word, string) omap \<Rightarrow> (32 word, port_network_config) omap \<Rightarrow>
     32 word list \<Rightarrow> 'w compute_env \<Rightarrow> (bool \<times> 'w compute_env) result" where
  "updateNF mgr nf_id names config newPorts e =
     bindR (optionR NullPointer (map_of (cc_nfs (ce_cc e)) nf_id)) (\<lambda>nf.
     bindR (optionR NullPointer (nf_selected nf)) (\<lambda>d.
     let uni = \<lparr>uni_lsiID = cc_lsiID (ce_cc e), uni_nf_id = nf_id, uni_namesOfPortsOnTheSwitch = names,
                uni_portsConfiguration = config, uni_newPortsToAdd = newPorts\<rparr>;
         (ok, w) = nfm_updateNF mgr d uni (ce_world e)
     in Inr (ok, e\<lparr>ce_world := w\<rparr>)))"

text \<open>A network function that was stopped is erased from the map.\<close>

definition stopNF :: "'w NFsManager \<Rightarrow> string \<Rightarrow> 'w compute_env \<Rightarrow> (bool \<times> 'w compute_env) result" where
  "stopNF mgr nf_id e =
     (case map_of (cc_nfs (ce_cc e)) nf_id of
        None \<Rightarrow> Inr (False, e)
      | Some nf \<Rightarrow>
          bindR (optionR NullPointer (nf_selected nf)) (\<lambda>d.
          let (ok, w) = nfm_stopNF mgr d (cc_lsiID (ce_cc e)) nf_id (ce_world e);
              e = e\<lparr>ce_world := w\<rparr>
          in if \<not> ok then Inr (False, e)
             else Inr (True, e\<lparr>ce_cc := (ce_cc e)\<lparr>cc_nfs := om_erase nf_id (cc_nfs (ce_cc e))\<rparr>\<rparr>)))"

text \<open>
  \<open>stopAll\<close> walks over the map while \<open>stopNF\<close> erases the element it is at: stepping on from
  an erased element uses a dangling iterator.
\<close>

fun stop_each :: "'w NFsManager \<Rightarrow> string list \<Rightarrow> 'w compute_env \<Rightarrow> ('w compute_env) result" where
  "stop_each mgr [] e = Inr e"
| "stop_each mgr (i # is) e =
     bindR (stopNF mgr i e) (\<lambda>(_, e).
     if om_count (cc_nfs (ce_cc e)) i then stop_each mgr is e else Inl Dangling)"

definition stopAll :: "'w NFsManager \<Rightarrow> 'w compute_env \<Rightarrow> ('w compute_env) result" where
  "stopAll mgr e = stop_each mgr (map fst (cc_nfs (ce_cc e))) e"

section \<open>Asking the name resolver\<close>

datatype nf_manager_ret_t = NFManager_OK | NFManager_SERVER_ERROR | NFManager_NO_NF

definition crlf :: string where
  "crlf = [CHR 0x0D, CHR 0x0A]"

definition resolver_request :: "string \<Rightarrow> string \<Rightarrow> int \<Rightarrow> string" where
  "resolver_request nf_name ip port =
     ''GET /nfs/'' @ nf_name @ '' HTTP/1.1'' @ crlf @
     ''Host: :'' @ ip @ '':'' @ dec_int port @ crlf @
     ''Connection: close'' @ crlf @ ''Accept: */*'' @ crlf @ crlf"

text \<open>What follows the first empty line; nothing when there is none.\<close>

fun http_body :: "string \<Rightarrow> string" where
  "http_body [] = []"
| "http_body (c # s) = (if take 4 (c # s) = crlf @ crlf then drop 4 (c # s) else http_body s)"

definition DATA_BUFFER_SIZE :: nat where
  "DATA_BUFFER_SIZE = 20480"

text \<open>
  \<open>recv\<close> is the exchange over the socket, with the bytes received or a failure; \<open>read_json\<close> is the
  parser of the JSON library; \<open>mem\<close> is what the rest of the buffer held.
\<close>

definition retrieveDescription ::
  "environments \<Rightarrow> (string \<Rightarrow> string option) \<Rightarrow> (string \<Rightarrow> jvalue) \<Rightarrow> string \<Rightarrow> string \<Rightarrow> string \<Rightarrow>
     string \<Rightarrow> int \<Rightarrow> ComputeController \<Rightarrow> (nf_manager_ret_t \<times> ComputeController) result" where
  "retrieveDescription env recv read_json mem nf_id nf_name ip port cc =
     (case recv (resolver_request nf_name ip port) of
        None \<Rightarrow> Inr (NFManager_SERVER_ERROR, cc)
      | Some data \<Rightarrow>
          if length data \<ge> DATA_BUFFER_SIZE then Inl OutOfBounds
          else let buffer = data @ [CHR 0x00] @ mem; code = take 3 (drop 9 buffer)
               in if code = ''405'' then Inr (NFManager_NO_NF, cc)
                  else if code \<noteq> ''200'' then Inr (NFManager_SERVER_ERROR, cc)
                  else bindR (parseAnswer env (read_json (takeWhile (\<lambda>c. c \<noteq> CHR 0x00) (http_body data)))
                                nf_name nf_id cc) (\<lambda>(ok, cc).
                       Inr (if ok then NFManager_OK else NFManager_SERVER_ERROR, cc)))"

section \<open>Properties of the choice\<close>

definition types_ok :: "environments \<Rightarrow> (string \<times> NF) list \<Rightarrow> bool" where
  "types_ok env nfs = (\<forall>x \<in> set nfs. \<forall>d \<in> set (nf_descriptions (snd x)). env (d_type d))"

lemma map_stateR_all:
  assumes "\<And>x w. x \<in> set xs \<Longrightarrow> \<exists>y w'. f x w = Inr (y, w') \<and> P x y"
  shows "\<exists>ys w'. map_stateR f xs w = Inr (ys, w') \<and> list_all2 P xs ys"
  using assms
proof (induction xs arbitrary: w)
  case (Cons x xs)
  obtain y w1 where y: "f x w = Inr (y, w1)" "P x y" using Cons.prems[of x w] by auto
  obtain ys w2 where "map_stateR f xs w1 = Inr (ys, w2)" "list_all2 P xs ys"
    using Cons.IH[of w1] Cons.prems by auto
  then show ?case using y by simp
qed simp

definition checked :: "Description \<Rightarrow> Description \<Rightarrow> bool" where
  "checked d d' = (\<exists>b. d' = d\<lparr>d_supported := b\<rparr>)"

lemma check_description_checked:
  assumes "env (d_type d)"
  shows "\<exists>d' w'. check_description env mgr d w = Inr (d', w') \<and> checked d d'"
proof -
  have "checked d (d\<lparr>d_supported := b\<rparr>)" for b unfolding checked_def by blast
  moreover have "d = d\<lparr>d_supported := d_supported d\<rparr>" by simp
  then have "checked d d" unfolding checked_def by blast
  ultimately show ?thesis using assms by (simp add: check_description_def Let_def case_prod_beta)
qed

text \<open>The functions keep their place and their choice; their descriptions are checked.\<close>

definition same_nf :: "string \<times> NF \<Rightarrow> string \<times> NF \<Rightarrow> bool" where
  "same_nf x y =
     (fst y = fst x \<and> NF_name (snd y) = NF_name (snd x) \<and> nf_selected (snd y) = nf_selected (snd x) \<and>
      nf_isRunning (snd y) = nf_isRunning (snd x) \<and>
      list_all2 checked (nf_descriptions (snd x)) (nf_descriptions (snd y)))"

lemma checkSupportedDescriptions_same:
  assumes "types_ok env (cc_nfs cc)"
  shows "\<exists>nfs w'. checkSupportedDescriptions env mgr cc w = Inr (cc\<lparr>cc_nfs := nfs\<rparr>, w') \<and>
    list_all2 same_nf (cc_nfs cc) nfs"
proof -
  let ?f = "\<lambda>(i, nf) w. bindR (map_stateR (check_description env mgr) (nf_descriptions nf) w) (\<lambda>(ds, w).
              Inr ((i, nf\<lparr>nf_descriptions := ds\<rparr>), w))"
  have "\<exists>nfs w'. map_stateR ?f (cc_nfs cc) w = Inr (nfs, w') \<and> list_all2 same_nf (cc_nfs cc) nfs"
  proof (rule map_stateR_all)
    fix x w
    assume x: "x \<in> set (cc_nfs cc)"
    have "\<exists>ds w'. map_stateR (check_description env mgr) (nf_descriptions (snd x)) w = Inr (ds, w') \<and>
        list_all2 checked (nf_descriptions (snd x)) ds"
      by (rule map_stateR_all, rule check_description_checked) (use assms x in \<open>simp add: types_ok_def\<close>)
    then obtain ds w' where ds: "map_stateR (check_description env mgr) (nf_descriptions (snd x)) w = Inr (ds, w')"
      "list_all2 checked (nf_descriptions (snd x)) ds" by blast
    then show "\<exists>y w'. ?f x w = Inr (y, w') \<and> same_nf x y"
      by (intro exI[of _ "(fst x, (snd x)\<lparr>nf_descriptions := ds\<rparr>)"] exI[of _ w'])
        (simp add: case_prod_beta same_nf_def)
  qed
  then show ?thesis unfolding checkSupportedDescriptions_def by auto
qed

text \<open>
  The choice for one function: the first supported description, or a later one when the
  constructor of the native environment failed.
\<close>

definition chosen :: "environments \<Rightarrow> Description list \<Rightarrow> Description option \<Rightarrow> bool" where
  "chosen env ds sel =
     (case sel of
        None \<Rightarrow> \<forall>d \<in> set ds. d_supported d \<longrightarrow> d_type d = NATIVE
      | Some d \<Rightarrow> d_supported d \<and> env (d_type d) \<and>
          (\<exists>as bs. ds = as @ d # bs \<and> (\<forall>x \<in> set as. d_supported x \<longrightarrow> d_type x = NATIVE)))"

lemma chosen_skip:
  assumes "d_supported d \<longrightarrow> d_type d = NATIVE"
  shows "chosen env ds sel \<Longrightarrow> chosen env (d # ds) sel"
proof (cases sel)
  case (Some x)
  assume "chosen env ds sel"
  with Some obtain as bs where "ds = as @ x # bs" "\<forall>y \<in> set as. d_supported y \<longrightarrow> d_type y = NATIVE"
    "d_supported x" "env (d_type x)"
    by (auto simp: chosen_def)
  moreover have "d # ds = (d # as) @ x # bs \<and> (\<forall>y \<in> set (d # as). d_supported y \<longrightarrow> d_type y = NATIVE)"
    using assms calculation by simp
  ultimately have "chosen env (d # ds) (Some x)" unfolding chosen_def option.case by blast
  then show ?thesis using Some by simp
qed (use assms in \<open>simp add: chosen_def\<close>)

lemma selectNFImplementation_chosen:
  assumes "\<And>d. d \<in> set ds \<Longrightarrow> d_supported d \<Longrightarrow> env (d_type d)"
  shows "\<exists>sel w'. selectNFImplementation env mgr ds w = Inr (sel, w') \<and> chosen env ds sel"
  using assms
proof (induction ds arbitrary: w)
  case Nil
  then show ?case by (simp add: chosen_def)
next
  case (Cons d ds)
  show ?case
  proof (cases "d_supported d")
    case False
    with Cons.IH[of w] Cons.prems chosen_skip[of d env ds] show ?thesis by auto
  next
    case True
    obtain made w1 where m: "(if d_type d = NATIVE then native_new mgr w else (True, w)) = (made, w1)"
      by fastforce
    show ?thesis
    proof (cases made)
      case True
      then show ?thesis using \<open>d_supported d\<close> Cons.prems[of d] m
        by (simp add: chosen_def Let_def) (rule exI[of _ "[]"], simp)
    next
      case False
      then have "d_type d = NATIVE" "env (d_type d)"
        using m Cons.prems[of d] \<open>d_supported d\<close> by (auto split: if_splits)
      with False \<open>d_supported d\<close> Cons.IH[of w1] Cons.prems m chosen_skip[of d env ds] show ?thesis
        by (auto simp: Let_def)
    qed
  qed
qed

definition selection :: "environments \<Rightarrow> string \<times> NF \<Rightarrow> string \<times> NF \<Rightarrow> bool" where
  "selection env x y =
     (fst y = fst x \<and>
      (snd y = snd x \<or> nf_selected (snd x) = None \<and>
        (\<exists>d. snd y = (snd x)\<lparr>nf_selected := Some d\<rparr> \<and> chosen env (nf_descriptions (snd x)) (Some d))))"

lemma selection_refl: "list_all2 (selection env) nfs nfs"
  by (rule list_all2_refl) (simp add: selection_def)

definition selection_done :: "environments \<Rightarrow> bool \<Rightarrow> (string \<times> NF) list \<Rightarrow> bool" where
  "selection_done env ok nfs =
     (if ok then \<forall>x \<in> set nfs. nf_selected (snd x) \<noteq> None
      else \<exists>x \<in> set nfs. nf_selected (snd x) = None \<and> chosen env (nf_descriptions (snd x)) None)"

lemma selection_done_Cons:
  "nf_selected (snd x) \<noteq> None \<Longrightarrow> selection_done env ok nfs \<Longrightarrow> selection_done env ok (x # nfs)"
  by (cases ok) (simp_all add: selection_done_def)

lemma select_all_selection:
  assumes "\<And>x d. x \<in> set nfs \<Longrightarrow> d \<in> set (nf_descriptions (snd x)) \<Longrightarrow> d_supported d \<Longrightarrow> env (d_type d)"
  shows "\<exists>ok nfs' w'. select_all env mgr nfs w = Inr (ok, nfs', w') \<and> list_all2 (selection env) nfs nfs' \<and>
    selection_done env ok nfs'"
  using assms
proof (induction nfs arbitrary: w)
  case Nil
  show ?case by (simp add: selection_done_def) blast
next
  case (Cons x nfs)
  obtain i nf where x: "x = (i, nf)" by fastforce
  obtain sel w1 where s: "(if nf_selected nf \<noteq> None then Inr (nf_selected nf, w)
      else selectNFImplementation env mgr (nf_descriptions nf) w) = Inr (sel, w1)"
    "nf_selected nf = None \<longrightarrow> chosen env (nf_descriptions nf) sel" "nf_selected nf \<noteq> None \<longrightarrow> sel = nf_selected nf"
    using selectNFImplementation_chosen[of "nf_descriptions nf" env mgr w] Cons.prems[of x] x
    by (cases "nf_selected nf") auto
  show ?case
  proof (cases sel)
    case None
    then have "select_all env mgr (x # nfs) w = Inr (False, x # nfs, w1)" using s(1) x by simp
    moreover have "nf_selected nf = None \<and> chosen env (nf_descriptions nf) None"
      using s(2,3) None by (cases "nf_selected nf") simp_all
    then have "selection_done env False (x # nfs)" using x by (simp add: selection_done_def)
    ultimately show ?thesis using selection_refl[of env "x # nfs"] by blast
  next
    case (Some d)
    have "\<exists>ok nfs' w'. select_all env mgr nfs w1 = Inr (ok, nfs', w') \<and> list_all2 (selection env) nfs nfs' \<and>
      selection_done env ok nfs'"
      by (rule Cons.IH) (rule Cons.prems; simp)
    then obtain ok nfs' w' where ih: "select_all env mgr nfs w1 = Inr (ok, nfs', w')"
      "list_all2 (selection env) nfs nfs'" "selection_done env ok nfs'" by blast
    let ?y = "(i, nf\<lparr>nf_selected := Some d\<rparr>)"
    have "selection env x ?y"
    proof (cases "nf_selected nf")
      case None
      then show ?thesis using s(2) Some x unfolding selection_def by auto
    next
      case (Some d')
      with s(3) \<open>sel = Some d\<close> have "nf\<lparr>nf_selected := Some d\<rparr> = nf" by (cases nf) simp
      then show ?thesis using x by (simp add: selection_def)
    qed
    then have "list_all2 (selection env) (x # nfs) (?y # nfs')" using ih(2) by simp
    moreover have "select_all env mgr (x # nfs) w = Inr (ok, ?y # nfs', w')"
      using s(1) ih(1) Some x by simp
    moreover have "selection_done env ok (?y # nfs')" by (rule selection_done_Cons[OF _ ih(3)]) simp
    ultimately show ?thesis by blast
  qed
qed

lemma list_all2_from: "list_all2 P xs ys \<Longrightarrow> y \<in> set ys \<Longrightarrow> \<exists>x \<in> set xs. P x y"
  by (induction rule: list_all2_induct) auto

lemma checked_type: "checked d d' \<Longrightarrow> d_type d' = d_type d"
  unfolding checked_def by (elim exE) simp

lemma same_nf_types:
  assumes "list_all2 same_nf nfs nfs'" "types_ok env nfs"
  shows "types_ok env nfs'"
  unfolding types_ok_def
proof (intro ballI)
  fix x' d'
  assume x': "x' \<in> set nfs'" and d': "d' \<in> set (nf_descriptions (snd x'))"
  obtain x where x: "x \<in> set nfs" "list_all2 checked (nf_descriptions (snd x)) (nf_descriptions (snd x'))"
    using list_all2_from[OF assms(1) x'] by (auto simp: same_nf_def)
  obtain d where "d \<in> set (nf_descriptions (snd x))" "checked d d'"
    using list_all2_from[OF x(2) d'] by blast
  then show "env (d_type d')" using x(1) assms(2) by (simp add: types_ok_def checked_type)
qed

text \<open>
  What \<open>selectImplementation\<close> is to do: the functions, their names and their order are kept, a
  function that had an implementation keeps it, and every other one gets the first supported
  description, or stays without one.
\<close>

definition selected_from :: "environments \<Rightarrow> string \<times> NF \<Rightarrow> string \<times> NF \<Rightarrow> bool" where
  "selected_from env x y =
     (fst y = fst x \<and> NF_name (snd y) = NF_name (snd x) \<and> nf_isRunning (snd y) = nf_isRunning (snd x) \<and>
      list_all2 checked (nf_descriptions (snd x)) (nf_descriptions (snd y)) \<and>
      (if nf_selected (snd x) \<noteq> None then nf_selected (snd y) = nf_selected (snd x)
       else nf_selected (snd y) \<noteq> None \<longrightarrow> chosen env (nf_descriptions (snd y)) (nf_selected (snd y))))"

lemma checked_selection:
  assumes "list_all2 same_nf xs ys" "list_all2 (selection env) ys zs"
  shows "list_all2 (selected_from env) xs zs"
  using assms
proof (rule list_all2_trans[rotated])
  fix x y z
  assume "same_nf x y" "selection env y z"
  then show "selected_from env x z"
    unfolding same_nf_def selection_def selected_from_def by auto
qed

section \<open>The invariant\<close>

text \<open>
  Every network function has a description, every description and every chosen implementation is
  of a type whose environment is compiled in, and a running function has an implementation.
\<close>

definition nf_ok :: "environments \<Rightarrow> NF \<Rightarrow> bool" where
  "nf_ok env nf =
     (nf_descriptions nf \<noteq> [] \<and> (\<forall>d \<in> set (nf_descriptions nf). env (d_type d)) \<and>
      (\<forall>d. nf_selected nf = Some d \<longrightarrow> env (d_type d)) \<and> (nf_isRunning nf \<longrightarrow> nf_selected nf \<noteq> None))"

definition cc_inv :: "environments \<Rightarrow> ComputeController \<Rightarrow> bool" where
  "cc_inv env cc = (om_wf (cc_nfs cc) \<and> (\<forall>x \<in> set (cc_nfs cc). nf_ok env (snd x)))"

lemma cc_inv_types: "cc_inv env cc \<Longrightarrow> types_ok env (cc_nfs cc)"
  unfolding cc_inv_def nf_ok_def types_ok_def by blast

lemma selected_from_ok:
  assumes "selected_from env x y" "nf_ok env (snd x)"
  shows "nf_ok env (snd y)"
proof -
  have l: "list_all2 checked (nf_descriptions (snd x)) (nf_descriptions (snd y))"
    using assms(1) by (simp add: selected_from_def)
  have "env (d_type d')" if d': "d' \<in> set (nf_descriptions (snd y))" for d'
  proof -
    obtain d where "d \<in> set (nf_descriptions (snd x))" "checked d d'"
      using list_all2_from[OF l d'] by blast
    then show ?thesis using assms(2) by (simp add: nf_ok_def checked_type)
  qed
  moreover have "nf_descriptions (snd y) \<noteq> []"
    using list_all2_lengthD[OF l] assms(2) by (auto simp: nf_ok_def)
  moreover have "env (d_type d)" if "nf_selected (snd y) = Some d" for d
    using assms that by (cases "nf_selected (snd x)") (auto simp: selected_from_def nf_ok_def chosen_def)
  moreover have "nf_selected (snd y) \<noteq> None" if "nf_isRunning (snd y)"
    using assms that by (cases "nf_selected (snd x)") (auto simp: selected_from_def nf_ok_def)
  ultimately show ?thesis unfolding nf_ok_def by blast
qed

lemma selected_from_keys: "list_all2 (selected_from env) xs ys \<Longrightarrow> map fst ys = map fst xs"
  by (induction rule: list_all2_induct) (simp_all add: selected_from_def)

lemma selectImplementation_outcome:
  assumes "types_ok env (cc_nfs cc)"
  obtains ok cc' w' where "selectImplementation env mgr cc w = Inr (ok, cc', w')"
    "list_all2 (selected_from env) (cc_nfs cc) (cc_nfs cc')" "cc_lsiID cc' = cc_lsiID cc"
    "ok = allSelected cc'" "selection_done env ok (cc_nfs cc')"
proof -
  obtain nfs1 w1 where c: "checkSupportedDescriptions env mgr cc w = Inr (cc\<lparr>cc_nfs := nfs1\<rparr>, w1)"
    "list_all2 same_nf (cc_nfs cc) nfs1"
    using checkSupportedDescriptions_same[OF assms, of mgr w] by blast
  note types = same_nf_types[OF c(2) assms]
  obtain ok nfs w' where s: "select_all env mgr nfs1 w1 = Inr (ok, nfs, w')"
    "list_all2 (selection env) nfs1 nfs" "selection_done env ok nfs"
    using select_all_selection[of nfs1 env mgr w1] types unfolding types_ok_def by metis
  let ?cc = "cc\<lparr>cc_nfs := nfs\<rparr>"
  have "ok = allSelected ?cc"
    using s(3) by (cases ok) (auto simp: selection_done_def allSelected_def case_prod_beta)
  moreover have "selectImplementation env mgr cc w = Inr (ok \<and> allSelected ?cc, ?cc, w')"
    using c(1) s(1) by (simp add: selectImplementation_def Let_def)
  moreover have "list_all2 (selected_from env) (cc_nfs cc) (cc_nfs ?cc)"
    using checked_selection[OF c(2) s(2)] by simp
  ultimately show ?thesis using that[of ok ?cc w'] s(3) by simp
qed

text \<open>What the parser of the answer lets through.\<close>

lemma bindP_Inr: "bindP m f = Inr y \<longleftrightarrow> (\<exists>x. m = Inr x \<and> f x = Inr y)"
  by (cases m) (simp_all add: bindP_def)

lemma needP_Inr: "needP x = Inr y \<longleftrightarrow> x = Some y"
  by (cases x) (simp_all add: needP_def)

lemma checkP_Inr: "checkP b = Inr u \<longleftrightarrow> b"
  by (simp add: checkP_def)

lemma assertP_Inr: "assertP b = Inr u \<longleftrightarrow> b"
  by (simp add: assertP_def)

lemma to_parse_Inr: "to_parse r = Inr x \<longleftrightarrow> r = Inr x"
  by (cases r) (simp_all add: to_parse_def)

lemmas parse_Inr = bindP_Inr needP_Inr checkP_Inr assertP_Inr to_parse_Inr

lemma foldP_inv:
  assumes "\<And>x s s'. I s \<Longrightarrow> f x s = Inr s' \<Longrightarrow> I s'" "I s" "foldP f xs s = Inr s'"
  shows "I s'"
  using assms(2,3) by (induction xs arbitrary: s) (auto simp: bindP_Inr intro: assms(1))

lemma Description_new_type:
  assumes "NFType_isValid env t" "Description_new env t uri ports = Inr d"
  shows "env (d_type d) \<and> \<not> d_supported d"
  using assms by (auto simp: Description_new_def NFType_isValid_def split: if_splits)

definition impl_ok :: "environments \<Rightarrow> implementation \<Rightarrow> bool" where
  "impl_ok env i = (i_next i \<or> (\<forall>t. i_type i = Some t \<longrightarrow> NFType_isValid env t))"

lemma parse_impl_member_ok: "impl_ok env i \<Longrightarrow> parse_impl_member env el i = Inr i' \<Longrightarrow> impl_ok env i'"
  by (auto simp: parse_impl_member_def Let_def parse_Inr impl_ok_def split: if_splits)

lemma implementation_description_type:
  assumes "implementation_description env n i = Inr d" "impl_ok env i" "\<not> i_next i"
  shows "env (d_type d) \<and> \<not> d_supported d"
proof -
  from assms(1) obtain t where t: "i_type i = Some t"
    by (auto simp: implementation_description_def parse_Inr)
  with assms(2,3) have valid: "NFType_isValid env t" by (simp add: impl_ok_def)
  show ?thesis using assms(1) t valid
    by (auto simp: implementation_description_def parse_Inr Let_def split: if_splits dest: Description_new_type)
qed

definition parsed_ok :: "environments \<Rightarrow> Description list \<Rightarrow> bool" where
  "parsed_ok env ds = (\<forall>d \<in> set ds. env (d_type d) \<and> \<not> d_supported d)"

lemma parse_implementation_ok:
  assumes "parsed_ok env (snd s)" "parse_implementation env n v s = Inr s'"
  shows "parsed_ok env (snd s')"
proof -
  from assms(2) obtain obj i where i: "foldP (parse_impl_member env) obj (implementation_new (fst s)) = Inr i"
    "(if i_next i then Inr (i_foundPorts i, snd s)
      else bindP (implementation_description env n i) (\<lambda>d. Inr (i_foundPorts i, snd s @ [d]))) = Inr s'"
    by (auto simp: parse_implementation_def parse_Inr)
  have "impl_ok env i"
    by (rule foldP_inv[OF parse_impl_member_ok _ i(1)]) (auto simp: impl_ok_def implementation_new_def)
  then show ?thesis using i(2) assms(1) implementation_description_type[of env n i]
    by (fastforce simp: parsed_ok_def parse_Inr split: if_splits)
qed

lemma parse_answer_member_ok:
  assumes "parsed_ok env (possibleDescriptions a)" "parse_answer_member env nm n el a = Inr a'"
  shows "parsed_ok env (possibleDescriptions a')"
proof (cases "fst el = ''implementations''")
  case True
  with assms(2) obtain xs b ds where f: "foldP (parse_implementation env n) xs (False, possibleDescriptions a) = Inr (b, ds)"
    "possibleDescriptions a' = ds"
    by (auto simp: parse_answer_member_def parse_Inr)
  have "parsed_ok env (snd (b, ds))"
    by (rule foldP_inv[where I = "\<lambda>s. parsed_ok env (snd s)", OF parse_implementation_ok _ f(1)]) (simp_all add: assms(1))
  then show ?thesis using f(2) by simp
qed (use assms in \<open>auto simp: parse_answer_member_def parse_Inr Let_def split: if_splits\<close>)

lemma fold_addDescription: "fold addDescription ds nf = nf\<lparr>nf_descriptions := nf_descriptions nf @ ds\<rparr>"
  by (induction ds arbitrary: nf) (simp_all add: addDescription_def)

lemma parseAnswer_NF_ok:
  assumes "parseAnswer_NF env v nf_name = Inr nf"
  shows "nf_ok env nf" "NF_name nf = nf_name" "nf_selected nf = None" "\<not> nf_isRunning nf"
    "\<forall>d \<in> set (nf_descriptions nf). \<not> d_supported d"
proof -
  let ?a = "\<lparr>foundName = False, foundTextDescription = False, foundImplementations = False, possibleDescriptions = []\<rparr>"
  from assms obtain obj n a where a: "foldP (parse_answer_member env nf_name n) obj ?a = Inr a"
    "possibleDescriptions a \<noteq> []" "nf = fold addDescription (possibleDescriptions a) (NF_new nf_name)"
    by (auto simp: parseAnswer_NF_def parse_Inr)
  have "parsed_ok env (possibleDescriptions a)"
    by (rule foldP_inv[OF parse_answer_member_ok _ a(1)]) (auto simp: parsed_ok_def)
  then show "nf_ok env nf" "NF_name nf = nf_name" "nf_selected nf = None" "\<not> nf_isRunning nf"
    "\<forall>d \<in> set (nf_descriptions nf). \<not> d_supported d"
    using a(2,3) by (simp_all add: fold_addDescription NF_new_def nf_ok_def parsed_ok_def)
qed

text \<open>The operations of the compute controller, as steps.\<close>

inductive compute_step :: "environments \<Rightarrow> 'w NFsManager \<Rightarrow> 'w compute_env \<Rightarrow> 'w compute_env \<Rightarrow> bool"
  for env mgr where
  step_parse: "parseAnswer env v nf_name nf_id (ce_cc e) = Inr (ok, cc) \<Longrightarrow> compute_step env mgr e (e\<lparr>ce_cc := cc\<rparr>)"
| step_select: "selectImplementation env mgr (ce_cc e) (ce_world e) = Inr (ok, cc, w) \<Longrightarrow>
    compute_step env mgr e (e\<lparr>ce_cc := cc, ce_world := w\<rparr>)"
| step_lsi: "compute_step env mgr e (e\<lparr>ce_cc := setLsiID i (ce_cc e)\<rparr>)"
| step_start: "startNF mgr nf_id names config e = Inr (ok, e') \<Longrightarrow> compute_step env mgr e e'"
| step_update: "updateNF mgr nf_id names config newPorts e = Inr (ok, e') \<Longrightarrow> compute_step env mgr e e'"
| step_stop: "stopNF mgr nf_id e = Inr (ok, e') \<Longrightarrow> compute_step env mgr e e'"

lemma om_put_all:
  "om_wf m \<Longrightarrow> \<forall>x \<in> set m. P (snd x) \<Longrightarrow> P v \<Longrightarrow> x \<in> set (om_put k v m) \<Longrightarrow> P (snd x)"
  by (induction k v m rule: om_put.induct) (auto split: if_splits)

lemma cc_inv_put: "cc_inv env cc \<Longrightarrow> nf_ok env nf \<Longrightarrow> cc_inv env (cc\<lparr>cc_nfs := om_put i nf (cc_nfs cc)\<rparr>)"
  using om_put_all[of "cc_nfs cc" "nf_ok env" nf] unfolding cc_inv_def by (simp add: om_wf_put)

lemma cc_inv_erase: "cc_inv env cc \<Longrightarrow> cc_inv env (cc\<lparr>cc_nfs := om_erase i (cc_nfs cc)\<rparr>)"
  unfolding cc_inv_def by (auto simp: om_wf_erase) (auto simp: om_erase_def)

lemma startNF_cc:
  assumes "startNF mgr i names config e = Inr (ok, e')"
  shows "ce_cc e' = ce_cc e \<or> (\<exists>nf d. map_of (cc_nfs (ce_cc e)) i = Some nf \<and> nf_selected nf = Some d \<and>
    ce_cc e' = (ce_cc e)\<lparr>cc_nfs := om_put i (nf\<lparr>nf_isRunning := True\<rparr>) (cc_nfs (ce_cc e))\<rparr>)"
  using assms by (auto simp: startNF_def bindR_Inr_iff Let_def case_prod_beta split: if_splits)

lemma compute_step_inv: "compute_step env mgr e e' \<Longrightarrow> cc_inv env (ce_cc e) \<Longrightarrow> cc_inv env (ce_cc e')"
proof (induction rule: compute_step.induct)
  case (step_parse v nf_name nf_id e ok cc)
  then show ?case using parseAnswer_NF_ok(1)[of env v nf_name]
    by (auto simp: parseAnswer_def cc_inv_put split: sum.splits parse_stop.splits)
next
  case (step_select e ok cc w)
  then obtain ok' cc' w' where "selectImplementation env mgr (ce_cc e) (ce_world e) = Inr (ok', cc', w')"
    and sel: "list_all2 (selected_from env) (cc_nfs (ce_cc e)) (cc_nfs cc')"
    using selectImplementation_outcome[OF cc_inv_types] by metis
  then have [simp]: "cc' = cc" using step_select(1) by simp
  have "nf_ok env (snd y)" if y: "y \<in> set (cc_nfs cc)" for y
  proof -
    have "y \<in> set (cc_nfs cc')" using y by simp
    then obtain x where "x \<in> set (cc_nfs (ce_cc e))" "selected_from env x y"
      using list_all2_from[OF sel] by blast
    then show ?thesis using step_select(2) selected_from_ok[of env x y] unfolding cc_inv_def by blast
  qed
  moreover have "om_wf (cc_nfs cc)"
    using step_select(2) selected_from_keys[OF sel] by (simp add: cc_inv_def)
  ultimately show ?case by (simp add: cc_inv_def)
next
  case (step_lsi e i)
  then show ?case by (simp add: setLsiID_def cc_inv_def)
next
  case (step_start nf_id names config e ok e')
  have "nf_ok env (nf\<lparr>nf_isRunning := True\<rparr>)"
    if "map_of (cc_nfs (ce_cc e)) nf_id = Some nf" "nf_selected nf = Some d" for nf d
    using step_start(2) map_of_SomeD[OF that(1)] that(2) by (auto simp: cc_inv_def nf_ok_def)
  then show ?case using startNF_cc[OF step_start(1)] step_start(2) cc_inv_put by metis
next
  case (step_update nf_id names config newPorts e ok e')
  then show ?case by (auto simp: updateNF_def bindR_Inr_iff Let_def case_prod_beta)
next
  case (step_stop nf_id e ok e')
  then show ?case
    by (auto simp: stopNF_def bindR_Inr_iff Let_def cc_inv_erase case_prod_beta split: option.splits if_splits)
qed

lemma compute_reach_inv: "(compute_step env mgr)\<^sup>*\<^sup>* e e' \<Longrightarrow> cc_inv env (ce_cc e) \<Longrightarrow> cc_inv env (ce_cc e')"
  by (induction rule: rtranclp_induct) (auto intro: compute_step_inv)

section \<open>The choice of an implementation\<close>


text \<open>A host with containers and one function whose image is there, to run the operations on.\<close>

definition ex_nfm :: "nat NFsManager" where
  "ex_nfm = \<lparr>native_new = (\<lambda>w. (False, w)), isSupported = (\<lambda>d w. (d_type d = DOCKER, w)),
     nfm_startNF = (\<lambda>d i w. (True, w + 1)), nfm_updateNF = (\<lambda>d i w. (True, w)),
     nfm_stopNF = (\<lambda>d l i w. (0 < w, w - 1))\<rparr>"

definition ex_answer :: jvalue where
  "ex_answer = JObj [(''implementations'', JArr [
        JObj [(''ports'', JArr [JObj [(''id'', JInt 1), (''type'', JStr ''vhost'')]]),
          (''type'', JStr ''kvm''), (''uri'', JStr ''fw.img'')],
        JObj [(''type'', JStr ''docker''), (''uri'', JStr ''fw:1'')]]),
     (''name'', JStr ''fw''), (''nports'', JInt 2), (''summary'', JStr ''firewall'')]"

definition ex_compute :: "nat compute_env" where
  "ex_compute = \<lparr>ce_cc = ComputeController_new 7, ce_pool = \<lparr>cores = [], nextCore = 0\<rparr>, ce_world = 0\<rparr>"

definition ex_NF :: NF where
  "ex_NF = \<lparr>NF_name = ''fw'', nf_descriptions =
     [\<lparr>d_type = KVM, d_uri = ''fw.img'', d_supported = False, d_port_types = [(1, VHOST_PORT)], d_cores = '''',
       d_location = '''', d_requirements = []\<rparr>,
      \<lparr>d_type = DOCKER, d_uri = ''fw:1'', d_supported = False, d_port_types = [], d_cores = '''',
       d_location = '''', d_requirements = []\<rparr>], nf_selected = None, nf_isRunning = False\<rparr>"

lemma ex_parse: "parseAnswer (\<lambda>t. t = KVM \<or> t = DOCKER) ex_answer ''fw'' ''1'' (ComputeController_new 7) =
    Inr (True, \<lparr>cc_nfs = [(''1'', ex_NF)], cc_lsiID = 7\<rparr>)"
  by code_simp

lemma ex_compute_reach:
  "(compute_step (\<lambda>t. t = KVM \<or> t = DOCKER) ex_nfm)\<^sup>*\<^sup>* ex_compute
     (ex_compute\<lparr>ce_cc := \<lparr>cc_nfs = [(''1'', ex_NF)], cc_lsiID = 7\<rparr>\<rparr>)"
  using step_parse[of "\<lambda>t. t = KVM \<or> t = DOCKER" ex_answer "''fw''" "''1''" ex_compute, unfolded ex_compute_def compute_env.simps, OF ex_parse]
  by (simp add: ex_compute_def r_into_rtranclp)

definition ex_docker :: Description where
  "ex_docker = \<lparr>d_type = DOCKER, d_uri = ''fw:1'', d_supported = True, d_port_types = [], d_cores = '''',
     d_location = '''', d_requirements = []\<rparr>"

definition ex_cc :: ComputeController where
  "ex_cc = \<lparr>cc_nfs = [(''1'', \<lparr>NF_name = ''fw'', nf_descriptions = [hd (nf_descriptions ex_NF), ex_docker],
     nf_selected = Some ex_docker, nf_isRunning = False\<rparr>)], cc_lsiID = 7\<rparr>"

lemma ex_select: "selectImplementation (\<lambda>t. t = KVM \<or> t = DOCKER) ex_nfm \<lparr>cc_nfs = [(''1'', ex_NF)], cc_lsiID = 7\<rparr> 0 =
    Inr (True, ex_cc, 0)"
  by code_simp


section \<open>The cores\<close>

text \<open>The cores of a mask, lowest first, and the pool that holds them.\<close>

definition core_list :: "64 word \<Rightarrow> nat list" where
  "core_list m = filter (bit m) [0..<64]"

definition core_entries :: "nat list \<Rightarrow> (int, 64 word) omap" where
  "core_entries bs = map (\<lambda>i. (int i, push_bit (bs ! i) 1)) [0..<length bs]"

definition pool_inv :: "64 word \<Rightarrow> core_pool \<Rightarrow> bool" where
  "pool_inv m p =
     (cores p = core_entries (core_list m) \<and> 0 \<le> nextCore p \<and> nextCore p < int (length (core_list m)))"

lemma core_entries_snoc: "core_entries (bs @ [b]) = core_entries bs @ [(int (length bs), push_bit b 1)]"
  by (simp add: core_entries_def nth_append)

lemma om_put_last: "(\<And>x. x \<in> set m \<Longrightarrow> fst x < k) \<Longrightarrow> om_put k v m = m @ [(k, v)]"
  by (induction k v m rule: om_put.induct) (fastforce simp: not_less_iff_gr_or_eq)+

lemma setCoreMask_fold:
  "n \<le> 64 \<Longrightarrow> fold (setCoreMask_step m) [0..<n] \<lparr>cores = [], nextCore = 0\<rparr> =
     \<lparr>cores = core_entries (filter (bit m) [0..<n]), nextCore = int (length (filter (bit m) [0..<n]))\<rparr>"
proof (induction n)
  case 0
  then show ?case by (simp add: core_entries_def)
next
  case (Suc n)
  let ?bs = "filter (bit m) [0..<n]"
  have "m AND push_bit n 1 \<noteq> 0 \<longleftrightarrow> bit m n"
    by (simp add: and_exp_eq_0_iff_not_bit push_bit_eq_mult)
  moreover have "om_put (int (length ?bs)) (push_bit n 1) (core_entries ?bs) = core_entries (?bs @ [n])"
    unfolding core_entries_snoc by (rule om_put_last) (auto simp: core_entries_def)
  ultimately show ?case using Suc by (simp add: setCoreMask_step_def Let_def)
qed

lemma map_of_core_entries: "j < length bs \<Longrightarrow> map_of (core_entries bs) (int j) = Some (push_bit (bs ! j) 1)"
  by (rule map_of_is_SomeI) (auto simp: core_entries_def distinct_map o_def inj_on_def)

lemma setCoreMask_inv: "m \<noteq> 0 \<Longrightarrow> pool_inv m (setCoreMask m \<lparr>cores = [], nextCore = 0\<rparr>)"
proof -
  assume "m \<noteq> 0"
  then have "\<exists>b. bit m b" by (auto simp: bit_eq_iff)
  then obtain b where "bit m b" by blast
  then have "core_list m \<noteq> []" using bit_imp_le_length[of m b] by (auto simp: core_list_def filter_empty_conv)
  then show ?thesis using setCoreMask_fold[of 64 m] by (simp add: setCoreMask_def pool_inv_def core_list_def)
qed

lemma next_core_step:
  assumes "pool_inv m p"
  shows "next_core (mk, p) = (mk OR push_bit (core_list m ! nat (nextCore p)) 1,
      p\<lparr>nextCore := (nextCore p + 1) mod int (length (core_list m))\<rparr>)"
proof -
  have "map_of (cores p) (nextCore p) = Some (push_bit (core_list m ! nat (nextCore p)) 1)"
    using map_of_core_entries[of "nat (nextCore p)" "core_list m"] assms by (auto simp: pool_inv_def)
  moreover have "length (cores p) = length (core_list m)"
    using assms by (simp add: pool_inv_def core_entries_def)
  ultimately show ?thesis by (simp add: next_core_def om_insert_def om_count_def)
qed

lemma pool_inv_next:
  assumes "pool_inv m p"
  shows "pool_inv m (p\<lparr>nextCore := i mod int (length (core_list m))\<rparr>)"
proof -
  have "0 < int (length (core_list m))" using assms unfolding pool_inv_def by linarith
  then have "0 \<le> i mod int (length (core_list m))" "i mod int (length (core_list m)) < int (length (core_list m))"
    by (rule pos_mod_sign, rule pos_mod_bound)
  then show ?thesis using assms by (simp add: pool_inv_def)
qed

lemma next_core_iterate:
  assumes "pool_inv m p"
  shows "snd ((next_core ^^ n) (0, p)) = p\<lparr>nextCore := (nextCore p + int n) mod int (length (core_list m))\<rparr> \<and>
    (\<forall>b. bit (fst ((next_core ^^ n) (0, p))) b \<longleftrightarrow>
      (\<exists>j < n. b = core_list m ! nat ((nextCore p + int j) mod int (length (core_list m)))))"
proof (induction n)
  case 0
  then show ?case using assms by (simp add: pool_inv_def)
next
  case (Suc n)
  let ?l = "int (length (core_list m))"
  obtain mk q where mq: "(next_core ^^ n) (0, p) = (mk, q)" by fastforce
  have q: "q = p\<lparr>nextCore := (nextCore p + int n) mod ?l\<rparr>" using Suc mq by simp
  have l: "0 < ?l" using assms unfolding pool_inv_def by linarith
  have "pool_inv m q" unfolding q by (rule pool_inv_next[OF assms])
  note step = next_core_step[OF this, of mk]
  have "((nextCore p + int n) mod ?l + 1) mod ?l = (nextCore p + int (Suc n)) mod ?l"
    by (simp add: mod_simps ac_simps)
  moreover have "bit (push_bit c 1 :: 64 word) b \<longleftrightarrow> b = c" if "c < 64" for b c
    using that by (auto simp: bit_simps)
  moreover have "core_list m ! nat ((nextCore p + int n) mod ?l) < 64"
  proof -
    have "nat ((nextCore p + int n) mod ?l) < length (core_list m)"
      using pos_mod_bound[OF l, of "nextCore p + int n"] pos_mod_sign[OF l, of "nextCore p + int n"] by linarith
    then have "core_list m ! nat ((nextCore p + int n) mod ?l) \<in> set (core_list m)" by (rule nth_mem)
    then show ?thesis by (simp add: core_list_def)
  qed
  ultimately show ?case using Suc mq step q by (simp add: bit_or_iff less_Suc_eq) blast
qed



section \<open>Stopping all functions\<close>



section \<open>Ports of an implementation\<close>



end
