(* ===== verification/Virtual_Links.thy ===== *)
theory Virtual_Links
  imports OpenFlow_Controller Compute_Controller
begin

text \<open>
  The virtual links between a tenant LSI and LSI-0 (\<open>graph_manager.cc\<close>): which links a graph
  needs (\<open>identifyVirtualLinksRequired\<close>), how \<open>newGraph\<close> shares them between the ports, how
  \<open>updateGraph_add\<close> makes more of them, and how \<open>removeUselessVlinks\<close> takes away those that no
  rule uses.

  The virtual switch is behind the abstract class \<open>SwitchManager\<close>; its operations are arguments,
  each of which may change a state of its own and may throw.
\<close>

section \<open>The switch manager\<close>

record CreateLsiIn =
  cli_controllerAddress :: string
  cli_controllerPort :: string
  cli_physicalPortsName :: "string list"
  cli_nf_types :: "(string, nf_t) omap"
  cli_netFunctionsPortsInfo :: "(string, nf_port_info list) omap"
  cli_endpointsPortsName :: "(string, string list) omap"
  cli_vlinksRemoteLsi :: "64 word list"
  cli_local_ip :: string
  cli_ipsec_certificate :: string

record CreateLsiOut =
  clo_dpid :: "64 word"
  clo_physical_ports :: "(string, 32 word) omap"
  clo_network_functions_ports :: "(string, (string, 32 word) omap) omap"
  clo_endpoints_ports :: "(string, 32 word) omap"
  clo_virtual_links :: "(32 word \<times> 32 word) list"
  clo_nf_ports_name_and_id :: "(string, (string, 32 word) omap) omap"

record 'w SwitchManager =
  createLsi :: "CreateLsiIn \<Rightarrow> ('w, CreateLsiOut) exec"
  addNFPorts :: "64 word \<Rightarrow> string \<Rightarrow> nf_t \<Rightarrow> nf_port_info list \<Rightarrow> ('w, string \<times> (string, 32 word) omap) exec"
  addEndpoint :: "64 word \<Rightarrow> string \<Rightarrow> string list \<Rightarrow> ('w, string \<times> 64 word) exec"
  addVirtualLink :: "64 word \<Rightarrow> 64 word \<Rightarrow> ('w, 64 word \<times> 64 word) exec"
  destroyLsi :: "64 word \<Rightarrow> ('w, unit) exec"
  destroyNFPorts :: "64 word \<Rightarrow> string \<Rightarrow> string oset \<Rightarrow> ('w, unit) exec"
  destroyEndpoint :: "64 word \<Rightarrow> string \<Rightarrow> ('w, unit) exec"
  destroyVirtualLink :: "64 word \<Rightarrow> 32 word \<Rightarrow> 64 word \<Rightarrow> 32 word \<Rightarrow> ('w, unit) exec"
  checkPhysicalInterfaces :: "string oset \<Rightarrow> ('w, unit) exec"

section \<open>The links a graph needs\<close>

record vlinks_required =
  vlNFs :: "string oset"
  vlPhyPorts :: "string oset"
  vlEndPointsGre :: "string oset"
  vlEndPointsInternal :: "string oset"

definition no_vlinks :: vlinks_required where
  "no_vlinks = \<lparr>vlNFs = [], vlPhyPorts = [], vlEndPointsGre = [], vlEndPointsInternal = []\<rparr>"

definition action_nf_port :: "hl_output \<Rightarrow> string" where
  "action_nf_port out = underscore_name (out_getInfo out) (unat (out_port out))"

definition require_vlink :: "HLRule \<Rightarrow> vlinks_required \<Rightarrow> vlinks_required" where
  "require_vlink r v =
     (let m = hr_match r; out = hl_out (hr_action r)
      in case getType (hr_action r) of
           ACTION_ON_NETWORK_FUNCTION \<Rightarrow>
             if matchOnPort m \<or> matchOnEndPointInternal m
             then v\<lparr>vlNFs := os_insert (action_nf_port out) (vlNFs v)\<rparr> else v
         | ACTION_ON_ENDPOINT_GRE \<Rightarrow>
             if matchOnPort m \<or> matchOnEndPointInternal m
             then v\<lparr>vlEndPointsGre := os_insert (out_toString out) (vlEndPointsGre v)\<rparr> else v
         | ACTION_ON_PORT \<Rightarrow>
             if matchOnNF m \<or> matchOnEndPointGre m
             then v\<lparr>vlPhyPorts := os_insert (out_getInfo out) (vlPhyPorts v)\<rparr> else v
         | ACTION_ON_ENDPOINT_INTERNAL \<Rightarrow>
             if \<not> matchOnPort m \<and> \<not> matchOnEndPointInternal m
             then v\<lparr>vlEndPointsInternal := os_insert (out_toString out) (vlEndPointsInternal v)\<rparr> else v)"

definition identifyVirtualLinksRequired :: "HLGraph \<Rightarrow> vlinks_required" where
  "identifyVirtualLinksRequired g = fold require_vlink (rules g) no_vlinks"

text \<open>For an update only the names that have no link yet count.\<close>

definition require_new_vlink :: "LSI \<Rightarrow> HLRule \<Rightarrow> vlinks_required \<Rightarrow> vlinks_required" where
  "require_new_vlink lsi r v =
     (let m = hr_match r; out = hl_out (hr_action r)
      in case getType (hr_action r) of
           ACTION_ON_NETWORK_FUNCTION \<Rightarrow>
             if (matchOnPort m \<or> matchOnEndPointInternal m) \<and>
                \<not> om_count (nfs_vlinks lsi) (action_nf_port out)
             then v\<lparr>vlNFs := os_insert (action_nf_port out) (vlNFs v)\<rparr> else v
         | ACTION_ON_ENDPOINT_GRE \<Rightarrow>
             if (matchOnPort m \<or> matchOnEndPointInternal m) \<and>
                \<not> om_count (endpoints_gre_vlinks lsi) (out_toString out)
             then v\<lparr>vlEndPointsGre := os_insert (out_toString out) (vlEndPointsGre v)\<rparr> else v
         | ACTION_ON_PORT \<Rightarrow>
             if (matchOnNF m \<or> matchOnEndPointGre m) \<and>
                \<not> om_count (ports_vlinks lsi) (out_getInfo out)
             then v\<lparr>vlPhyPorts := os_insert (out_getInfo out) (vlPhyPorts v)\<rparr> else v
         | ACTION_ON_ENDPOINT_INTERNAL \<Rightarrow>
             if (\<not> matchOnPort m \<and> \<not> matchOnEndPointInternal m) \<and>
                \<not> om_count (endpoints_vlinks lsi) (out_toString out)
             then v\<lparr>vlEndPointsInternal := os_insert (out_toString out) (vlEndPointsInternal v)\<rparr> else v)"

definition identifyNewVirtualLinksRequired :: "HLGraph \<Rightarrow> LSI \<Rightarrow> vlinks_required" where
  "identifyNewVirtualLinksRequired g lsi = fold (require_new_vlink lsi) (rules g) no_vlinks"

section \<open>Links of a new graph\<close>

text \<open>The two sums are \<open>unsigned int\<close>.\<close>

definition numberOfVLrequired :: "vlinks_required \<Rightarrow> nat" where
  "numberOfVLrequired v =
     (let toUp = (length (vlNFs v) + length (vlEndPointsGre v)) mod 2 ^ 32;
          toDown = (length (vlPhyPorts v) + length (vlEndPointsInternal v)) mod 2 ^ 32
      in if toUp > toDown then toUp else toDown)"

text \<open>One loop over names; a link past the end of the vector is a fault.\<close>

fun assign_vlinks ::
  "string list \<Rightarrow> VLink list \<Rightarrow> (string, 64 word) omap \<Rightarrow> ((string, 64 word) omap \<times> VLink list) result" where
  "assign_vlinks [] vls m = Inr (m, vls)"
| "assign_vlinks (n # ns) [] m = Inl EndIterator"
| "assign_vlinks (n # ns) (v # vls) m = assign_vlinks ns vls (om_put n (vl_ID v) m)"

definition associate_vlinks :: "vlinks_required \<Rightarrow> LSI \<Rightarrow> LSI result" where
  "associate_vlinks v lsi =
     (let vls = virtual_links lsi
      in if vls = [] then Inr lsi
         else bindR (assign_vlinks (vlNFs v) vls []) (\<lambda>(nfs, vlToUp).
              let lsi = setNFsVLinks nfs lsi
              in bindR (assign_vlinks (vlPhyPorts v) vls []) (\<lambda>(ports, vlToDown).
              let lsi = setPortsVLinks ports lsi
              in bindR (assign_vlinks (vlEndPointsGre v) vlToUp []) (\<lambda>(gres, _).
              let lsi = setEndPointsGreVLinks gres lsi
              in bindR (assign_vlinks (vlEndPointsInternal v) vlToDown []) (\<lambda>(ints, _).
              Inr (setEndPointsVLinks ints lsi))))))"

section \<open>Links of an update\<close>

text \<open>The switch, the counter of link identifiers and the state behind the switch manager.\<close>

record 'w lsi_env =
  env_lsi :: LSI
  env_nextID :: "64 word"
  env_world :: 'w

definition worldS :: "('w, 'a) exec \<Rightarrow> ('w lsi_env, 'a) exec" where
  "worldS m e = (case m (env_world e) of (r, w) \<Rightarrow> (r, e\<lparr>env_world := w\<rparr>))"

definition lsiS :: "(LSI \<Rightarrow> LSI result) \<Rightarrow> ('w lsi_env, unit) exec" where
  "lsiS f e = (case f (env_lsi e) of Inl x \<Rightarrow> (Inl x, e) | Inr l \<Rightarrow> (Inr (), e\<lparr>env_lsi := l\<rparr>))"

definition new_vlink :: "64 word \<Rightarrow> ('w lsi_env, nat \<times> 64 word) exec" where
  "new_vlink dpid0 e =
     (let (v, n) = VLink_new dpid0 (env_nextID e); (pos, l) = addVlink v (env_lsi e)
      in (Inr (pos, vl_ID v), e\<lparr>env_lsi := l, env_nextID := n\<rparr>))"

definition add_vlink :: "'w SwitchManager \<Rightarrow> 64 word \<Rightarrow> ('w lsi_env, 64 word) exec" where
  "add_vlink sm dpid0 =
     bindS (new_vlink dpid0) (\<lambda>(vlinkPosition, vlinkID).
     bindS (getsS (\<lambda>e. dpid (env_lsi e))) (\<lambda>d.
     bindS (worldS (addVirtualLink sm d dpid0)) (\<lambda>(idA, idB).
     bindS (lsiS (setVLinkIDs vlinkPosition (ucast idA) (ucast idB))) (\<lambda>_.
     bindS (getsS (\<lambda>e. getVirtualLink vlinkID (env_lsi e))) (\<lambda>v.
     bindS (liftS v) (\<lambda>vlink.
     bindS (liftS (assertR (vlinkID = vl_ID vlink))) (\<lambda>_.
     returnS vlinkID)))))))"

definition to_GraphManagerException :: "('s, 'a) exec \<Rightarrow> ('s, 'a) exec" where
  "to_GraphManagerException m =
     catchS m (\<lambda>e. e = SwitchManagerException) (\<lambda>_. throwS GraphManagerException)"

fun add_vlinks_nf_port ::
  "'w SwitchManager \<Rightarrow> 64 word \<Rightarrow> string list \<Rightarrow> string list \<Rightarrow> ('w lsi_env, unit) exec" where
  "add_vlinks_nf_port sm dpid0 [] [] = returnS ()"
| "add_vlinks_nf_port sm dpid0 (nf # nfs) [] =
     bindS (to_GraphManagerException (bindS (add_vlink sm dpid0) (\<lambda>i.
       lsiS (\<lambda>l. Inr (addNFvlink nf i l))))) (\<lambda>_.
     add_vlinks_nf_port sm dpid0 nfs [])"
| "add_vlinks_nf_port sm dpid0 [] (p # ps) =
     bindS (to_GraphManagerException (bindS (add_vlink sm dpid0) (\<lambda>i.
       lsiS (\<lambda>l. Inr (addPortvlink p i l))))) (\<lambda>_.
     add_vlinks_nf_port sm dpid0 [] ps)"
| "add_vlinks_nf_port sm dpid0 (nf # nfs) (p # ps) =
     bindS (to_GraphManagerException (bindS (add_vlink sm dpid0) (\<lambda>i.
       lsiS (\<lambda>l. Inr (addPortvlink p i (addNFvlink nf i l)))))) (\<lambda>_.
     add_vlinks_nf_port sm dpid0 nfs ps)"

definition add_vlink_gre :: "'w SwitchManager \<Rightarrow> 64 word \<Rightarrow> string \<Rightarrow> ('w lsi_env, unit) exec" where
  "add_vlink_gre sm dpid0 ep =
     to_GraphManagerException (bindS (add_vlink sm dpid0) (\<lambda>i.
       lsiS (\<lambda>l. Inr (addEndpointGrevlink ep i l))))"

definition add_vlink_internal :: "'w SwitchManager \<Rightarrow> 64 word \<Rightarrow> string \<Rightarrow> ('w lsi_env, unit) exec" where
  "add_vlink_internal sm dpid0 ep =
     to_GraphManagerException (bindS (add_vlink sm dpid0) (\<lambda>i.
       lsiS (\<lambda>l. Inr (addEndpointInternalvlink ep i l))))"

definition add_required_vlinks :: "'w SwitchManager \<Rightarrow> 64 word \<Rightarrow> HLGraph \<Rightarrow> ('w lsi_env, unit) exec" where
  "add_required_vlinks sm dpid0 diff =
     bindS (getsS (\<lambda>e. identifyNewVirtualLinksRequired diff (env_lsi e))) (\<lambda>v.
     bindS (add_vlinks_nf_port sm dpid0 (vlNFs v) (vlPhyPorts v)) (\<lambda>_.
     bindS (forS (add_vlink_gre sm dpid0) (vlEndPointsGre v)) (\<lambda>_.
     forS (add_vlink_internal sm dpid0) (vlEndPointsInternal v))))"

section \<open>Links no longer used\<close>

definition rule_to_nf_port :: "string \<Rightarrow> HLRule \<Rightarrow> bool" where
  "rule_to_nf_port n r =
     (getType (hr_action r) = ACTION_ON_NETWORK_FUNCTION \<and>
      (matchOnEndPointInternal (hr_match r) \<or> matchOnPort (hr_match r)) \<and>
      action_nf_port (hl_out (hr_action r)) = n)"

definition rule_to_gre :: "string \<Rightarrow> HLRule \<Rightarrow> bool" where
  "rule_to_gre n r =
     (getType (hr_action r) = ACTION_ON_ENDPOINT_GRE \<and>
      (matchOnEndPointInternal (hr_match r) \<or> matchOnPort (hr_match r)) \<and>
      out_toString (hl_out (hr_action r)) = n)"

definition rule_to_port :: "string \<Rightarrow> HLRule \<Rightarrow> bool" where
  "rule_to_port n r =
     (getType (hr_action r) = ACTION_ON_PORT \<and>
      (matchOnEndPointGre (hr_match r) \<or> matchOnNF (hr_match r)) \<and>
      out_getInfo (hl_out (hr_action r)) = n)"

definition rule_to_internal :: "string \<Rightarrow> HLRule \<Rightarrow> bool" where
  "rule_to_internal n r =
     (getType (hr_action r) = ACTION_ON_ENDPOINT_INTERNAL \<and>
      (matchOnEndPointGre (hr_match r) \<or> matchOnNF (hr_match r)) \<and>
      out_toString (hl_out (hr_action r)) = n)"

definition destroy_vlink :: "'w SwitchManager \<Rightarrow> 64 word \<Rightarrow> ('w lsi_env, unit) exec" where
  "destroy_vlink sm i =
     to_GraphManagerException (
       bindS (getsS (\<lambda>e. getVirtualLink i (env_lsi e))) (\<lambda>v.
       bindS (liftS v) (\<lambda>vl.
       bindS (getsS (\<lambda>e. dpid (env_lsi e))) (\<lambda>d.
       bindS (worldS (destroyVirtualLink sm d (local_id vl) (remote_dpid vl) (remote_id vl))) (\<lambda>_.
       lsiS (removeVlink i))))))"

definition vlink_in :: "64 word \<Rightarrow> (string, 64 word) omap \<Rightarrow> bool" where
  "vlink_in i m = (i \<in> set (map snd m))"

text \<open>
  What the four blocks have in common: the name loses its link, and the link goes unless it is
  in one of the two maps of the other direction. The result says whether the function returns
  from inside the block.
\<close>

definition drop_vlink ::
  "'w SwitchManager \<Rightarrow> (string \<Rightarrow> LSI \<Rightarrow> LSI result) \<Rightarrow> string \<Rightarrow> (string, 64 word) omap \<Rightarrow>
     (string, 64 word) omap \<Rightarrow> (string, 64 word) omap \<Rightarrow> ('w lsi_env, bool) exec" where
  "drop_vlink sm remove n m other other' =
     bindS (liftS (optionR EndIterator (map_of m n))) (\<lambda>i.
     bindS (lsiS (remove n)) (\<lambda>_.
     if vlink_in i other \<or> vlink_in i other' then returnS True
     else bindS (destroy_vlink sm i) (\<lambda>_. returnS False)))"

definition removeUselessVlinks ::
  "'w SwitchManager \<Rightarrow> RuleRemovedInfo \<Rightarrow> HLGraph \<Rightarrow> ('w lsi_env, unit) exec" where
  "removeUselessVlinks sm rri g =
     bindS (getsS env_lsi) (\<lambda>lsi.
     let nfs = nfs_vlinks lsi; ports = ports_vlinks lsi; ints = endpoints_vlinks lsi;
         gres = endpoints_gre_vlinks lsi
     in if rri_isNFport rri \<and> om_count nfs (rri_nf_port rri)
        then if \<exists>r \<in> set (rules g). rule_to_nf_port (rri_nf_port rri) r then returnS ()
             else bindS (drop_vlink sm removeNFvlink (rri_nf_port rri) nfs ports ints) (\<lambda>_. returnS ())
        else if rri_isEndpointGre rri \<and> om_count gres (rri_endpointGre rri)
        then if \<exists>r \<in> set (rules g). rule_to_gre (rri_endpointGre rri) r then returnS ()
             else bindS (drop_vlink sm removeEndPointGrevlink (rri_endpointGre rri) gres ports ints)
                    (\<lambda>_. returnS ())
        else bindS (if rri_isPort rri \<and> om_count ports (rri_port rri)
                    then if \<exists>r \<in> set (rules g). rule_to_port (rri_port rri) r then returnS True
                         else drop_vlink sm removePortvlink (rri_port rri) ports nfs gres
                    else returnS False) (\<lambda>return.
             if return then returnS ()
             else if rri_isEndpointInternal rri \<and> om_count ints (rri_endpointInternal rri)
             then if \<exists>r \<in> set (rules g). rule_to_internal (rri_endpointInternal rri) r then returnS ()
                  else bindS (drop_vlink sm removeEndPointvlink (rri_endpointInternal rri) ints nfs gres)
                         (\<lambda>_. returnS ())
             else returnS ()))"

section \<open>Names and the links they use\<close>

datatype link_kind = To_NF | To_Gre | To_Port | To_Internal

fun upward :: "link_kind \<Rightarrow> bool" where
  "upward To_NF = True"
| "upward To_Gre = True"
| "upward _ = False"

fun kind_map :: "link_kind \<Rightarrow> LSI \<Rightarrow> (string, 64 word) omap" where
  "kind_map To_NF l = nfs_vlinks l"
| "kind_map To_Gre l = endpoints_gre_vlinks l"
| "kind_map To_Port l = ports_vlinks l"
| "kind_map To_Internal l = endpoints_vlinks l"

text \<open>The name for which a rule needs a link, if it goes from one switch to the other.\<close>

definition link_use :: "HLRule \<Rightarrow> (link_kind \<times> string) option" where
  "link_use r =
     (let m = hr_match r; out = hl_out (hr_action r)
      in case getType (hr_action r) of
           ACTION_ON_NETWORK_FUNCTION \<Rightarrow>
             if matchOnPort m \<or> matchOnEndPointInternal m then Some (To_NF, action_nf_port out) else None
         | ACTION_ON_ENDPOINT_GRE \<Rightarrow>
             if matchOnPort m \<or> matchOnEndPointInternal m then Some (To_Gre, out_toString out) else None
         | ACTION_ON_PORT \<Rightarrow>
             if matchOnNF m \<or> matchOnEndPointGre m then Some (To_Port, out_getInfo out) else None
         | ACTION_ON_ENDPOINT_INTERNAL \<Rightarrow>
             if \<not> matchOnPort m \<and> \<not> matchOnEndPointInternal m then Some (To_Internal, out_toString out)
             else None)"

definition links_cover :: "HLRule list \<Rightarrow> LSI \<Rightarrow> bool" where
  "links_cover rs l =
     (\<forall>r \<in> set rs. \<forall>k n. link_use r = Some (k, n) \<longrightarrow> map_of (kind_map k l) n \<noteq> None)"

text \<open>Every name has a link that exists, and in each direction a link has one name.\<close>

definition vlink_ids :: "LSI \<Rightarrow> 64 word set" where
  "vlink_ids l = vl_ID ` set (virtual_links l)"

definition links_inv :: "LSI \<Rightarrow> bool" where
  "links_inv l =
     (distinct (map vl_ID (virtual_links l)) \<and> (\<forall>k. om_wf (kind_map k l)) \<and>
      (\<forall>k n i. map_of (kind_map k l) n = Some i \<longrightarrow> i \<in> vlink_ids l) \<and>
      (\<forall>k k' n n' i. upward k = upward k' \<longrightarrow> map_of (kind_map k l) n = Some i \<longrightarrow>
         map_of (kind_map k' l) n' = Some i \<longrightarrow> k = k' \<and> n = n'))"

definition links_used :: "LSI \<Rightarrow> bool" where
  "links_used l = (\<forall>i \<in> vlink_ids l. \<exists>k n. map_of (kind_map k l) n = Some i)"

fun kind_names :: "link_kind \<Rightarrow> vlinks_required \<Rightarrow> string oset" where
  "kind_names To_NF v = vlNFs v"
| "kind_names To_Gre v = vlEndPointsGre v"
| "kind_names To_Port v = vlPhyPorts v"
| "kind_names To_Internal v = vlEndPointsInternal v"

lemma require_vlink_names:
  "kind_names k (require_vlink r v) =
     (case link_use r of
        Some (k', n) \<Rightarrow> if k = k' then os_insert n (kind_names k v) else kind_names k v
      | None \<Rightarrow> kind_names k v)"
  by (cases k) (simp_all add: require_vlink_def link_use_def Let_def split: action_t.split)

lemma require_new_vlink_names:
  "kind_names k (require_new_vlink l r v) =
     (case link_use r of
        Some (k', n) \<Rightarrow> if k = k' \<and> map_of (kind_map k l) n = None then os_insert n (kind_names k v)
                        else kind_names k v
      | None \<Rightarrow> kind_names k v)"
  by (cases k; cases "getType (hr_action r)")
    (simp_all add: require_new_vlink_def link_use_def Let_def om_count_def)

lemma kind_names_none [simp]: "kind_names k no_vlinks = []"
  by (cases k) (simp_all add: no_vlinks_def)

text \<open>Both searches are one fold that inserts the names accepted by a test.\<close>

lemma fold_names:
  assumes step: "\<And>r v. kind_names k (f r v) =
      (case link_use r of
         Some (k', n) \<Rightarrow> if k = k' \<and> P n then os_insert n (kind_names k v) else kind_names k v
       | None \<Rightarrow> kind_names k v)"
  shows "set (kind_names k (fold f rs v)) =
      set (kind_names k v) \<union> {n. P n \<and> (\<exists>r \<in> set rs. link_use r = Some (k, n))} \<and>
    (distinct (kind_names k v) \<longrightarrow> distinct (kind_names k (fold f rs v))) \<and>
    (sorted (kind_names k v) \<longrightarrow> sorted (kind_names k (fold f rs v)))"
proof (induction rs arbitrary: v)
  case Nil
  then show ?case by simp
next
  case (Cons r rs)
  show ?case using Cons[of "f r v"]
    by (auto simp: step distinct_os_insert sorted_os_insert split: option.splits if_splits)
qed

lemma identify_names:
  shows "set (kind_names k (identifyVirtualLinksRequired g)) = {n. \<exists>r \<in> set (rules g). link_use r = Some (k, n)}"
    and "distinct (kind_names k (identifyVirtualLinksRequired g))"
proof -
  have "kind_names k (require_vlink r v) =
      (case link_use r of
         Some (k', n) \<Rightarrow> if k = k' \<and> True then os_insert n (kind_names k v) else kind_names k v
       | None \<Rightarrow> kind_names k v)" for r v
    by (simp add: require_vlink_names split: option.split)
  note f = fold_names[of k require_vlink "\<lambda>_. True", OF this, of "rules g" no_vlinks]
  from f show "set (kind_names k (identifyVirtualLinksRequired g)) =
      {n. \<exists>r \<in> set (rules g). link_use r = Some (k, n)}"
    "distinct (kind_names k (identifyVirtualLinksRequired g))"
    by (simp_all add: identifyVirtualLinksRequired_def)
qed

lemma identify_new_names:
  shows "set (kind_names k (identifyNewVirtualLinksRequired g l)) =
      {n. map_of (kind_map k l) n = None \<and> (\<exists>r \<in> set (rules g). link_use r = Some (k, n))}"
    and "distinct (kind_names k (identifyNewVirtualLinksRequired g l))"
  using fold_names[of k "require_new_vlink l" "\<lambda>n. map_of (kind_map k l) n = None",
      OF require_new_vlink_names, of "rules g" no_vlinks]
  by (simp_all add: identifyNewVirtualLinksRequired_def)

section \<open>The links of a new graph suffice\<close>

lemma fold_om_put_zip:
  assumes "distinct ns" "length ns = length is"
  shows "map_of (fold (\<lambda>(n, i). om_put n i) (zip ns is) m) = map_of m ++ map_of (zip ns is)"
  using assms
proof (induction ns "is" arbitrary: m rule: list_induct2')
  case (4 n ns i "is")
  then have "n \<notin> dom (map_of (zip ns is))" by (auto dest!: map_of_SomeD set_zip_leftD)
  with 4 show ?case
    by (simp add: map_of_om_put map_add_upd_left) (simp add: fun_eq_iff map_add_def)
qed simp_all

lemma assign_vlinks_eq:
  "length ns \<le> length vls \<Longrightarrow>
     assign_vlinks ns vls m =
       Inr (fold (\<lambda>(n, i). om_put n i) (zip ns (map vl_ID vls)) m, drop (length ns) vls)"
  by (induction ns vls m rule: assign_vlinks.induct) simp_all

lemma om_wf_fold_put: "om_wf m \<Longrightarrow> om_wf (fold (\<lambda>(n, i). om_put n i) ps m)"
  by (induction ps arbitrary: m) (auto simp: om_wf_put)

lemma fold_om_insert_wf:
  assumes "om_wf ps"
  shows "map_of (fold (\<lambda>(k, v). om_insert k v) ps m) = map_of ps ++ map_of m"
    and "om_wf m \<Longrightarrow> om_wf (fold (\<lambda>(k, v). om_insert k v) ps m)"
proof -
  show "map_of (fold (\<lambda>(k, v). om_insert k v) ps m) = map_of ps ++ map_of m"
    using assms
  proof (induction ps arbitrary: m)
    case (Cons p ps)
    then have "fst p \<notin> dom (map_of ps)" by (force dest: map_of_SomeD)
    with Cons show ?case
      by (cases p) (auto simp: map_of_om_insert map_add_def fun_eq_iff split: option.splits)
  qed simp
  show "om_wf m \<Longrightarrow> om_wf (fold (\<lambda>(k, v). om_insert k v) ps m)"
    by (induction ps arbitrary: m) (auto simp: om_insert_def om_wf_put)
qed

fun first_link :: "vlinks_required \<Rightarrow> link_kind \<Rightarrow> nat" where
  "first_link v To_Gre = length (vlNFs v)"
| "first_link v To_Internal = length (vlPhyPorts v)"
| "first_link v _ = 0"

definition enough_links :: "vlinks_required \<Rightarrow> nat \<Rightarrow> bool" where
  "enough_links v n =
     (length (vlNFs v) + length (vlEndPointsGre v) \<le> n \<and>
      length (vlPhyPorts v) + length (vlEndPointsInternal v) \<le> n)"

lemma assign_vlinks_map:
  assumes "distinct ns" "length ns + q \<le> length vls"
  shows "\<exists>m. assign_vlinks ns (drop q vls) [] = Inr (m, drop (q + length ns) vls) \<and> om_wf m \<and>
    map_of m = map_of (zip ns (map vl_ID (take (length ns) (drop q vls))))"
proof -
  let ?vs = "drop q vls"
  have z: "zip ns (map vl_ID ?vs) = zip ns (map vl_ID (take (length ns) ?vs))"
    using take_zip[of "length ns" ns "map vl_ID ?vs"] by (simp add: take_map)
  have "assign_vlinks ns ?vs [] =
      Inr (fold (\<lambda>(n, i). om_put n i) (zip ns (map vl_ID ?vs)) [], drop (q + length ns) vls)"
    using assign_vlinks_eq[of ns ?vs "[]"] assms(2) by (simp add: add.commute)
  then show ?thesis
    using fold_om_put_zip[of ns "map vl_ID (take (length ns) ?vs)" "[]"] assms
    by (simp add: z om_wf_fold_put)
qed

lemma associate_vlinks_eq:
  assumes "\<And>k. kind_map k l = []" "\<And>k. distinct (kind_names k v)" "enough_links v (length (virtual_links l))"
  shows "\<exists>a b c d. associate_vlinks v l =
      Inr (l\<lparr>nfs_vlinks := a, ports_vlinks := b, endpoints_gre_vlinks := c, endpoints_vlinks := d\<rparr>) \<and>
    (\<forall>k. om_wf (kind_map k (l\<lparr>nfs_vlinks := a, ports_vlinks := b, endpoints_gre_vlinks := c, endpoints_vlinks := d\<rparr>)) \<and>
       map_of (kind_map k (l\<lparr>nfs_vlinks := a, ports_vlinks := b, endpoints_gre_vlinks := c, endpoints_vlinks := d\<rparr>)) =
       map_of (zip (kind_names k v)
         (map vl_ID (take (length (kind_names k v)) (drop (first_link v k) (virtual_links l))))))"
proof (cases "virtual_links l = []")
  case True
  have e: "nfs_vlinks l = []" "ports_vlinks l = []" "endpoints_gre_vlinks l = []" "endpoints_vlinks l = []"
    using assms(1)[of To_NF] assms(1)[of To_Port] assms(1)[of To_Gre] assms(1)[of To_Internal] by simp_all
  have "kind_names k v = []" for k
    using assms(3) True by (cases k) (simp_all add: enough_links_def)
  moreover have "l\<lparr>nfs_vlinks := [], ports_vlinks := [], endpoints_gre_vlinks := [], endpoints_vlinks := []\<rparr> = l"
    using e by simp
  ultimately show ?thesis using True assms(1)
    by (intro exI[of _ "[]"]) (simp only: associate_vlinks_def Let_def, simp)
next
  case False
  let ?vls = "virtual_links l"
  have e: "nfs_vlinks l = []" "ports_vlinks l = []" "endpoints_gre_vlinks l = []" "endpoints_vlinks l = []"
    using assms(1)[of To_NF] assms(1)[of To_Port] assms(1)[of To_Gre] assms(1)[of To_Internal] by simp_all
  have ex: "\<exists>m. assign_vlinks (kind_names k v) (drop (first_link v k) ?vls) [] =
      Inr (m, drop (first_link v k + length (kind_names k v)) ?vls) \<and> om_wf m \<and>
    map_of m = map_of (zip (kind_names k v)
         (map vl_ID (take (length (kind_names k v)) (drop (first_link v k) ?vls))))" for k
    using assign_vlinks_map[OF assms(2)[of k], of "first_link v k" ?vls] assms(3)
    by (cases k) (simp_all add: enough_links_def)
  obtain M where M: "assign_vlinks (kind_names k v) (drop (first_link v k) ?vls) [] =
      Inr (M k, drop (first_link v k + length (kind_names k v)) ?vls)" "om_wf (M k)"
    "map_of (M k) = map_of (zip (kind_names k v)
         (map vl_ID (take (length (kind_names k v)) (drop (first_link v k) ?vls))))" for k
    using ex by metis
  let ?ins = "\<lambda>m. fold (\<lambda>(k, v). om_insert k v) m []"
  have "associate_vlinks v l =
      Inr (l\<lparr>nfs_vlinks := ?ins (M To_NF), ports_vlinks := ?ins (M To_Port),
             endpoints_gre_vlinks := ?ins (M To_Gre), endpoints_vlinks := ?ins (M To_Internal)\<rparr>)"
    using False M(1)[of To_NF] M(1)[of To_Port] M(1)[of To_Gre] M(1)[of To_Internal] e
    by (simp add: associate_vlinks_def Let_def setNFsVLinks_def setPortsVLinks_def
        setEndPointsGreVLinks_def setEndPointsVLinks_def)
  moreover have "om_wf (?ins (M k)) \<and> map_of (?ins (M k)) = map_of (M k)" for k
    using fold_om_insert_wf[OF M(2)[of k]] by simp
  moreover have "kind_map k (l\<lparr>nfs_vlinks := ?ins (M To_NF), ports_vlinks := ?ins (M To_Port),
      endpoints_gre_vlinks := ?ins (M To_Gre), endpoints_vlinks := ?ins (M To_Internal)\<rparr>) = ?ins (M k)" for k
    by (cases k) simp_all
  ultimately show ?thesis using M(3)
    by (intro exI[of _ "?ins (M To_NF)"] exI[of _ "?ins (M To_Port)"] exI[of _ "?ins (M To_Gre)"]
        exI[of _ "?ins (M To_Internal)"]) (simp only: simp_thms)
qed

text \<open>Each rule adds at most one name, so the sums of \<open>numberOfVLrequired\<close> do not wrap.\<close>

definition all_names :: "vlinks_required \<Rightarrow> nat" where
  "all_names v = length (vlNFs v) + length (vlEndPointsGre v) + length (vlPhyPorts v) + length (vlEndPointsInternal v)"

lemma length_os_insert: "length (os_insert x s) \<le> Suc (length s)"
  by (simp add: os_insert_def insort_insert_key_def)

lemma all_names_step: "all_names (require_vlink r v) \<le> Suc (all_names v)"
  using length_os_insert
  by (cases "getType (hr_action r)") (auto simp: require_vlink_def all_names_def Let_def)

lemma all_names_fold: "all_names (fold require_vlink rs v) \<le> length rs + all_names v"
proof (induction rs arbitrary: v)
  case (Cons r rs)
  show ?case using Cons[of "require_vlink r v"] all_names_step[of r v] by simp
qed simp

lemma numberOfVLrequired_eq:
  assumes "length (rules g) < 2 ^ 32"
  shows "numberOfVLrequired (identifyVirtualLinksRequired g) =
    max (length (vlNFs (identifyVirtualLinksRequired g)) + length (vlEndPointsGre (identifyVirtualLinksRequired g)))
      (length (vlPhyPorts (identifyVirtualLinksRequired g)) +
       length (vlEndPointsInternal (identifyVirtualLinksRequired g)))"
proof -
  have "all_names (identifyVirtualLinksRequired g) \<le> length (rules g)"
    using all_names_fold[of "rules g" no_vlinks]
    by (simp add: identifyVirtualLinksRequired_def all_names_def no_vlinks_def)
  with assms show ?thesis
    by (simp add: numberOfVLrequired_def all_names_def Let_def)
qed

lemma zip_link:
  assumes "distinct ns" "length ns + q \<le> length vls"
  shows "map_of (zip ns (map vl_ID (take (length ns) (drop q vls)))) n = Some i \<longleftrightarrow>
    (\<exists>j < length ns. ns ! j = n \<and> vl_ID (vls ! (q + j)) = i)"
proof -
  let ?is = "map vl_ID (take (length ns) (drop q vls))"
  have len: "length ?is = length ns" using assms(2) by simp
  have d: "distinct (map fst (zip ns ?is))" using assms(1) len by simp
  have "map_of (zip ns ?is) n = Some i \<longleftrightarrow> (n, i) \<in> set (zip ns ?is)"
    using d by (metis map_of_SomeD map_of_is_SomeI)
  also have "\<dots> \<longleftrightarrow> (\<exists>j < length ns. ns ! j = n \<and> ?is ! j = i)"
    using len by (auto simp: in_set_conv_nth)
  also have "\<dots> \<longleftrightarrow> (\<exists>j < length ns. ns ! j = n \<and> vl_ID (vls ! (q + j)) = i)"
    using assms(2) by (intro ex_cong1 conj_cong refl) simp
  finally show ?thesis .
qed

lemma enough_first:
  assumes "enough_links v n"
  shows "length (kind_names k v) + first_link v k \<le> n"
  using assms by (cases k) (simp_all add: enough_links_def)

lemma same_slot:
  assumes "upward k = upward k'" "j < length (kind_names k v)" "j' < length (kind_names k' v)"
    and "first_link v k + j = first_link v k' + j'"
  shows "k = k' \<and> j = j'"
  using assms by (cases k; cases k') simp_all

lemma slot_owner:
  assumes "j < numberOfVLrequired (identifyVirtualLinksRequired g)" "length (rules g) < 2 ^ 32"
  shows "\<exists>k j'. j' < length (kind_names k (identifyVirtualLinksRequired g)) \<and>
    j = first_link (identifyVirtualLinksRequired g) k + j'"
proof -
  let ?v = "identifyVirtualLinksRequired g"
  consider "j < length (vlNFs ?v)" | "length (vlNFs ?v) \<le> j" "j < length (vlNFs ?v) + length (vlEndPointsGre ?v)"
    | "j < length (vlPhyPorts ?v)"
    | "length (vlPhyPorts ?v) \<le> j" "j < length (vlPhyPorts ?v) + length (vlEndPointsInternal ?v)"
    using assms(1) unfolding numberOfVLrequired_eq[OF assms(2)] by linarith
  then show ?thesis
  proof cases
    case 1 then show ?thesis by (intro exI[of _ To_NF] exI[of _ j]) simp
  next
    case 2 then show ?thesis by (intro exI[of _ To_Gre] exI[of _ "j - length (vlNFs ?v)"]) simp
  next
    case 3 then show ?thesis by (intro exI[of _ To_Port] exI[of _ j]) simp
  next
    case 4 then show ?thesis by (intro exI[of _ To_Internal] exI[of _ "j - length (vlPhyPorts ?v)"]) simp
  qed
qed

definition new_links :: "HLGraph \<Rightarrow> LSI \<Rightarrow> bool" where
  "new_links g l =
     (length (rules g) < 2 ^ 32 \<and> (\<forall>k. kind_map k l = []) \<and> distinct (map vl_ID (virtual_links l)) \<and>
      length (virtual_links l) = numberOfVLrequired (identifyVirtualLinksRequired g))"

lemma new_links_enough:
  "new_links g l \<Longrightarrow> enough_links (identifyVirtualLinksRequired g) (length (virtual_links l))"
  by (simp add: new_links_def numberOfVLrequired_eq enough_links_def)

lemma associate_vlinks_slots:
  assumes "new_links g l"
  shows "\<exists>a b c d. associate_vlinks (identifyVirtualLinksRequired g) l =
      Inr (l\<lparr>nfs_vlinks := a, ports_vlinks := b, endpoints_gre_vlinks := c, endpoints_vlinks := d\<rparr>) \<and>
    (\<forall>k. om_wf (kind_map k (l\<lparr>nfs_vlinks := a, ports_vlinks := b, endpoints_gre_vlinks := c, endpoints_vlinks := d\<rparr>)) \<and>
       (\<forall>n i. map_of (kind_map k (l\<lparr>nfs_vlinks := a, ports_vlinks := b, endpoints_gre_vlinks := c, endpoints_vlinks := d\<rparr>)) n = Some i \<longleftrightarrow>
         (\<exists>j < length (kind_names k (identifyVirtualLinksRequired g)).
            kind_names k (identifyVirtualLinksRequired g) ! j = n \<and>
            vl_ID (virtual_links l ! (first_link (identifyVirtualLinksRequired g) k + j)) = i)))"
proof -
  have e: "\<And>k. kind_map k l = []" using assms by (simp add: new_links_def)
  note z = zip_link[OF identify_names(2)[of _ g] enough_first[OF new_links_enough[OF assms]]]
  show ?thesis
    using associate_vlinks_eq[of l, OF e identify_names(2)[of _ g] new_links_enough[OF assms]]
    unfolding z[symmetric] by metis
qed

lemma associate_vlinks_inv:
  assumes "new_links g l"
  shows "\<exists>a b c d. associate_vlinks (identifyVirtualLinksRequired g) l =
      Inr (l\<lparr>nfs_vlinks := a, ports_vlinks := b, endpoints_gre_vlinks := c, endpoints_vlinks := d\<rparr>) \<and>
    (\<forall>l'. l' = l\<lparr>nfs_vlinks := a, ports_vlinks := b, endpoints_gre_vlinks := c, endpoints_vlinks := d\<rparr> \<longrightarrow>
       links_inv l' \<and> links_cover (rules g) l' \<and> links_used l')"
proof -
  let ?v = "identifyVirtualLinksRequired g"
  obtain a b c d where
    l': "associate_vlinks ?v l =
      Inr (l\<lparr>nfs_vlinks := a, ports_vlinks := b, endpoints_gre_vlinks := c, endpoints_vlinks := d\<rparr>)"
    and km: "\<And>k. om_wf (kind_map k (l\<lparr>nfs_vlinks := a, ports_vlinks := b, endpoints_gre_vlinks := c, endpoints_vlinks := d\<rparr>))"
      "\<And>k n i. map_of (kind_map k (l\<lparr>nfs_vlinks := a, ports_vlinks := b, endpoints_gre_vlinks := c, endpoints_vlinks := d\<rparr>)) n = Some i \<longleftrightarrow>
         (\<exists>j < length (kind_names k ?v). kind_names k ?v ! j = n \<and> vl_ID (virtual_links l ! (first_link ?v k + j)) = i)"
    using associate_vlinks_slots[OF assms] by blast
  define l' where "l' = l\<lparr>nfs_vlinks := a, ports_vlinks := b, endpoints_gre_vlinks := c, endpoints_vlinks := d\<rparr>"
  note km = km[folded l'_def]
  have vs: "virtual_links l' = virtual_links l" by (simp add: l'_def)
  have dist: "distinct (map vl_ID (virtual_links l))" and len: "length (rules g) < 2 ^ 32"
    and num: "length (virtual_links l) = numberOfVLrequired ?v"
    using assms by (simp_all add: new_links_def)
  have slot: "first_link ?v k + j < length (virtual_links l)" if "j < length (kind_names k ?v)" for k j
    using enough_first[OF new_links_enough[OF assms], of k] that by simp
  have "links_inv l'"
    unfolding links_inv_def
  proof (intro conjI allI impI)
    show "distinct (map vl_ID (virtual_links l'))" using dist by (simp add: vs)
    show "om_wf (kind_map k l')" for k by (rule km(1))
    show "i \<in> vlink_ids l'" if "map_of (kind_map k l') n = Some i" for k n i
      using that slot unfolding km(2) vlink_ids_def vs by auto
    fix k k' n n' i
    assume u: "upward k = upward k'" "map_of (kind_map k l') n = Some i" "map_of (kind_map k' l') n' = Some i"
    then obtain j j' where j: "j < length (kind_names k ?v)" "kind_names k ?v ! j = n"
      "vl_ID (virtual_links l ! (first_link ?v k + j)) = i"
      "j' < length (kind_names k' ?v)" "kind_names k' ?v ! j' = n'"
      "vl_ID (virtual_links l ! (first_link ?v k' + j')) = i"
      unfolding km(2) by blast
    have "first_link ?v k + j = first_link ?v k' + j'"
      using j(3,6) slot[OF j(1)] slot[OF j(4)] dist by (metis distinct_conv_nth length_map nth_map)
    then show "k = k'" "n = n'" using same_slot[OF u(1) j(1,4)] j(2,5) by auto
  qed
  moreover have "links_cover (rules g) l'"
    unfolding links_cover_def
  proof (intro ballI allI impI)
    fix r k n assume "r \<in> set (rules g)" "link_use r = Some (k, n)"
    then have "n \<in> set (kind_names k ?v)" using identify_names(1)[of k g] by blast
    then show "map_of (kind_map k l') n \<noteq> None"
      using km(2)[of k n] by (auto simp: in_set_conv_nth)
  qed
  moreover have "links_used l'"
    unfolding links_used_def vlink_ids_def vs
  proof
    fix i assume "i \<in> vl_ID ` set (virtual_links l)"
    then obtain j where j: "j < numberOfVLrequired ?v" "i = vl_ID (virtual_links l ! j)"
      using num by (auto simp: in_set_conv_nth)
    from slot_owner[OF j(1) len] show "\<exists>k n. map_of (kind_map k l') n = Some i"
      unfolding km(2) j(2) by blast
  qed
  ultimately show ?thesis using l'[folded l'_def] l'_def by blast
qed

text \<open>No assignment in which the links of each direction have one name needs fewer links.\<close>

lemma direction_bound:
  assumes inv: "links_inv m" and cov: "links_cover (rules g) m" and k: "k \<noteq> k'" "upward k = upward k'"
  shows "length (kind_names k (identifyVirtualLinksRequired g)) + length (kind_names k' (identifyVirtualLinksRequired g))
    \<le> length (virtual_links m)"
proof -
  let ?v = "identifyVirtualLinksRequired g"
  let ?N = "Pair k ` set (kind_names k ?v) \<union> Pair k' ` set (kind_names k' ?v)"
  let ?f = "\<lambda>(k, n). the (map_of (kind_map k m) n)"
  have some: "\<exists>i. map_of (kind_map a m) n = Some i" if "n \<in> set (kind_names a ?v)" for a n
    using cov that identify_names(1)[of a g] by (fastforce simp: links_cover_def)
  have up: "upward a = upward k" if "(a, n) \<in> ?N" for a n using that k(2) by auto
  have dom: "\<exists>i. map_of (kind_map a m) n = Some i" if "(a, n) \<in> ?N" for a n using that some by auto
  have "inj_on ?f ?N"
  proof (rule inj_onI)
    fix x y assume xy: "x \<in> ?N" "y \<in> ?N" "?f x = ?f y"
    obtain a n b n' where p: "x = (a, n)" "y = (b, n')" by fastforce
    obtain i j where "map_of (kind_map a m) n = Some i" "map_of (kind_map b m) n' = Some j"
      using dom xy(1,2) p by metis
    moreover from this have "i = j" using xy(3) p by simp
    moreover have "upward a = upward b" using up xy(1,2) p by metis
    ultimately have "a = b \<and> n = n'" using inv unfolding links_inv_def by blast
    then show "x = y" using p by simp
  qed
  moreover have "?f ` ?N \<subseteq> vlink_ids m"
  proof (rule image_subsetI)
    fix x assume "x \<in> ?N"
    then obtain a n i where "x = (a, n)" "map_of (kind_map a m) n = Some i" using dom by fastforce
    then show "?f x \<in> vlink_ids m" using inv unfolding links_inv_def by fastforce
  qed
  ultimately have "card ?N \<le> card (vlink_ids m)"
    by (intro card_inj_on_le[of ?f]) (auto simp: vlink_ids_def)
  also have "\<dots> \<le> length (virtual_links m)"
    unfolding vlink_ids_def by (metis card_image_le card_length finite_set le_trans)
  finally have "card ?N \<le> length (virtual_links m)" .
  moreover have "card ?N = length (kind_names k ?v) + length (kind_names k' ?v)"
    using k(1) identify_names(2)[of k g] identify_names(2)[of k' g]
    by (subst card_Un_disjoint) (auto simp: card_image inj_on_def distinct_card)
  ultimately show ?thesis by simp
qed

lemma links_lower_bound:
  assumes "links_inv m" "links_cover (rules g) m" "length (rules g) < 2 ^ 32"
  shows "numberOfVLrequired (identifyVirtualLinksRequired g) \<le> length (virtual_links m)"
  using direction_bound[OF assms(1,2), of To_NF To_Gre] direction_bound[OF assms(1,2), of To_Port To_Internal]
  by (simp add: numberOfVLrequired_eq[OF assms(3)])

lemma om_wf_listed: "om_wf m \<Longrightarrow> p \<in> set m \<Longrightarrow> map_of m (fst p) = Some (snd p)"
  by (cases p) (simp add: om_wf_distinct)

lemma inj_distinct_snd:
  assumes "om_wf m" "\<And>n n' i. map_of m n = Some i \<Longrightarrow> map_of m n' = Some i \<Longrightarrow> n = n'"
  shows "distinct (map snd m)"
  unfolding distinct_map
proof
  show "distinct m" using om_wf_distinct[OF assms(1)] by (simp add: distinct_map)
  show "inj_on snd (set m)"
  proof (rule inj_onI)
    fix x y assume xy: "x \<in> set m" "y \<in> set m" "snd x = snd y"
    then show "x = y" using assms(2)[of "fst x" "snd x" "fst y"] om_wf_listed[OF assms(1)]
      by (metis prod_eq_iff)
  qed
qed

lemma links_inv_ok:
  assumes "links_inv l"
  shows "links_ok l"
proof -
  have wf: "om_wf (kind_map k l)" for k using assms by (simp add: links_inv_def)
  have one: "k = k' \<and> n = n'" if "upward k = upward k'" "map_of (kind_map k l) n = Some i"
    "map_of (kind_map k' l) n' = Some i" for k k' n n' i
    using assms that unfolding links_inv_def by blast
  have d: "distinct (map snd (kind_map k l))" for k
    using inj_distinct_snd[OF wf[of k]] one[of k k] by blast
  have "snd x \<noteq> snd y" if "x \<in> set (nfs_vlinks l)" "y \<in> set (endpoints_gre_vlinks l)" for x y
  proof
    assume "snd x = snd y"
    then have "map_of (kind_map To_NF l) (fst x) = Some (snd x)" "map_of (kind_map To_Gre l) (fst y) = Some (snd x)"
      using that om_wf_listed[OF wf[of To_NF], of x] om_wf_listed[OF wf[of To_Gre], of y]
      by (simp_all del: map_of_eq_Some_iff)
    with one[of To_NF To_Gre] show False by simp
  qed
  then show ?thesis
    using assms d[of To_NF] d[of To_Gre] d[of To_Port]
    by (auto simp: links_ok_def links_inv_def)
qed

lemma find_by_ID:
  assumes "i \<in> vlink_ids l"
  shows "\<exists>v. find (\<lambda>v. vl_ID v = i) (virtual_links l) = Some v"
  using assms by (cases "find (\<lambda>v. vl_ID v = i) (virtual_links l)") (auto simp: find_None_iff vlink_ids_def)

lemma link_of_covered:
  assumes "links_inv l" "map_of (kind_map k l) n \<noteq> None"
  shows "link_of l (kind_map k l) n \<noteq> None"
proof -
  obtain i where i: "map_of (kind_map k l) n = Some i" using assms(2) by blast
  then have "i \<in> vlink_ids l" using assms(1) unfolding links_inv_def by blast
  with find_by_ID i show ?thesis by (fastforce simp: link_of_def)
qed

section \<open>The links of an update\<close>

fun put_name :: "64 word \<Rightarrow> link_kind \<times> string \<Rightarrow> LSI \<Rightarrow> LSI" where
  "put_name i (To_NF, n) l = addNFvlink n i l"
| "put_name i (To_Gre, n) l = addEndpointGrevlink n i l"
| "put_name i (To_Port, n) l = addPortvlink n i l"
| "put_name i (To_Internal, n) l = addEndpointInternalvlink n i l"

lemma put_name_maps:
  "kind_map k (put_name i (k', n) l) = (if k = k' then om_put n i (kind_map k l) else kind_map k l)"
  "virtual_links (put_name i u l) = virtual_links l" "dpid (put_name i u l) = dpid l"
  by (cases k; cases k';
      simp add: addNFvlink_def addEndpointGrevlink_def addPortvlink_def addEndpointInternalvlink_def)
    (cases u; cases "fst u";
      simp add: addNFvlink_def addEndpointGrevlink_def addPortvlink_def addEndpointInternalvlink_def)+

text \<open>One new link under one name, or under one name for each direction.\<close>

definition link_step ::
  "'w SwitchManager \<Rightarrow> 64 word \<Rightarrow> (link_kind \<times> string) list \<Rightarrow> ('w lsi_env, unit) exec" where
  "link_step sm dpid0 us =
     to_GraphManagerException (bindS (add_vlink sm dpid0) (\<lambda>i. lsiS (\<lambda>l. Inr (fold (put_name i) us l))))"

fun pair_up :: "string list \<Rightarrow> string list \<Rightarrow> (link_kind \<times> string) list list" where
  "pair_up [] ps = map (\<lambda>p. [(To_Port, p)]) ps"
| "pair_up (n # ns) [] = [(To_NF, n)] # pair_up ns []"
| "pair_up (n # ns) (p # ps) = [(To_NF, n), (To_Port, p)] # pair_up ns ps"

lemma add_vlinks_nf_port_steps:
  "add_vlinks_nf_port sm d nfs ps = forS (link_step sm d) (pair_up nfs ps)"
  by (induction sm d nfs ps rule: add_vlinks_nf_port.induct) (simp_all add: link_step_def)

definition link_groups :: "vlinks_required \<Rightarrow> (link_kind \<times> string) list list" where
  "link_groups v =
     pair_up (vlNFs v) (vlPhyPorts v) @ map (\<lambda>n. [(To_Gre, n)]) (vlEndPointsGre v) @
     map (\<lambda>n. [(To_Internal, n)]) (vlEndPointsInternal v)"

lemma forS_map: "forS f (map g xs) = forS (\<lambda>x. f (g x)) xs"
  by (induction xs) simp_all

lemma add_required_vlinks_steps:
  "add_required_vlinks sm d diff e =
     forS (link_step sm d) (link_groups (identifyNewVirtualLinksRequired diff (env_lsi e))) e"
proof -
  have "add_vlink_gre sm d = (\<lambda>n. link_step sm d [(To_Gre, n)])"
    "add_vlink_internal sm d = (\<lambda>n. link_step sm d [(To_Internal, n)])"
    by (simp_all add: fun_eq_iff add_vlink_gre_def add_vlink_internal_def link_step_def)
  then show ?thesis
    by (simp add: add_required_vlinks_def add_vlinks_nf_port_steps link_groups_def forS_append forS_map)
qed

lemma pair_up_names:
  "set (concat (pair_up ns ps)) = Pair To_NF ` set ns \<union> Pair To_Port ` set ps"
  "distinct ns \<Longrightarrow> distinct ps \<Longrightarrow> distinct (concat (pair_up ns ps))"
  "us \<in> set (pair_up ns ps) \<Longrightarrow> us \<noteq> [] \<and> distinct (map (upward \<circ> fst) us)"
  "length (pair_up ns ps) \<le> length ns + length ps"
proof -
  show s: "set (concat (pair_up ns ps)) = Pair To_NF ` set ns \<union> Pair To_Port ` set ps" for ns ps
    by (induction ns ps rule: pair_up.induct) auto
  show "distinct ns \<Longrightarrow> distinct ps \<Longrightarrow> distinct (concat (pair_up ns ps))"
  proof (induction ns ps rule: pair_up.induct)
    case (1 ps)
    have "concat (map (\<lambda>p. [(To_Port, p)]) ps) = map (Pair To_Port) ps" by (induction ps) simp_all
    with 1 show ?case by (simp add: distinct_map inj_on_def)
  next
    case (2 n ns)
    then show ?case using s[of ns "[]"] by auto
  next
    case (3 n ns p ps)
    then show ?case using s[of ns ps] by auto
  qed
  show "us \<in> set (pair_up ns ps) \<Longrightarrow> us \<noteq> [] \<and> distinct (map (upward \<circ> fst) us)"
    by (induction ns ps rule: pair_up.induct) auto
  show "length (pair_up ns ps) \<le> length ns + length ps"
    by (induction ns ps rule: pair_up.induct) auto
qed

definition required_names :: "vlinks_required \<Rightarrow> (link_kind \<times> string) set" where
  "required_names v = {(k, n). n \<in> set (kind_names k v)}"

lemma concat_single: "concat (map (\<lambda>n. [f n]) ns) = map f ns"
  by (induction ns) simp_all

lemma link_groups_names:
  assumes "\<And>k. distinct (kind_names k v)"
  shows "set (concat (link_groups v)) = required_names v" "distinct (concat (link_groups v))"
    "us \<in> set (link_groups v) \<Longrightarrow> us \<noteq> [] \<and> distinct (map (upward \<circ> fst) us)"
    "length (link_groups v) \<le> all_names v"
proof -
  have d: "distinct (vlNFs v)" "distinct (vlPhyPorts v)" "distinct (vlEndPointsGre v)" "distinct (vlEndPointsInternal v)"
    using assms[of To_NF] assms[of To_Port] assms[of To_Gre] assms[of To_Internal] by simp_all
  have "(k, n) \<in> required_names v \<longleftrightarrow> (k, n) \<in> Pair To_NF ` set (vlNFs v) \<union> Pair To_Port ` set (vlPhyPorts v) \<union>
      Pair To_Gre ` set (vlEndPointsGre v) \<union> Pair To_Internal ` set (vlEndPointsInternal v)" for k n
    by (cases k) (auto simp: required_names_def)
  then show "set (concat (link_groups v)) = required_names v"
    unfolding link_groups_def concat_append set_append pair_up_names(1) concat_single by auto
  show "distinct (concat (link_groups v))"
    unfolding link_groups_def concat_append distinct_append pair_up_names(1) concat_single set_append
    using pair_up_names(2)[OF d(1,2)] d(3,4) by (auto simp: distinct_map inj_on_def)
  show "us \<in> set (link_groups v) \<Longrightarrow> us \<noteq> [] \<and> distinct (map (upward \<circ> fst) us)"
    by (auto simp: link_groups_def dest: pair_up_names(3))
  show "length (link_groups v) \<le> all_names v"
    using pair_up_names(4)[of "vlNFs v" "vlPhyPorts v"] by (simp add: link_groups_def all_names_def)
qed

lemma fold_put_names:
  "map_of (kind_map k (fold (put_name i) us l)) n =
     (if (k, n) \<in> set us then Some i else map_of (kind_map k l) n)"
  "(\<And>k. om_wf (kind_map k l)) \<Longrightarrow> om_wf (kind_map k (fold (put_name i) us l))"
  "virtual_links (fold (put_name i) us l) = virtual_links l"
  "dpid (fold (put_name i) us l) = dpid l"
proof (induction us arbitrary: l)
  case Nil
  { case 1 show ?case by simp }
  { case 2 then show ?case by simp }
  { case 3 show ?case by simp }
  { case 4 show ?case by simp }
next
  case (Cons u us)
  obtain k' n' where u: "u = (k', n')" by fastforce
  { case 1 show ?case using Cons(1)[of "put_name i u l"] by (auto simp: u put_name_maps map_of_om_put) }
  { case 2 then show ?case using Cons(2)[of "put_name i u l"] by (simp add: u put_name_maps om_wf_put) }
  { case 3 show ?case using Cons(3)[of "put_name i u l"] by (simp add: put_name_maps) }
  { case 4 show ?case using Cons(4)[of "put_name i u l"] by (simp add: put_name_maps) }
qed

abbreviation with_vlink :: "VLink \<Rightarrow> LSI \<Rightarrow> LSI" where
  "with_vlink v l \<equiv> l\<lparr>virtual_links := virtual_links l @ [v]\<rparr>"

lemma find_append_fresh:
  "i \<notin> vlink_ids l \<Longrightarrow> find (\<lambda>v. vl_ID v = i) (virtual_links l @ [v]) = (if vl_ID v = i then Some v else None)"
proof -
  assume "i \<notin> vlink_ids l"
  then have "find (\<lambda>v. vl_ID v = i) (virtual_links l) = None" by (auto simp: find_None_iff vlink_ids_def)
  then show ?thesis by (simp add: find_append)
qed

lemma add_vlink_eq:
  assumes "env_nextID e \<notin> vlink_ids (env_lsi e)"
  shows "add_vlink sm d e =
    (case addVirtualLink sm (dpid (env_lsi e)) d (env_world e) of
       (Inl x, w) \<Rightarrow>
         (Inl x, e\<lparr>env_lsi := with_vlink \<lparr>vl_ID = env_nextID e, remote_dpid = d, local_id = 0, remote_id = 0\<rparr> (env_lsi e),
                   env_nextID := env_nextID e + 1, env_world := w\<rparr>)
     | (Inr (a, b), w) \<Rightarrow>
         (Inr (env_nextID e),
          e\<lparr>env_lsi := with_vlink \<lparr>vl_ID = env_nextID e, remote_dpid = d, local_id = ucast a, remote_id = ucast b\<rparr> (env_lsi e),
            env_nextID := env_nextID e + 1, env_world := w\<rparr>))"
proof (cases "addVirtualLink sm (dpid (env_lsi e)) d (env_world e)")
  case (Pair r w)
  note f = find_append_fresh[OF assms]
  show ?thesis
  proof (cases r)
    case (Inl x)
    with Pair show ?thesis
      by (simp add: add_vlink_def bindS_def new_vlink_def VLink_new_def addVlink_def exec_simps worldS_def)
  next
    case (Inr ab)
    obtain a b where "ab = (a, b)" by fastforce
    with Inr Pair f show ?thesis
      by (simp add: add_vlink_def bindS_def new_vlink_def VLink_new_def addVlink_def exec_simps worldS_def
          lsiS_def setVLinkIDs_def getVirtualLink_def)
  qed
qed

lemma kind_map_with_vlink [simp]: "kind_map k (l\<lparr>virtual_links := vs\<rparr>) = kind_map k l"
  by (cases k) simp_all

lemma vlink_ids_with_vlink [simp]: "vlink_ids (with_vlink v l) = insert (vl_ID v) (vlink_ids l)"
  by (auto simp: vlink_ids_def)

lemma links_inv_with_vlink:
  assumes "links_inv l" "vl_ID v \<notin> vlink_ids l"
  shows "links_inv (with_vlink v l)"
  using assms unfolding links_inv_def kind_map_with_vlink vlink_ids_with_vlink
  by (auto simp: vlink_ids_def)

lemma links_inv_put:
  assumes inv: "links_inv l" and i: "i \<in> vlink_ids l" "\<And>k n. map_of (kind_map k l) n \<noteq> Some i"
    and us: "distinct (map (upward \<circ> fst) us)"
  shows "links_inv (fold (put_name i) us l)"
  unfolding links_inv_def
proof (intro conjI allI impI)
  let ?l = "fold (put_name i) us l"
  show "distinct (map vl_ID (virtual_links ?l))" using inv by (simp add: fold_put_names links_inv_def)
  show "om_wf (kind_map k ?l)" for k
    using inv by (intro fold_put_names) (simp add: links_inv_def)
  show "j \<in> vlink_ids ?l" if "map_of (kind_map k ?l) n = Some j" for k n j
    using that inv i(1) by (auto simp: fold_put_names links_inv_def vlink_ids_def split: if_splits)
  fix k k' n n' j
  assume u: "upward k = upward k'" "map_of (kind_map k ?l) n = Some j" "map_of (kind_map k' ?l) n' = Some j"
  show "k = k'" "n = n'"
  proof (atomize (full), cases "j = i")
    case True
    then have "(k, n) \<in> set us" "(k', n') \<in> set us"
      using u(2,3) i(2) by (auto simp: fold_put_names split: if_splits)
    then show "k = k' \<and> n = n'" using us u(1) by (force simp: distinct_map inj_on_def)
  next
    case False
    then have "map_of (kind_map k l) n = Some j" "map_of (kind_map k' l) n' = Some j"
      using u(2,3) by (auto simp: fold_put_names split: if_splits)
    then show "k = k' \<and> n = n'" using inv u(1) unfolding links_inv_def by blast
  qed
qed

definition env_inv :: "'w lsi_env \<Rightarrow> bool" where
  "env_inv e = (links_inv (env_lsi e) \<and> (\<forall>i \<in> vlink_ids (env_lsi e). unat i < unat (env_nextID e)))"

text \<open>What a run of steps does: names of \<open>us\<close> are new, the other names keep their links.\<close>

definition links_grow :: "(link_kind \<times> string) set \<Rightarrow> 'w lsi_env \<Rightarrow> 'w lsi_env \<Rightarrow> bool" where
  "links_grow us e e' =
     (dpid (env_lsi e') = dpid (env_lsi e) \<and>
      (\<forall>k n. (k, n) \<notin> us \<longrightarrow> map_of (kind_map k (env_lsi e')) n = map_of (kind_map k (env_lsi e)) n))"

definition names_linked :: "(link_kind \<times> string) set \<Rightarrow> LSI \<Rightarrow> bool" where
  "names_linked us l = (\<forall>(k, n) \<in> us. map_of (kind_map k l) n \<noteq> None)"

lemma unat_Suc_small: "unat (x :: 64 word) + 1 < 2 ^ 64 \<Longrightarrow> unat (x + 1) = Suc (unat x)"
  using unat_add_small[of x 1] by simp

lemma link_step_inv:
  assumes inv: "env_inv e" and room: "unat (env_nextID e) + 1 < 2 ^ 64"
    and us: "us \<noteq> []" "distinct (map (upward \<circ> fst) us)" "\<And>k n. (k, n) \<in> set us \<Longrightarrow> map_of (kind_map k (env_lsi e)) n = None"
    and run: "link_step sm d us e = (r, e')"
  shows "env_inv e' \<and> unat (env_nextID e') = Suc (unat (env_nextID e)) \<and> links_grow (set us) e e' \<and>
    (case r of Inl x \<Rightarrow> links_grow {} e e'
     | Inr _ \<Rightarrow> names_linked (set us) (env_lsi e') \<and> (links_used (env_lsi e) \<longrightarrow> links_used (env_lsi e')))"
proof -
  let ?l = "env_lsi e" and ?i = "env_nextID e"
  have fresh: "?i \<notin> vlink_ids ?l" using inv by (auto simp: env_inv_def)
  have linv: "links_inv ?l" using inv by (simp add: env_inv_def)
  have unused: "map_of (kind_map k ?l) n \<noteq> Some ?i" for k n
    using linv fresh unfolding links_inv_def by blast
  have below: "\<forall>i \<in> insert ?i (vlink_ids ?l). unat i < unat (?i + 1)"
    using inv unat_Suc_small[OF room] by (auto simp: env_inv_def less_Suc_eq)
  have step: "links_inv (with_vlink v ?l)" if "vl_ID v = ?i" for v
    using links_inv_with_vlink[OF linv] fresh that by simp
  obtain q w where q: "addVirtualLink sm (dpid ?l) d (env_world e) = (q, w)" by fastforce
  show ?thesis
  proof (cases q)
    case (Inl x)
    then have "e' = e\<lparr>env_lsi := with_vlink \<lparr>vl_ID = ?i, remote_dpid = d, local_id = 0, remote_id = 0\<rparr> ?l,
        env_nextID := ?i + 1, env_world := w\<rparr>" "\<exists>y. r = Inl y"
      using run q by (auto simp: link_step_def to_GraphManagerException_def catchS_def bindS_def exec_simps
          add_vlink_eq[OF fresh] split: if_splits)
    then show ?thesis
      using step below unat_Suc_small[OF room] by (auto simp: env_inv_def links_grow_def)
  next
    case (Inr ab)
    obtain a b where ab: "ab = (a, b)" by fastforce
    let ?v = "\<lparr>vl_ID = ?i, remote_dpid = d, local_id = ucast a, remote_id = ucast b\<rparr>"
    let ?l' = "fold (put_name ?i) us (with_vlink ?v ?l)"
    have e': "e' = e\<lparr>env_lsi := ?l', env_nextID := ?i + 1, env_world := w\<rparr>" "r = Inr ()"
      using run q Inr ab by (auto simp: link_step_def to_GraphManagerException_def catchS_def bindS_def exec_simps
          add_vlink_eq[OF fresh] lsiS_def)
    have "links_inv ?l'"
      using links_inv_put[OF step[of ?v] _ _ us(2)] unused by simp
    moreover have ids: "vlink_ids ?l' = insert ?i (vlink_ids ?l)"
      by (auto simp: vlink_ids_def fold_put_names)
    moreover have "names_linked (set us) ?l'" by (auto simp: names_linked_def fold_put_names)
    moreover have "links_used ?l'" if used: "links_used ?l"
    proof -
      obtain k n where kn: "(k, n) \<in> set us" using us(1) by (cases us) auto
      have "\<exists>k n. map_of (kind_map k ?l') n = Some j" if jl: "j \<in> vlink_ids ?l" for j
      proof -
        obtain k n where j: "map_of (kind_map k ?l) n = Some j" using used jl unfolding links_used_def by blast
        then have "(k, n) \<notin> set us" using us(3) by force
        with j show ?thesis by (intro exI[of _ k] exI[of _ n]) (simp add: fold_put_names)
      qed
      moreover have "map_of (kind_map k ?l') n = Some ?i" using kn by (simp add: fold_put_names)
      ultimately show ?thesis unfolding links_used_def ids by blast
    qed
    ultimately show ?thesis
      using below unat_Suc_small[OF room] e'
      by (simp add: env_inv_def links_grow_def fold_put_names)
  qed
qed

lemma forS_Cons_cases:
  assumes "forS f (x # xs) s = (r, t)"
  obtains e where "r = Inl e" "f x s = (Inl e, t)" | s' where "f x s = (Inr (), s')" "forS f xs s' = (r, t)"
  using assms by (cases "f x s"; cases "fst (f x s)") (auto simp: bindS_def)

lemma link_steps_inv:
  assumes "env_inv e" "unat (env_nextID e) + length uss < 2 ^ 64"
    and "\<And>us. us \<in> set uss \<Longrightarrow> us \<noteq> [] \<and> distinct (map (upward \<circ> fst) us)" "distinct (concat uss)"
    and "\<And>k n. (k, n) \<in> set (concat uss) \<Longrightarrow> map_of (kind_map k (env_lsi e)) n = None"
    and "forS (link_step sm d) uss e = (r, e')"
  shows "env_inv e' \<and> unat (env_nextID e') \<le> unat (env_nextID e) + length uss \<and>
    links_grow (set (concat uss)) e e' \<and>
    (r = Inr () \<longrightarrow> names_linked (set (concat uss)) (env_lsi e') \<and>
       (links_used (env_lsi e) \<longrightarrow> links_used (env_lsi e')))"
  using assms
proof (induction uss arbitrary: e)
  case Nil
  then show ?case by (simp add: returnS_def links_grow_def names_linked_def)
next
  case (Cons us uss)
  have us: "us \<noteq> []" "distinct (map (upward \<circ> fst) us)" using Cons.prems(3)[OF list.set_intros(1)] by blast+
  have new: "\<And>k n. (k, n) \<in> set us \<Longrightarrow> map_of (kind_map k (env_lsi e)) n = None"
    using Cons.prems(5) by simp
  have room: "unat (env_nextID e) + 1 < 2 ^ 64" using Cons.prems(2) by simp
  note step = link_step_inv[OF Cons.prems(1) room us new]
  from Cons.prems(6) show ?case
  proof (rule forS_Cons_cases)
    fix x assume x: "r = Inl x" "link_step sm d us e = (Inl x, e')"
    from step[OF _ x(2)] x(1) show ?thesis by (auto simp: links_grow_def)
  next
    fix e1 assume e1: "link_step sm d us e = (Inr (), e1)" "forS (link_step sm d) uss e1 = (r, e')"
    note s = step[OF _ e1(1)]
    have g: "links_grow (set us) e e1" "names_linked (set us) (env_lsi e1)" "env_inv e1"
      "unat (env_nextID e1) = Suc (unat (env_nextID e))"
      "links_used (env_lsi e) \<longrightarrow> links_used (env_lsi e1)"
      using s by simp_all
    have none: "map_of (kind_map k (env_lsi e1)) n = None" if "(k, n) \<in> set (concat uss)" for k n
    proof -
      have "(k, n) \<notin> set us" using that Cons.prems(4) by auto
      then show ?thesis using g(1) Cons.prems(5)[of k n] that by (simp add: links_grow_def)
    qed
    have ih: "env_inv e' \<and> unat (env_nextID e') \<le> unat (env_nextID e1) + length uss \<and>
        links_grow (set (concat uss)) e1 e' \<and>
        (r = Inr () \<longrightarrow> names_linked (set (concat uss)) (env_lsi e') \<and>
           (links_used (env_lsi e1) \<longrightarrow> links_used (env_lsi e')))"
      using Cons.prems(2-4) g(3,4) none e1(2) by (intro Cons.IH) simp_all
    have "map_of (kind_map k (env_lsi e')) n \<noteq> None" if kn: "(k, n) \<in> set us" for k n
    proof -
      have "(k, n) \<notin> set (concat uss)" using kn Cons.prems(4) by auto
      then have "map_of (kind_map k (env_lsi e')) n = map_of (kind_map k (env_lsi e1)) n"
        using ih by (simp add: links_grow_def)
      then show ?thesis using g(2) kn unfolding names_linked_def by (metis (lifting) case_prodD)
    qed
    then have "names_linked (set us) (env_lsi e')" unfolding names_linked_def by blast
    with ih g show ?thesis by (auto simp: links_grow_def names_linked_def)
  qed
qed

lemma all_names_new_step: "all_names (require_new_vlink l r v) \<le> Suc (all_names v)"
  using length_os_insert
  by (cases "getType (hr_action r)") (auto simp: require_new_vlink_def all_names_def Let_def)

lemma all_names_new: "all_names (identifyNewVirtualLinksRequired g l) \<le> length (rules g)"
proof -
  have "all_names (fold (require_new_vlink l) rs v) \<le> length rs + all_names v" for rs v
  proof (induction rs arbitrary: v)
    case (Cons r rs)
    show ?case using Cons[of "require_new_vlink l r v"] all_names_new_step[of l r v] by simp
  qed simp
  from this[of "rules g" no_vlinks] show ?thesis
    by (simp add: identifyNewVirtualLinksRequired_def all_names_def no_vlinks_def)
qed

lemma add_required_vlinks_inv:
  assumes "env_inv e" "unat (env_nextID e) + length (rules diff) < 2 ^ 64"
    and "add_required_vlinks sm d diff e = (r, e')"
  shows "env_inv e' \<and> unat (env_nextID e') \<le> unat (env_nextID e) + length (rules diff) \<and>
    dpid (env_lsi e') = dpid (env_lsi e) \<and>
    (\<forall>k n. map_of (kind_map k (env_lsi e)) n \<noteq> None \<longrightarrow>
       map_of (kind_map k (env_lsi e')) n = map_of (kind_map k (env_lsi e)) n) \<and>
    (r = Inr () \<longrightarrow> links_cover (rules diff) (env_lsi e') \<and>
       (links_used (env_lsi e) \<longrightarrow> links_used (env_lsi e')))"
proof -
  let ?v = "identifyNewVirtualLinksRequired diff (env_lsi e)"
  note g = link_groups_names[OF identify_new_names(2)[of _ diff "env_lsi e"]]
  have len: "length (link_groups ?v) \<le> length (rules diff)" using g(4) all_names_new by (rule le_trans)
  have none: "map_of (kind_map k (env_lsi e)) n = None" if "(k, n) \<in> set (concat (link_groups ?v))" for k n
    using that identify_new_names(1)[of k diff "env_lsi e"] unfolding g(1) required_names_def by simp
  have s: "env_inv e' \<and> unat (env_nextID e') \<le> unat (env_nextID e) + length (link_groups ?v) \<and>
    links_grow (set (concat (link_groups ?v))) e e' \<and>
    (r = Inr () \<longrightarrow> names_linked (set (concat (link_groups ?v))) (env_lsi e') \<and>
       (links_used (env_lsi e) \<longrightarrow> links_used (env_lsi e')))"
    using assms len none g(2,3) by (intro link_steps_inv) (simp_all add: add_required_vlinks_steps)
  have old: "map_of (kind_map k (env_lsi e')) n = map_of (kind_map k (env_lsi e)) n"
    if "map_of (kind_map k (env_lsi e)) n \<noteq> None" for k n
    using s none that unfolding links_grow_def by metis
  have "links_cover (rules diff) (env_lsi e')" if "r = Inr ()"
    unfolding links_cover_def
  proof (intro ballI allI impI)
    fix x k n assume x: "x \<in> set (rules diff)" "link_use x = Some (k, n)"
    show "map_of (kind_map k (env_lsi e')) n \<noteq> None"
    proof (cases "map_of (kind_map k (env_lsi e)) n = None")
      case True
      with x have "(k, n) \<in> required_names ?v"
        using identify_new_names(1)[of k diff "env_lsi e"] by (auto simp: required_names_def)
      moreover have "names_linked (required_names ?v) (env_lsi e')" using s that unfolding g(1) by blast
      ultimately show ?thesis unfolding names_linked_def by blast
    qed (simp add: old)
  qed
  with s old len show ?thesis by (auto simp: links_grow_def)
qed

section \<open>Links that go\<close>

fun remove_name :: "link_kind \<Rightarrow> string \<Rightarrow> LSI \<Rightarrow> LSI result" where
  "remove_name To_NF = removeNFvlink"
| "remove_name To_Gre = removeEndPointGrevlink"
| "remove_name To_Port = removePortvlink"
| "remove_name To_Internal = removeEndPointvlink"

lemma kind_map_upd:
  "k \<noteq> To_NF \<Longrightarrow> kind_map k (l\<lparr>nfs_vlinks := x\<rparr>) = kind_map k l"
  "k \<noteq> To_Gre \<Longrightarrow> kind_map k (l\<lparr>endpoints_gre_vlinks := x\<rparr>) = kind_map k l"
  "k \<noteq> To_Port \<Longrightarrow> kind_map k (l\<lparr>ports_vlinks := x\<rparr>) = kind_map k l"
  "k \<noteq> To_Internal \<Longrightarrow> kind_map k (l\<lparr>endpoints_vlinks := x\<rparr>) = kind_map k l"
  by (cases k; simp)+

lemma remove_name_eq:
  assumes "map_of (kind_map k l) n \<noteq> None"
  shows "\<exists>l'. remove_name k n l = Inr l' \<and> kind_map k l' = om_erase n (kind_map k l) \<and>
    (\<forall>k'. k' \<noteq> k \<longrightarrow> kind_map k' l' = kind_map k' l) \<and> virtual_links l' = virtual_links l \<and> dpid l' = dpid l"
  using assms
  by (cases k) (auto simp: removeNFvlink_def removeEndPointGrevlink_def removePortvlink_def
      removeEndPointvlink_def om_count_def assertR_def kind_map_upd)

lemma map_of_erased: "map_of (om_erase n m) n' = (if n' = n then None else map_of m n')"
  by (simp add: map_of_om_erase)

lemma links_inv_erase:
  assumes "links_inv l" "kind_map k l' = om_erase n (kind_map k l)" "\<And>k'. k' \<noteq> k \<Longrightarrow> kind_map k' l' = kind_map k' l"
    and "virtual_links l' = virtual_links l"
  shows "links_inv l'"
proof -
  have sub: "map_of (kind_map k' l) n' = Some i" if "map_of (kind_map k' l') n' = Some i" for k' n' i
    using that assms(2) assms(3)[of k'] by (cases "k' = k") (auto simp: map_of_erased split: if_splits)
  show ?thesis
    unfolding links_inv_def
  proof (intro conjI allI impI)
    show "distinct (map vl_ID (virtual_links l'))" using assms(1,4) by (simp add: links_inv_def)
    show "om_wf (kind_map k' l')" for k'
      using assms(1-3) by (cases "k' = k") (auto simp: links_inv_def om_wf_erase)
    show "i \<in> vlink_ids l'" if "map_of (kind_map k' l') n' = Some i" for k' n' i
      using sub[OF that] assms(1,4) by (auto simp: links_inv_def vlink_ids_def)
    fix k1 k2 n1 n2 i
    assume "upward k1 = upward k2" "map_of (kind_map k1 l') n1 = Some i" "map_of (kind_map k2 l') n2 = Some i"
    then have "k1 = k2 \<and> n1 = n2" using sub assms(1) unfolding links_inv_def by blast
    then show "k1 = k2" "n1 = n2" by simp_all
  qed
qed

lemma links_inv_removeVlink:
  assumes "links_inv l" "i \<in> vlink_ids l" "\<And>k n. map_of (kind_map k l) n \<noteq> Some i"
  shows "\<exists>vs. removeVlink i l = Inr (l\<lparr>virtual_links := vs\<rparr>) \<and> links_inv (l\<lparr>virtual_links := vs\<rparr>) \<and>
    vlink_ids (l\<lparr>virtual_links := vs\<rparr>) = vlink_ids l - {i}"
proof -
  obtain vs where vs: "erase_first (\<lambda>v. vl_ID v = i) (virtual_links l) = Some vs"
    using assms(2) by (cases "erase_first (\<lambda>v. vl_ID v = i) (virtual_links l)")
      (auto simp: vlink_ids_def erase_first_None_iff)
  then obtain as x bs where x: "virtual_links l = as @ x # bs" "vs = as @ bs" "vl_ID x = i"
    by (rule erase_first_SomeD)
  have d: "distinct (map vl_ID (virtual_links l))" using assms(1) by (simp add: links_inv_def)
  then have ids: "vlink_ids (l\<lparr>virtual_links := vs\<rparr>) = vlink_ids l - {i}"
    by (auto simp: vlink_ids_def x)
  moreover have "links_inv (l\<lparr>virtual_links := vs\<rparr>)"
    unfolding links_inv_def kind_map_with_vlink ids
    using assms(1,3) d unfolding links_inv_def by (auto simp: x)
  ultimately show ?thesis using vs by (intro exI[of _ vs]) (simp add: removeVlink_def)
qed

text \<open>The virtual switch reports a failure with \<open>SwitchManagerException\<close> and with nothing else.\<close>

definition fails_orderly :: "('w, 'a) exec \<Rightarrow> bool" where
  "fails_orderly m = (\<forall>w x w'. m w = (Inl x, w') \<longrightarrow> x = SwitchManagerException)"

definition orderly_links :: "'w SwitchManager \<Rightarrow> bool" where
  "orderly_links sm =
     ((\<forall>a b. fails_orderly (addVirtualLink sm a b)) \<and>
      (\<forall>a b c d. fails_orderly (destroyVirtualLink sm a b c d)))"

text \<open>The state after a name lost its link, up to the link itself.\<close>

definition name_dropped :: "link_kind \<Rightarrow> string \<Rightarrow> 'w lsi_env \<Rightarrow> 'w lsi_env \<Rightarrow> bool" where
  "name_dropped k n e e' =
     (links_inv (env_lsi e') \<and> kind_map k (env_lsi e') = om_erase n (kind_map k (env_lsi e)) \<and>
      (\<forall>k'. k' \<noteq> k \<longrightarrow> kind_map k' (env_lsi e') = kind_map k' (env_lsi e)) \<and>
      vlink_ids (env_lsi e') \<subseteq> vlink_ids (env_lsi e) \<and> env_nextID e' = env_nextID e \<and>
      dpid (env_lsi e') = dpid (env_lsi e))"

lemma drop_vlink_inv:
  assumes inv: "links_inv (env_lsi e)" and n: "map_of (kind_map k (env_lsi e)) n \<noteq> None"
    and others: "\<And>i. vlink_in i m1 \<or> vlink_in i m2 \<longleftrightarrow>
      (\<exists>k' n'. upward k' \<noteq> upward k \<and> map_of (kind_map k' (env_lsi e)) n' = Some i)"
    and run: "drop_vlink sm (remove_name k) n (kind_map k (env_lsi e)) m1 m2 e = (r, e')"
  shows "name_dropped k n e e' \<and>
    (case r of Inl x \<Rightarrow> orderly_links sm \<longrightarrow> x = GraphManagerException
     | Inr _ \<Rightarrow> links_used (env_lsi e) \<longrightarrow> links_used (env_lsi e'))"
proof -
  let ?l = "env_lsi e"
  obtain i where i: "map_of (kind_map k ?l) n = Some i" using n by blast
  obtain l1 where l1: "remove_name k n ?l = Inr l1" "kind_map k l1 = om_erase n (kind_map k ?l)"
    "\<And>k'. k' \<noteq> k \<Longrightarrow> kind_map k' l1 = kind_map k' ?l" "virtual_links l1 = virtual_links ?l" "dpid l1 = dpid ?l"
    using remove_name_eq[OF n] by blast
  have inv1: "links_inv l1" by (rule links_inv_erase[OF inv l1(2,3,4)])
  have ids1: "vlink_ids l1 = vlink_ids ?l" using l1(4) by (simp add: vlink_ids_def)
  have old: "map_of (kind_map k' l1) n' = (if k' = k \<and> n' = n then None else map_of (kind_map k' ?l) n')" for k' n'
    using l1(2,3) by (cases "k' = k") (simp_all add: map_of_erased)
  let ?e1 = "e\<lparr>env_lsi := l1\<rparr>"
  have start: "drop_vlink sm (remove_name k) n (kind_map k ?l) m1 m2 e =
      (if vlink_in i m1 \<or> vlink_in i m2 then (Inr True, ?e1)
       else bindS (destroy_vlink sm i) (\<lambda>_. returnS False) ?e1)"
    by (simp add: drop_vlink_def i bindS_def lsiS_def l1(1) exec_simps)
  have same: "upward k' \<noteq> upward k" if "map_of (kind_map k' l1) n' = Some i" for k' n'
    using that inv i unfolding old links_inv_def by (metis option.distinct(1))
  have still: "links_used l'" if h: "links_used ?l" "\<And>j. j \<in> vlink_ids l' \<Longrightarrow> j \<in> vlink_ids ?l"
    "\<And>k'. kind_map k' l' = kind_map k' l1" "i \<in> vlink_ids l' \<Longrightarrow> \<exists>k' n'. map_of (kind_map k' l1) n' = Some i" for l'
    unfolding links_used_def
  proof
    fix j assume j: "j \<in> vlink_ids l'"
    then obtain k' n' where j': "map_of (kind_map k' ?l) n' = Some j"
      using h(1,2) unfolding links_used_def by blast
    show "\<exists>k n. map_of (kind_map k l') n = Some j"
      using j j' h(3,4) i old by (cases "j = i") (metis option.inject)+
  qed
  show ?thesis
  proof (cases "vlink_in i m1 \<or> vlink_in i m2")
    case True
    then have "r = Inr True" "e' = ?e1" using run start by simp_all
    moreover obtain k' n' where k': "upward k' \<noteq> upward k" "map_of (kind_map k' ?l) n' = Some i"
      using True others by blast
    moreover have "map_of (kind_map k' l1) n' = Some i" using k' old[of k' n'] by auto
    then have "links_used ?l \<longrightarrow> links_used l1" using still[of l1] ids1 by blast
    ultimately show ?thesis using inv1 l1 ids1 by (simp add: name_dropped_def)
  next
    case False
    then have gone: "map_of (kind_map k' l1) n' \<noteq> Some i" for k' n'
      using same[of k' n'] others[of i] old[of k' n'] by (auto split: if_splits)
    have "i \<in> vlink_ids l1" using inv i ids1 unfolding links_inv_def by blast
    then obtain v where v: "find (\<lambda>v. vl_ID v = i) (virtual_links l1) = Some v" using find_by_ID by blast
    obtain vs where vs: "removeVlink i l1 = Inr (l1\<lparr>virtual_links := vs\<rparr>)" "links_inv (l1\<lparr>virtual_links := vs\<rparr>)"
      "vlink_ids (l1\<lparr>virtual_links := vs\<rparr>) = vlink_ids l1 - {i}"
      using links_inv_removeVlink[OF inv1 \<open>i \<in> vlink_ids l1\<close> gone] by blast
    obtain q w where q: "destroyVirtualLink sm (dpid l1) (local_id v) (remote_dpid v) (remote_id v) (env_world e) = (q, w)"
      by fastforce
    have d: "destroy_vlink sm i ?e1 =
        (case q of Inl x \<Rightarrow> (Inl (if x = SwitchManagerException then GraphManagerException else x), ?e1\<lparr>env_world := w\<rparr>)
         | Inr _ \<Rightarrow> (Inr (), e\<lparr>env_lsi := l1\<lparr>virtual_links := vs\<rparr>, env_world := w\<rparr>))"
      using q v vs(1) by (auto simp: destroy_vlink_def to_GraphManagerException_def catchS_def bindS_def exec_simps
          getVirtualLink_def worldS_def lsiS_def thrown_def split: sum.split)
    show ?thesis
    proof (cases q)
      case (Inl x)
      then have "e' = ?e1\<lparr>env_world := w\<rparr>" "r = Inl (if x = SwitchManagerException then GraphManagerException else x)"
        using run start False d by (simp_all add: bindS_def)
      moreover have "orderly_links sm \<longrightarrow> x = SwitchManagerException"
        using q Inl unfolding orderly_links_def fails_orderly_def by blast
      ultimately show ?thesis using inv1 l1 ids1 by (simp add: name_dropped_def)
    next
      case (Inr u)
      then have e': "e' = e\<lparr>env_lsi := l1\<lparr>virtual_links := vs\<rparr>, env_world := w\<rparr>" "r = Inr False"
        using run start False d by (simp_all add: bindS_def exec_simps)
      have "links_used ?l \<longrightarrow> links_used (l1\<lparr>virtual_links := vs\<rparr>)"
        using still[of "l1\<lparr>virtual_links := vs\<rparr>"] vs(3) ids1 by auto
      then show ?thesis using vs(2,3) l1(2,3,5) ids1 e' by (auto simp: name_dropped_def)
    qed
  qed
qed

lemma vlink_in_iff: "om_wf m \<Longrightarrow> vlink_in i m \<longleftrightarrow> (\<exists>n. map_of m n = Some i)"
  unfolding vlink_in_def
proof
  assume m: "om_wf m" "i \<in> set (map snd m)"
  then obtain p where "p \<in> set m" "i = snd p" by auto
  then show "\<exists>n. map_of m n = Some i" using om_wf_listed[OF m(1)] by blast
qed (force dest: map_of_SomeD)

lemma other_direction:
  assumes "links_inv l"
  shows "\<not> upward k \<Longrightarrow> vlink_in i (nfs_vlinks l) \<or> vlink_in i (endpoints_gre_vlinks l) \<longleftrightarrow>
      (\<exists>k' n'. upward k' \<noteq> upward k \<and> map_of (kind_map k' l) n' = Some i)"
    and "upward k \<Longrightarrow> vlink_in i (ports_vlinks l) \<or> vlink_in i (endpoints_vlinks l) \<longleftrightarrow>
      (\<exists>k' n'. upward k' \<noteq> upward k \<and> map_of (kind_map k' l) n' = Some i)"
proof -
  have wf: "om_wf (kind_map k l)" for k using assms by (simp add: links_inv_def)
  have ups: "upward k' \<longleftrightarrow> k' = To_NF \<or> k' = To_Gre" for k' by (cases k') simp_all
  have downs: "\<not> upward k' \<longleftrightarrow> k' = To_Port \<or> k' = To_Internal" for k' by (cases k') simp_all
  show "\<not> upward k \<Longrightarrow> vlink_in i (nfs_vlinks l) \<or> vlink_in i (endpoints_gre_vlinks l) \<longleftrightarrow>
      (\<exists>k' n'. upward k' \<noteq> upward k \<and> map_of (kind_map k' l) n' = Some i)"
    using vlink_in_iff[OF wf[of To_NF], of i] vlink_in_iff[OF wf[of To_Gre], of i] ups
    by (metis kind_map.simps(1,2))
  show "upward k \<Longrightarrow> vlink_in i (ports_vlinks l) \<or> vlink_in i (endpoints_vlinks l) \<longleftrightarrow>
      (\<exists>k' n'. upward k' \<noteq> upward k \<and> map_of (kind_map k' l) n' = Some i)"
    using vlink_in_iff[OF wf[of To_Port], of i] vlink_in_iff[OF wf[of To_Internal], of i] downs
    by (metis kind_map.simps(3,4))
qed

lemma rule_to_use:
  "rule_to_nf_port n r \<longleftrightarrow> link_use r = Some (To_NF, n)"
  "rule_to_gre n r \<longleftrightarrow> link_use r = Some (To_Gre, n)"
  "rule_to_port n r \<longleftrightarrow> link_use r = Some (To_Port, n)"
  "match_type (hr_match r) \<noteq> MATCH_GENERIC \<Longrightarrow> rule_to_internal n r \<longleftrightarrow> link_use r = Some (To_Internal, n)"
  by (cases "getType (hr_action r)"; cases "match_type (hr_match r)";
      simp add: rule_to_nf_port_def rule_to_gre_def rule_to_port_def rule_to_internal_def link_use_def matchOn_defs)+

definition typed_rules :: "HLGraph \<Rightarrow> bool" where
  "typed_rules g = (\<forall>r \<in> set (rules g). match_type (hr_match r) \<noteq> MATCH_GENERIC)"

definition links_kept :: "HLGraph \<Rightarrow> 'w lsi_env \<Rightarrow> 'w lsi_env \<Rightarrow> bool" where
  "links_kept g e e' =
     (links_inv (env_lsi e') \<and> links_cover (rules g) (env_lsi e') \<and>
      vlink_ids (env_lsi e') \<subseteq> vlink_ids (env_lsi e) \<and> env_nextID e' = env_nextID e \<and>
      dpid (env_lsi e') = dpid (env_lsi e))"

lemma name_dropped_kept:
  assumes "name_dropped k n e e'" "links_cover (rules g) (env_lsi e)"
    and "\<And>r. r \<in> set (rules g) \<Longrightarrow> link_use r \<noteq> Some (k, n)"
  shows "links_kept g e e'"
proof -
  have "map_of (kind_map k' (env_lsi e')) n' = (if k' = k \<and> n' = n then None else map_of (kind_map k' (env_lsi e)) n')"
    for k' n'
    using assms(1) by (cases "k' = k") (simp_all add: name_dropped_def map_of_erased)
  then have "links_cover (rules g) (env_lsi e')"
    using assms(2,3) unfolding links_cover_def by metis
  with assms(1) show ?thesis by (simp add: links_kept_def name_dropped_def)
qed

lemma links_kept_trans: "links_kept g e e' \<Longrightarrow> links_kept g e' e'' \<Longrightarrow> links_kept g e e''"
  by (auto simp: links_kept_def)

text \<open>One of the four blocks of \<open>removeUselessVlinks\<close>.\<close>

lemma drop_unused:
  assumes "links_inv (env_lsi e)" "links_cover (rules g) (env_lsi e)"
    and "map_of (kind_map k (env_lsi e)) n \<noteq> None" "\<And>r. r \<in> set (rules g) \<Longrightarrow> link_use r \<noteq> Some (k, n)"
    and "m1 = (if upward k then ports_vlinks (env_lsi e) else nfs_vlinks (env_lsi e))"
    and "m2 = (if upward k then endpoints_vlinks (env_lsi e) else endpoints_gre_vlinks (env_lsi e))"
    and "drop_vlink sm (remove_name k) n (kind_map k (env_lsi e)) m1 m2 e = (r, e')"
  shows "name_dropped k n e e' \<and> links_kept g e e' \<and>
    (case r of Inl x \<Rightarrow> orderly_links sm \<longrightarrow> x = GraphManagerException
     | Inr _ \<Rightarrow> links_used (env_lsi e) \<longrightarrow> links_used (env_lsi e'))"
proof -
  have oth: "vlink_in i m1 \<or> vlink_in i m2 \<longleftrightarrow>
      (\<exists>k' n'. upward k' \<noteq> upward k \<and> map_of (kind_map k' (env_lsi e)) n' = Some i)" for i
    using other_direction[OF assms(1), of k i] assms(5,6) by (cases "upward k") simp_all
  note d = drop_vlink_inv[OF assms(1,3) oth assms(7)]
  with name_dropped_kept[OF _ assms(2,4)] show ?thesis by blast
qed

lemma links_kept_refl:
  "links_inv (env_lsi e) \<Longrightarrow> links_cover (rules g) (env_lsi e) \<Longrightarrow> links_kept g e e"
  by (simp add: links_kept_def)

definition drop_outcome ::
  "'w SwitchManager \<Rightarrow> HLGraph \<Rightarrow> 'w lsi_env \<Rightarrow> 'a result \<Rightarrow> 'w lsi_env \<Rightarrow> bool" where
  "drop_outcome sm g e r e' =
     (links_kept g e e' \<and>
      (case r of Inl x \<Rightarrow> orderly_links sm \<longrightarrow> x = GraphManagerException
       | Inr _ \<Rightarrow> links_used (env_lsi e) \<longrightarrow> links_used (env_lsi e')))"

lemma drop_outcome_trans:
  "drop_outcome sm g e (Inr x) e1 \<Longrightarrow> drop_outcome sm g e1 r e' \<Longrightarrow> drop_outcome sm g e r e'"
  by (auto simp: drop_outcome_def links_kept_def split: sum.splits)

text \<open>A block without the early return: the name is kept while a rule uses it.\<close>

lemma block_outcome:
  assumes inv: "links_inv (env_lsi e)" "links_cover (rules g) (env_lsi e)"
    and maps: "kind_map k (env_lsi e) = m" "m1 = (if upward k then ports_vlinks (env_lsi e) else nfs_vlinks (env_lsi e))"
      "m2 = (if upward k then endpoints_vlinks (env_lsi e) else endpoints_gre_vlinks (env_lsi e))"
    and n: "om_count m n" and uses: "\<And>r. r \<in> set (rules g) \<Longrightarrow> P r \<longleftrightarrow> link_use r = Some (k, n)"
    and run: "(if \<exists>r \<in> set (rules g). P r then returnS b
               else bindS (drop_vlink sm rem n m m1 m2) f) e = (r, e')" and rem: "rem = remove_name k"
    and f: "\<And>x s. \<exists>y. f x s = (Inr y, s)"
  shows "drop_outcome sm g e r e' \<and> (\<forall>k'. k' \<noteq> k \<longrightarrow> kind_map k' (env_lsi e') = kind_map k' (env_lsi e))"
proof (cases "\<exists>r \<in> set (rules g). P r")
  case True
  then have "r = Inr b" "e' = e" using run by (simp_all add: exec_simps)
  with links_kept_refl[OF inv] show ?thesis by (simp add: drop_outcome_def)
next
  case False
  obtain r1 e1 where d: "drop_vlink sm (remove_name k) n m m1 m2 e = (r1, e1)" by fastforce
  note run = run[unfolded rem]
  have "name_dropped k n e e1 \<and> links_kept g e e1 \<and>
      (case r1 of Inl x \<Rightarrow> orderly_links sm \<longrightarrow> x = GraphManagerException
       | Inr _ \<Rightarrow> links_used (env_lsi e) \<longrightarrow> links_used (env_lsi e1))"
    using False uses n d maps by (intro drop_unused[OF inv]) (auto simp: om_count_def)
  moreover have "e' = e1 \<and> (case r1 of Inl x \<Rightarrow> r = Inl x | Inr _ \<Rightarrow> \<exists>y. r = Inr y)"
  proof (cases r1)
    case (Inr x)
    then show ?thesis using run False d f[of x e1] by (auto simp: bindS_def)
  qed (use run False d in \<open>simp add: bindS_def\<close>)
  ultimately show ?thesis
    by (cases r1) (auto simp: drop_outcome_def name_dropped_def)
qed

lemma removeUselessVlinks_outcome:
  assumes inv: "links_inv (env_lsi e)" "links_cover (rules g) (env_lsi e)" and typed: "typed_rules g"
    and run: "removeUselessVlinks sm rri g e = (r, e')"
  shows "drop_outcome sm g e r e'"
proof -
  let ?l = "env_lsi e"
  note uses = rule_to_use
  have refl: "drop_outcome sm g e (Inr x) e" for x :: 'b
    using links_kept_refl[OF inv] by (simp add: drop_outcome_def)
  consider
      (nf) "rri_isNFport rri" "om_count (nfs_vlinks ?l) (rri_nf_port rri)"
    | (gre) "\<not> (rri_isNFport rri \<and> om_count (nfs_vlinks ?l) (rri_nf_port rri))" "rri_isEndpointGre rri"
        "om_count (endpoints_gre_vlinks ?l) (rri_endpointGre rri)"
    | (down) "\<not> (rri_isNFport rri \<and> om_count (nfs_vlinks ?l) (rri_nf_port rri))"
        "\<not> (rri_isEndpointGre rri \<and> om_count (endpoints_gre_vlinks ?l) (rri_endpointGre rri))"
    by blast
  then show ?thesis
  proof cases
    case nf
    have "drop_outcome sm g e r e' \<and> (\<forall>k'. k' \<noteq> To_NF \<longrightarrow> kind_map k' (env_lsi e') = kind_map k' ?l)"
      using run nf by (intro block_outcome[OF inv _ _ _ nf(2) uses(1), where b = "()" and f = "\<lambda>_. returnS ()"])
          (simp_all add: removeUselessVlinks_def Let_def exec_simps split del: if_split)
    then show ?thesis by blast
  next
    case gre
    have "drop_outcome sm g e r e' \<and> (\<forall>k'. k' \<noteq> To_Gre \<longrightarrow> kind_map k' (env_lsi e') = kind_map k' ?l)"
      using run gre by (intro block_outcome[OF inv _ _ _ gre(3) uses(2), where b = "()" and f = "\<lambda>_. returnS ()"])
          (simp_all add: removeUselessVlinks_def Let_def exec_simps split del: if_split)
    then show ?thesis by blast
  next
    case down
    let ?port = "if rri_isPort rri \<and> om_count (ports_vlinks ?l) (rri_port rri)
        then if \<exists>r \<in> set (rules g). rule_to_port (rri_port rri) r then returnS True
             else drop_vlink sm removePortvlink (rri_port rri) (ports_vlinks ?l) (nfs_vlinks ?l) (endpoints_gre_vlinks ?l)
        else returnS False"
    let ?int = "if rri_isEndpointInternal rri \<and> om_count (endpoints_vlinks ?l) (rri_endpointInternal rri)
        then if \<exists>r \<in> set (rules g). rule_to_internal (rri_endpointInternal rri) r then returnS ()
             else bindS (drop_vlink sm removeEndPointvlink (rri_endpointInternal rri) (endpoints_vlinks ?l)
                    (nfs_vlinks ?l) (endpoints_gre_vlinks ?l)) (\<lambda>_. returnS ())
        else returnS ()"
    have split: "removeUselessVlinks sm rri g e = bindS ?port (\<lambda>ret. if ret then returnS () else ?int) e"
      by (simp only: removeUselessVlinks_def bindS_simps Let_def if_not_P[OF down(1)] if_not_P[OF down(2)])
    obtain r1 e1 where port: "?port e = (r1, e1)" by fastforce
    have p: "drop_outcome sm g e r1 e1 \<and> (\<forall>k'. k' \<noteq> To_Port \<longrightarrow> kind_map k' (env_lsi e1) = kind_map k' ?l)"
    proof (cases "rri_isPort rri \<and> om_count (ports_vlinks ?l) (rri_port rri)")
      case True
      have "bindS m returnS = m" for m :: "('a lsi_env, bool) exec"
        by (auto simp: bindS_def exec_simps fun_eq_iff split: prod.splits sum.splits)
      with True port show ?thesis
        by (intro block_outcome[OF inv _ _ _ conjunct2[OF True] uses(3), where b = True and f = returnS])
          (simp_all add: exec_simps cong: if_cong split del: if_split)
    qed (use port refl in \<open>auto simp: exec_simps\<close>)
    show ?thesis
    proof (cases r1)
      case (Inl x)
      then have "r = Inl x" "e' = e1" using run split port by (simp_all add: bindS_def)
      with p Inl show ?thesis by (simp add: drop_outcome_def)
    next
      case (Inr ret)
      show ?thesis
      proof (cases "\<not> ret \<and> rri_isEndpointInternal rri \<and> om_count (endpoints_vlinks ?l) (rri_endpointInternal rri)")
        case False
        then have "r = Inr ()" "e' = e1" using run split port Inr by (auto simp: bindS_def exec_simps split: if_splits)
        with p Inr show ?thesis by (simp add: drop_outcome_def)
      next
        case True
        have l1: "links_inv (env_lsi e1)" "links_cover (rules g) (env_lsi e1)"
          "kind_map k (env_lsi e1) = kind_map k ?l" if "k \<noteq> To_Port" for k
          using p that by (simp_all add: drop_outcome_def links_kept_def)
        have maps: "endpoints_vlinks (env_lsi e1) = endpoints_vlinks ?l" "nfs_vlinks (env_lsi e1) = nfs_vlinks ?l"
          "endpoints_gre_vlinks (env_lsi e1) = endpoints_gre_vlinks ?l"
          using l1(3)[of To_Internal] l1(3)[of To_NF] l1(3)[of To_Gre] by simp_all
        have "?int e1 = (r, e')" using run split port Inr True by (simp add: bindS_def)
        with True have "drop_outcome sm g e1 r e' \<and> (\<forall>k'. k' \<noteq> To_Internal \<longrightarrow> kind_map k' (env_lsi e') = kind_map k' (env_lsi e1))"
          using typed maps
          by (intro block_outcome[OF l1(1,2)[of To_NF] _ _ _ _ uses(4), where b = "()" and f = "\<lambda>_. returnS ()"
                and n = "rri_endpointInternal rri" and m = "endpoints_vlinks ?l"])
            (simp_all add: exec_simps typed_rules_def cong: if_cong split del: if_split)
        then show ?thesis using drop_outcome_trans[of sm g e ret e1] p Inr by blast
      qed
    qed
  qed
qed

section \<open>Properties\<close>


definition ex_new_lsi :: LSI where
  "ex_new_lsi = ex_tenant\<lparr>nfs_vlinks := [], ports_vlinks := []\<rparr>"

lemma link_use_ex:
  "link_use ex_rule_in = Some (To_NF, nf_port_name ''01'' 1)" "link_use (ex_rule_out i p) = Some (To_Port, p)"
  by (simp_all add: link_use_def ex_defs matchOn_defs getType_def action_nf_port_def out_port_def nf_port_name_def)

lemma ex_new_links: "new_links ex_old ex_new_lsi"
proof -
  have "kind_map k ex_new_lsi = []" for k by (cases k) (simp_all add: ex_new_lsi_def ex_tenant_def)
  moreover have "numberOfVLrequired (identifyVirtualLinksRequired ex_old) = 1"
    by (simp add: numberOfVLrequired_def identifyVirtualLinksRequired_def ex_points no_vlinks_def
        require_vlink_def ex_defs matchOn_defs getType_def os_insert_def insort_insert_key_def)
  ultimately show ?thesis by (simp add: new_links_def ex_points ex_new_lsi_def ex_tenant_def)
qed


text \<open>
  (C20) Making the links of an update, also when the virtual switch fails in the middle: the names
  that had a link keep it; every name has an existing link and in each direction a link has one
  name; and if the switch does not fail every rule of the update has its link and no link is
  without a name.
\<close>

theorem update_adds_links:
  assumes "env_inv e" "unat (env_nextID e) + length (rules diff) < 2 ^ 64"
    and "add_required_vlinks sm dpid0 diff e = (r, e')"
  shows "env_inv e' \<and>
    (\<forall>k n. map_of (kind_map k (env_lsi e)) n \<noteq> None \<longrightarrow>
       map_of (kind_map k (env_lsi e')) n = map_of (kind_map k (env_lsi e)) n) \<and>
    (r = Inr () \<longrightarrow> links_cover (rules diff) (env_lsi e') \<and>
       (links_used (env_lsi e) \<longrightarrow> links_used (env_lsi e')))"
  using add_required_vlinks_inv[OF assms] by blast

text \<open>A virtual switch that numbers its ports, and a rule added to the example graph.\<close>

definition ex_switch :: "nat SwitchManager" where
  "ex_switch =
     \<lparr>createLsi = (\<lambda>_ w. (Inl SwitchManagerException, w)), addNFPorts = (\<lambda>_ _ _ _ w. (Inl SwitchManagerException, w)),
      addEndpoint = (\<lambda>_ _ _ w. (Inl SwitchManagerException, w)),
      addVirtualLink = (\<lambda>_ _ w. (Inr (of_nat w, of_nat w), Suc w)), destroyLsi = (\<lambda>_. returnS ()),
      destroyNFPorts = (\<lambda>_ _ _. returnS ()), destroyEndpoint = (\<lambda>_ _. returnS ()),
      destroyVirtualLink = (\<lambda>_ _ _ _. returnS ()), checkPhysicalInterfaces = (\<lambda>_. returnS ())\<rparr>"

definition ex_env :: "nat lsi_env" where
  "ex_env = \<lparr>env_lsi = ex_tenant, env_nextID = 1, env_world = 10\<rparr>"

definition ex_diff :: HLGraph where
  "ex_diff = (HLGraph_new ''g'')\<lparr>rules := [ex_rule_out ''3'' ''eth2'']\<rparr>"

lemma ex_maps:
  "map_of (kind_map k ex_tenant) n =
     (if k = To_NF \<and> n = nf_port_name ''01'' 1 \<or> k = To_Port \<and> n = ''eth1'' then Some 0 else None)"
  by (cases k) (simp_all add: ex_tenant_def)

lemma ex_links_inv: "links_inv ex_tenant"
proof -
  have "om_wf (kind_map k ex_tenant)" for k by (cases k) (simp_all add: ex_tenant_def)
  then show ?thesis
    unfolding links_inv_def ex_maps by (auto simp: ex_tenant_def vlink_ids_def split: if_splits)
qed

lemma ex_env_inv: "env_inv ex_env"
  using ex_links_inv by (simp add: env_inv_def ex_env_def) (simp add: ex_tenant_def vlink_ids_def)

theorem update_adds_links_witness:
  "\<exists>e'. add_required_vlinks ex_switch 1 ex_diff ex_env = (Inr (), e') \<and> links_inv (env_lsi e') \<and>
     map_of (ports_vlinks (env_lsi e')) ''eth1'' = Some 0 \<and> map_of (ports_vlinks (env_lsi e')) ''eth2'' \<noteq> None"
proof -
  obtain r e' where run: "add_required_vlinks ex_switch 1 ex_diff ex_env = (r, e')" by fastforce
  have "add_required_vlinks ex_switch 1 ex_diff ex_env =
      forS (link_step ex_switch 1) [[(To_Port, ''eth2'')]] ex_env"
    unfolding add_required_vlinks_steps
    by (simp add: identifyNewVirtualLinksRequired_def ex_diff_def require_new_vlink_def ex_env_def link_groups_def
        no_vlinks_def ex_rule_out_def getType_def ex_defs matchOn_defs om_count_def ex_tenant_def os_insert_def
        insort_insert_key_def)
  then have "r = Inr ()"
    using run by (simp add: link_step_def to_GraphManagerException_def catchS_def bindS_def lsiS_def
        add_vlink_eq ex_env_def ex_tenant_def vlink_ids_def ex_switch_def exec_simps)
  have room: "unat (env_nextID ex_env) + length (rules ex_diff) < 2 ^ 64"
    by (simp add: ex_env_def ex_diff_def)
  have "map_of (kind_map To_Port (env_lsi ex_env)) ''eth1'' = Some 0"
    by (simp only: ex_env_def lsi_env.simps ex_maps) simp
  then have ok: "env_inv e'" "map_of (kind_map To_Port (env_lsi e')) ''eth1'' = Some 0"
    "links_cover (rules ex_diff) (env_lsi e')"
    using update_adds_links[OF ex_env_inv room run] \<open>r = Inr ()\<close> by (metis option.distinct(1))+
  moreover have "map_of (kind_map To_Port (env_lsi e')) ''eth2'' \<noteq> None"
    using ok(3) link_use_ex(2) by (force simp: links_cover_def ex_diff_def)
  ultimately show ?thesis using run \<open>r = Inr ()\<close> by (auto simp: env_inv_def)
qed

text \<open>
  (C21) Taking links away after rules were removed, one description of a removed rule after the
  other, also when the virtual switch fails in the middle: no assertion fails, only
  \<open>GraphManagerException\<close> can be thrown, every rule left in the graph still has its link, and if
  the switch does not fail no link is left without a name.
\<close>

theorem removal_keeps_needed_links:
  assumes "links_inv (env_lsi e)" "links_cover (rules g) (env_lsi e)" "typed_rules g"
    and "forS (\<lambda>rri. removeUselessVlinks sm rri g) rris e = (r, e')"
  shows "links_inv (env_lsi e') \<and> links_cover (rules g) (env_lsi e') \<and>
    (case r of Inl x \<Rightarrow> orderly_links sm \<longrightarrow> x = GraphManagerException
     | Inr _ \<Rightarrow> links_used (env_lsi e) \<longrightarrow> links_used (env_lsi e'))"
proof -
  have "drop_outcome sm g e r e'"
    using assms(1,2,4)
  proof (induction rris arbitrary: e)
    case Nil
    then show ?case using links_kept_refl[of e g] by (auto simp: exec_simps drop_outcome_def)
  next
    case (Cons rri rris)
    from Cons.prems(3) show ?case
    proof (rule forS_Cons_cases)
      fix x assume "r = Inl x" "removeUselessVlinks sm rri g e = (Inl x, e')"
      then show ?thesis using removeUselessVlinks_outcome[OF Cons.prems(1,2) assms(3)]
        by (fastforce simp: drop_outcome_def)
    next
      fix e1 assume e1: "removeUselessVlinks sm rri g e = (Inr (), e1)"
        "forS (\<lambda>rri. removeUselessVlinks sm rri g) rris e1 = (r, e')"
      note o1 = removeUselessVlinks_outcome[OF Cons.prems(1,2) assms(3) e1(1)]
      then have "drop_outcome sm g e1 r e'"
        using e1(2) by (intro Cons.IH) (simp_all add: drop_outcome_def links_kept_def)
      with o1 show ?thesis by (rule drop_outcome_trans)
    qed
  qed
  then show ?thesis by (simp add: drop_outcome_def links_kept_def)
qed

definition ex_left :: HLGraph where
  "ex_left = (HLGraph_new ''g'')\<lparr>rules := [ex_rule_in]\<rparr>"

theorem removal_keeps_needed_links_witness:
  "\<exists>e'. forS (\<lambda>rri. removeUselessVlinks ex_switch rri ex_left)
       [rule_removed_info (ActionPort ''eth1'' ''endpoint:2'')] ex_env = (Inr (), e') \<and>
     links_cover (rules ex_left) (env_lsi e') \<and> links_used (env_lsi e')"
proof -
  let ?run = "forS (\<lambda>rri. removeUselessVlinks ex_switch rri ex_left)
       [rule_removed_info (ActionPort ''eth1'' ''endpoint:2'')] ex_env"
  obtain r e' where run: "?run = (r, e')" by fastforce
  have l: "links_inv (env_lsi ex_env)" "links_cover (rules ex_left) (env_lsi ex_env)" "typed_rules ex_left"
    "links_used (env_lsi ex_env)"
    using ex_links_inv link_use_ex ex_maps
    by (simp_all add: ex_env_def ex_left_def links_cover_def typed_rules_def ex_rule_in_def ex_match_port_def
        setInputPort_def links_used_def) (auto simp: ex_tenant_def vlink_ids_def)
  have "\<not> rule_to_port ''eth1'' ex_rule_in" by (simp add: rule_to_use link_use_ex)
  then have "r = Inr ()"
    using run by (simp add: removeUselessVlinks_def Let_def ex_env_def ex_tenant_def om_count_def bindS_def exec_simps
        drop_vlink_def lsiS_def removePortvlink_def assertR_def vlink_in_def ex_left_def)
  with removal_keeps_needed_links[OF l(1-3) run] l(4) run show ?thesis by auto
qed

end
