(* ===== verification/Graph_Manager.thy ===== *)
theory Graph_Manager
  imports Virtual_Links
begin

text \<open>
  The graph manager (\<open>graph_manager.cc\<close>, \<open>graph_info.cc\<close>): it deploys, updates and deletes
  graphs, and keeps the LSI-0, one switch for each graph and one for each group of internal
  endpoints.

  An operation is a function of the state of the manager that also tells the state left behind by
  an exception (\<open>Exec_Monad\<close>), because the manager goes on after one. An object behind a pointer of
  a \<open>GraphInfo\<close> is part of the state; a pointer whose object was deleted is \<open>Freed\<close>, and using it is
  the fault \<open>Dangling\<close>. The virtual switch, the execution environments and the name resolver are
  arguments. The threads that start network functions are taken one after the other, and their
  creation does not fail. An exception of the OpenFlow library for a version that was not
  negotiated is a fault after which the controller's state is not followed.
\<close>

section \<open>State\<close>

datatype 'a pointer = Null | Freed | Obj 'a

definition derefR :: "'a pointer \<Rightarrow> 'a result" where
  "derefR p = (case p of Null \<Rightarrow> Inl NullPointer | Freed \<Rightarrow> Inl Dangling | Obj x \<Rightarrow> Inr x)"

record GraphInfo =
  gi_controller :: "Controller pointer"
  gi_lsi :: "LSI pointer"
  gi_compute :: "ComputeController pointer"
  gi_graph :: "HLGraph pointer"

text \<open>The constructor does not set the pointer to the graph.\<close>

definition GraphInfo_new :: GraphInfo where
  "GraphInfo_new = \<lparr>gi_controller = Null, gi_lsi = Null, gi_compute = Null, gi_graph = Freed\<rparr>"

text \<open>
  What is around the manager: the environments compiled in, the plugins, the name resolver with the
  JSON parser, the version of OpenFlow, and what uninitialised memory holds.
\<close>

record 'w host =
  h_env :: environments
  h_sm :: "'w SwitchManager"
  h_nfm :: "'w NFsManager"
  h_recv :: "'w \<Rightarrow> string \<Rightarrow> string option"
  h_read_json :: "string \<Rightarrow> jvalue"
  h_version :: ofp_version
  mem_buffer :: string
  mem_lsiID :: "64 word"
  mem_dpid :: "64 word"
  mem_match :: "HLRule \<Rightarrow> LLMatch"
  mem_rule_match :: LLMatch
  mem_rule_action :: LLAction

text \<open>The static members of \<open>VLink\<close> and \<open>ComputeController\<close> are the last three but one.\<close>

record 'w GraphManager =
  timesUsedEndPointsInternal :: "(string, 32 word) omap"
  internalLSIsCreated :: "(string, bool) omap"
  internalLSIs :: "(string, GraphInfo) omap"
  internalLSIsConnections :: "(string, (string, 32 word) omap) omap"
  graphInfoLSI0 :: GraphInfo
  dpid0 :: "64 word"
  graphLSI0lowLevel :: LLGraph
  un_address :: string
  orchestrator_in_band :: bool
  un_interface :: string
  ipsec_certificate :: string
  tenantLSIs :: "(string, GraphInfo) omap"
  nameResolverIP :: string
  nameResolverPort :: int
  nextControllerPort :: "32 word"
  nextLinkID :: "64 word"
  gm_cores :: core_pool
  gm_world :: 'w

definition OF_CONTROLLER_ADDRESS :: string where
  "OF_CONTROLLER_ADDRESS = ''127.0.0.1''"

definition HIGH_PRIORITY :: "64 word" where
  "HIGH_PRIORITY = 65535"

section \<open>Acting on parts of the state\<close>

definition switchS :: "('w, 'a) exec \<Rightarrow> ('w GraphManager, 'a) exec" where
  "switchS m s = (case m (gm_world s) of (r, w) \<Rightarrow> (r, s\<lparr>gm_world := w\<rparr>))"

definition computeS ::
  "ComputeController \<Rightarrow> ('w compute_env \<Rightarrow> ('a \<times> 'w compute_env) result) \<Rightarrow>
     ('w GraphManager, 'a \<times> ComputeController) exec" where
  "computeS cc f s =
     (case f \<lparr>ce_cc = cc, ce_pool = gm_cores s, ce_world = gm_world s\<rparr> of
        Inl x \<Rightarrow> (Inl x, s)
      | Inr (y, e) \<Rightarrow> (Inr (y, ce_cc e), s\<lparr>gm_cores := ce_pool e, gm_world := ce_world e\<rparr>))"

definition lsi_onS :: "LSI \<Rightarrow> ('w lsi_env, 'a) exec \<Rightarrow> 'w GraphManager \<Rightarrow> 'a result \<times> LSI \<times> 'w GraphManager" where
  "lsi_onS l m s =
     (case m \<lparr>env_lsi = l, env_nextID = nextLinkID s, env_world = gm_world s\<rparr> of (r, e) \<Rightarrow>
        (r, env_lsi e, s\<lparr>nextLinkID := env_nextID e, gm_world := env_world e\<rparr>))"

text \<open>\<open>tenantLSIs.find(graphID)->second\<close>, and the objects it points to.\<close>

definition tenant_info :: "string \<Rightarrow> ('w GraphManager, GraphInfo) exec" where
  "tenant_info graphID = bindS (getsS (\<lambda>s. map_of (tenantLSIs s) graphID)) (\<lambda>gi. liftS (optionR EndIterator gi))"

definition put_tenant :: "string \<Rightarrow> GraphInfo \<Rightarrow> 'w GraphManager \<Rightarrow> 'w GraphManager" where
  "put_tenant graphID gi s = s\<lparr>tenantLSIs := om_put graphID gi (tenantLSIs s)\<rparr>"

definition tenant_lsi :: "string \<Rightarrow> ('w GraphManager, LSI) exec" where
  "tenant_lsi graphID = bindS (tenant_info graphID) (\<lambda>gi. liftS (derefR (gi_lsi gi)))"

definition tenant_lsiS :: "string \<Rightarrow> ('w lsi_env, 'a) exec \<Rightarrow> ('w GraphManager, 'a) exec" where
  "tenant_lsiS graphID m =
     bindS (tenant_info graphID) (\<lambda>gi.
     bindS (liftS (derefR (gi_lsi gi))) (\<lambda>l s.
     case lsi_onS l m s of (r, l, s) \<Rightarrow> (r, put_tenant graphID (gi\<lparr>gi_lsi := Obj l\<rparr>) s)))"

definition tenant_computeS ::
  "string \<Rightarrow> ('w compute_env \<Rightarrow> ('a \<times> 'w compute_env) result) \<Rightarrow> ('w GraphManager, 'a) exec" where
  "tenant_computeS graphID f =
     bindS (tenant_info graphID) (\<lambda>gi.
     bindS (liftS (derefR (gi_compute gi))) (\<lambda>cc.
     bindS (computeS cc f) (\<lambda>(y, cc).
     bindS (modifyS (put_tenant graphID (gi\<lparr>gi_compute := Obj cc\<rparr>))) (\<lambda>_.
     returnS y))))"

definition controller_onS ::
  "Controller pointer \<Rightarrow> (Controller \<Rightarrow> (bool \<times> Controller) result) \<Rightarrow> (Controller \<Rightarrow> 's \<Rightarrow> 's) \<Rightarrow> ('s, bool) exec" where
  "controller_onS p f put =
     bindS (liftS (derefR p)) (\<lambda>c.
     bindS (liftS (f c)) (\<lambda>(b, c).
     bindS (modifyS (put c)) (\<lambda>_. returnS b)))"

definition tenant_controllerS ::
  "string \<Rightarrow> (Controller \<Rightarrow> (bool \<times> Controller) result) \<Rightarrow> ('w GraphManager, bool) exec" where
  "tenant_controllerS graphID f =
     bindS (tenant_info graphID) (\<lambda>gi.
     controller_onS (gi_controller gi) f (\<lambda>c. put_tenant graphID (gi\<lparr>gi_controller := Obj c\<rparr>)))"

definition the_lsi0 :: "('w GraphManager, LSI) exec" where
  "the_lsi0 = bindS (getsS graphInfoLSI0) (\<lambda>gi. liftS (derefR (gi_lsi gi)))"

definition lsi0_controllerS ::
  "(Controller \<Rightarrow> (bool \<times> Controller) result) \<Rightarrow> ('w GraphManager, bool) exec" where
  "lsi0_controllerS f =
     bindS (getsS graphInfoLSI0) (\<lambda>gi.
     controller_onS (gi_controller gi) f (\<lambda>c s. s\<lparr>graphInfoLSI0 := gi\<lparr>gi_controller := Obj c\<rparr>\<rparr>))"

text \<open>A controller for a new switch, on the next port.\<close>

definition new_controller :: "('w GraphManager, Controller) exec" where
  "new_controller s =
     (Inr (Controller_new [] (dec (unat (nextControllerPort s)))),
      s\<lparr>nextControllerPort := nextControllerPort s + 1\<rparr>)"

section \<open>Checking a graph\<close>

text \<open>
  The descriptions of the functions that have no implementation yet. The result is what
  \<open>checkGraphValidity\<close> returns or throws, with the compute controller it leaves.
\<close>

fun retrieve_all ::
  "'w host \<Rightarrow> VNFs list \<Rightarrow> ComputeController \<Rightarrow> ('w GraphManager, bool result \<times> ComputeController) exec" where
  "retrieve_all h [] cc = returnS (Inr True, cc)"
| "retrieve_all h (nf # nfs) cc =
     (if getNFSelectedImplementation (vnf_id nf) cc \<noteq> None then retrieve_all h nfs cc
      else bindS (getsS (\<lambda>s. retrieveDescription (h_env h) (h_recv h (gm_world s)) (h_read_json h) (mem_buffer h)
                         (vnf_id nf) (vnf_name nf) (nameResolverIP s) (nameResolverPort s) cc)) (\<lambda>r.
           bindS (liftS r) (\<lambda>(retVal, cc).
           if retVal = NFManager_NO_NF then returnS (Inr False, cc)
           else if retVal = NFManager_SERVER_ERROR then returnS (Inl GraphManagerException, cc)
           else retrieve_all h nfs cc)))"

definition checkGraphValidity ::
  "'w host \<Rightarrow> HLGraph \<Rightarrow> ComputeController pointer \<Rightarrow>
     ('w GraphManager, bool result \<times> ComputeController pointer) exec" where
  "checkGraphValidity h g ccp =
     bindS the_lsi0 (\<lambda>l0.
     if \<exists>p \<in> set (endPointsInterface g). \<not> om_count (physical_ports l0) (ei_interface p)
     then returnS (Inr False, ccp)
     else if vnfs g = [] then returnS (Inr True, ccp)
     else bindS (liftS (derefR ccp)) (\<lambda>cc.
          bindS (retrieve_all h (vnfs g) cc) (\<lambda>(r, cc). returnS (r, Obj cc))))"

definition select_implementations ::
  "'w host \<Rightarrow> 'w compute_env \<Rightarrow> (bool \<times> 'w compute_env) result" where
  "select_implementations h e =
     bindR (selectImplementation (h_env h) (h_nfm h) (ce_cc e) (ce_world e)) (\<lambda>(ok, cc, w).
     Inr (ok, e\<lparr>ce_cc := cc, ce_world := w\<rparr>))"

section \<open>The switch of a new graph\<close>

text \<open>
  The types of the ports of the functions; \<open>None\<close> when \<open>newGraph\<close> returns false because the graph
  uses ports the chosen implementation does not have.
\<close>

fun nf_port_types ::
  "ComputeController \<Rightarrow> VNFs list \<Rightarrow> (string, nf_t) omap \<Rightarrow> (string, (32 word, PortType) omap) omap \<Rightarrow>
     ((string, nf_t) omap \<times> (string, (32 word, PortType) omap) omap) option result" where
  "nf_port_types cc [] nf_types nfs_ports_type = Inr (Some (nf_types, nfs_ports_type))"
| "nf_port_types cc (nf # nfs) nf_types nfs_ports_type =
     bindR (getPortsId nf) (\<lambda>nf_ports.
     bindR (getNFType (vnf_id nf) cc) (\<lambda>t.
     bindR (optionR NullPointer (getNFSelectedImplementation (vnf_id nf) cc)) (\<lambda>descr.
     if length nf_ports > length (d_port_types descr) then Inr None
     else if \<exists>p \<in> set nf_ports. map_of (d_port_types descr) p = None then Inr None
     else nf_port_types cc nfs (om_put (vnf_id nf) t nf_types)
            (om_put (vnf_id nf) (d_port_types descr) nfs_ports_type))))"

definition safe_string :: "bool \<Rightarrow> string" where
  "safe_string b = (if b then ''true'' else ''false'')"

definition description_gre_endpoints :: "string \<Rightarrow> EndPointGre list \<Rightarrow> (string, string list) omap" where
  "description_gre_endpoints iface es =
     fold (\<lambda>e. om_put (eg_id e)
       [eg_gre_key e, eg_local_ip e, eg_remote_ip e, iface, safe_string (eg_is_safe e)]) es []"

text \<open>
  \<open>createLsi\<close> is the only call of the \<open>try\<close> block that throws; the handler destroys a switch by the
  identifier of the new \<open>LSI\<close>, which was not set yet.
\<close>

definition create_lsi :: "'w host \<Rightarrow> CreateLsiIn \<Rightarrow> LSI \<Rightarrow> ('w GraphManager, CreateLsiOut) exec" where
  "create_lsi h cli l =
     catchS (switchS (createLsi (h_sm h) cli)) (\<lambda>e. e = SwitchManagerException) (\<lambda>_.
       bindS (switchS (destroyLsi (h_sm h) (dpid l))) (\<lambda>_. throwS GraphManagerException))"

fun set_vlink_ids :: "(32 word \<times> 32 word) list \<Rightarrow> nat \<Rightarrow> LSI \<Rightarrow> LSI result" where
  "set_vlink_ids [] pos l = Inr l"
| "set_vlink_ids ((lid, rid) # vl) pos l =
     bindR (setVLinkIDs pos lid rid l) (set_vlink_ids vl (pos + 1))"

text \<open>What \<open>newGraph\<close> records of the switch that was made.\<close>

definition record_tenant_lsi :: "CreateLsiOut \<Rightarrow> LSI \<Rightarrow> LSI result" where
  "record_tenant_lsi clo l =
     (let l = setDpid (clo_dpid clo) l
      in if length (clo_physical_ports clo) > 1 then Inl GraphManagerException
         else bindR (foldR (\<lambda>(nf, ports). setNfSwitchPortsID nf ports) (clo_network_functions_ports clo) l) (\<lambda>l.
              bindR (foldR (\<lambda>(ep, i). setEndpointPortID ep (ucast i)) (clo_endpoints_ports clo) l) (\<lambda>l.
              let l = fold (\<lambda>(nf, names). setNetworkFunctionsPortsNameOnSwitch nf names) (clo_nf_ports_name_and_id clo) l
              in set_vlink_ids (clo_virtual_links clo) 0 l)))"

definition new_vlinks :: "nat \<Rightarrow> ('w GraphManager, VLink list) exec" where
  "new_vlinks n s =
     (let (vls, i) = VLinks_new n (dpid0 s) (nextLinkID s) in (Inr vls, s\<lparr>nextLinkID := i\<rparr>))"

definition make_tenant_lsi ::
  "'w host \<Rightarrow> HLGraph \<Rightarrow> string \<Rightarrow> (string, nf_t) omap \<Rightarrow> (string, (32 word, PortType) omap) omap \<Rightarrow> VLink list \<Rightarrow>
     ('w GraphManager, LSI) exec" where
  "make_tenant_lsi h g port nf_types nfs_ports_type vls =
     bindS (liftS (LSI_new (mem_dpid h) OF_CONTROLLER_ADDRESS port [] (vnfs g) (endPointsGre g) vls nfs_ports_type)) (\<lambda>l.
     bindS (getsS id) (\<lambda>s.
     let gres = description_gre_endpoints (un_interface s) (gre_endpoints_ports l);
         cli = \<lparr>cli_controllerAddress = OF_CONTROLLER_ADDRESS, cli_controllerPort = port,
                cli_physicalPortsName = map fst (physical_ports l), cli_nf_types = nf_types,
                cli_netFunctionsPortsInfo = getNetworkFunctionsPortsInfo l, cli_endpointsPortsName = gres,
                cli_vlinksRemoteLsi = getVirtualLinksRemoteLSI l, cli_local_ip = OF_CONTROLLER_ADDRESS,
                cli_ipsec_certificate = ipsec_certificate s\<rparr>
     in bindS (liftS (assertR (length gres = length (gre_endpoints_ports l)))) (\<lambda>_.
        bindS (create_lsi h cli l) (\<lambda>clo.
        liftS (record_tenant_lsi clo l)))))"

section \<open>Starting and stopping the functions of a graph\<close>

fun start_nfs :: "'w host \<Rightarrow> LSI \<Rightarrow> VNFs list \<Rightarrow> ComputeController \<Rightarrow> ('w GraphManager, bool \<times> ComputeController) exec" where
  "start_nfs h l [] cc = returnS (True, cc)"
| "start_nfs h l (nf # nfs) cc =
     bindS (liftS (getPortsID_configuration nf)) (\<lambda>config.
     bindS (computeS cc (startNF (h_nfm h) (vnf_id nf) (getNetworkFunctionsPortsNameOnSwitchMap (vnf_id nf) l) config))
       (\<lambda>(started, cc).
     bindS (start_nfs h l nfs cc) (\<lambda>(ok, cc).
     returnS (started \<and> ok, cc))))"

fun stop_nfs :: "'w host \<Rightarrow> VNFs list \<Rightarrow> ComputeController \<Rightarrow> ('w GraphManager, ComputeController) exec" where
  "stop_nfs h [] cc = returnS cc"
| "stop_nfs h (nf # nfs) cc =
     bindS (computeS cc (stopNF (h_nfm h) (vnf_id nf))) (\<lambda>(_, cc). stop_nfs h nfs cc)"

text \<open>The clean-up of \<open>newGraph\<close>, which ends in an exception.\<close>

definition undo_new_graph :: "'w host \<Rightarrow> HLGraph \<Rightarrow> LSI \<Rightarrow> ComputeController \<Rightarrow> ('w GraphManager, 'a) exec" where
  "undo_new_graph h g l cc =
     bindS (stop_nfs h (vnfs g) cc) (\<lambda>_.
     bindS (switchS (destroyLsi (h_sm h) (dpid l))) (\<lambda>_.
     throwS GraphManagerException))"

section \<open>Internal endpoints\<close>

text \<open>\<open>internalLSIsCreated[internal_group]\<close> makes an entry when there is none.\<close>

definition internal_created :: "string \<Rightarrow> ('w GraphManager, bool) exec" where
  "internal_created grp s =
     (let m = om_insert grp False (internalLSIsCreated s)
      in (Inr (map_of m grp = Some True), s\<lparr>internalLSIsCreated := m\<rparr>))"

definition handleControllerForInternalEndpoint :: "HLGraph \<Rightarrow> ('w GraphManager, unit) exec" where
  "handleControllerForInternalEndpoint g =
     forS (\<lambda>iep.
       bindS (internal_created (en_group iep)) (\<lambda>created.
       if created then returnS ()
       else bindS new_controller (\<lambda>c.
            modifyS (\<lambda>s. s\<lparr>internalLSIs :=
              om_put (en_group iep) (GraphInfo_new\<lparr>gi_controller := Obj c\<rparr>) (internalLSIs s)\<rparr>))))
     (endPointsInternal g)"

definition internal_info :: "string \<Rightarrow> ('w GraphManager, GraphInfo) exec" where
  "internal_info grp s =
     (let m = om_insert grp GraphInfo_new (internalLSIs s)
      in (Inr (the (map_of m grp)), s\<lparr>internalLSIs := m\<rparr>))"

definition put_internal :: "string \<Rightarrow> GraphInfo \<Rightarrow> 'w GraphManager \<Rightarrow> 'w GraphManager" where
  "put_internal grp gi s = s\<lparr>internalLSIs := om_put grp gi (internalLSIs s)\<rparr>"

text \<open>The connections of a group; \<open>operator[]\<close> makes an empty map when there is none.\<close>

definition connections_of :: "string \<Rightarrow> 'w GraphManager \<Rightarrow> (string, 32 word) omap" where
  "connections_of grp s = (case map_of (internalLSIsConnections s) grp of None \<Rightarrow> [] | Some m \<Rightarrow> m)"

definition connect_internal :: "string \<Rightarrow> string \<Rightarrow> 32 word \<Rightarrow> 'w GraphManager \<Rightarrow> 'w GraphManager" where
  "connect_internal grp graphID i s =
     s\<lparr>internalLSIsConnections := om_put grp (om_put graphID i (connections_of grp s)) (internalLSIsConnections s)\<rparr>"

definition times_used :: "string \<Rightarrow> 'w GraphManager \<Rightarrow> 32 word" where
  "times_used grp s = (case map_of (timesUsedEndPointsInternal s) grp of None \<Rightarrow> 0 | Some n \<Rightarrow> n)"

definition set_times_used :: "string \<Rightarrow> 32 word \<Rightarrow> 'w GraphManager \<Rightarrow> 'w GraphManager" where
  "set_times_used grp n s = s\<lparr>timesUsedEndPointsInternal := om_put grp n (timesUsedEndPointsInternal s)\<rparr>"

text \<open>The rule on the internal switch: what comes over the link is switched as by a bridge.\<close>

definition internal_rule_id :: "string \<Rightarrow> string \<Rightarrow> string" where
  "internal_rule_id grp graphID = ''INTERNAL-GRAPH-'' @ grp @ ''_'' @ graphID"

definition internal_rule :: "'w host \<Rightarrow> string \<Rightarrow> string \<Rightarrow> 32 word \<Rightarrow> LLRule" where
  "internal_rule h grp graphID vlink_local_id =
     \<lparr>ll_priority = HIGH_PRIORITY,
      ll_match = LLMatch_setInputPort vlink_local_id (LLMatch_new (mem_rule_match h)),
      ll_action = LLAction_local False True (mem_rule_action h),
      flowID = internal_rule_id grp graphID\<rparr>"

definition install_internal_rule :: "'w host \<Rightarrow> string \<Rightarrow> string \<Rightarrow> 32 word \<Rightarrow> GraphInfo \<Rightarrow> ('w GraphManager, unit) exec" where
  "install_internal_rule h grp graphID local gi =
     bindS (controller_onS (gi_controller gi) (installNewRules (h_version h) [internal_rule h grp graphID local])
       (\<lambda>c. put_internal grp (gi\<lparr>gi_controller := Obj c\<rparr>))) (\<lambda>_. returnS ())"

text \<open>The failures in the creation of an internal switch delete its controller, to which the map still points.\<close>

definition drop_internal_controller :: "string \<Rightarrow> GraphInfo \<Rightarrow> ('w GraphManager, 'a) exec" where
  "drop_internal_controller grp gi =
     bindS (modifyS (put_internal grp (gi\<lparr>gi_controller := Freed\<rparr>))) (\<lambda>_. throwS GraphManagerException)"

definition create_internal_lsi :: "'w host \<Rightarrow> string \<Rightarrow> string \<Rightarrow> GraphInfo \<Rightarrow> ('w GraphManager, unit) exec" where
  "create_internal_lsi h grp graphID gi =
     bindS (liftS (derefR (gi_controller gi))) (\<lambda>c.
     bindS (new_vlinks 1) (\<lambda>vls.
     bindS (liftS (LSI_new (mem_dpid h) OF_CONTROLLER_ADDRESS (ctl_port c) [] [] [] vls [])) (\<lambda>l.
     bindS (getsS id) (\<lambda>s.
     let cli = \<lparr>cli_controllerAddress = OF_CONTROLLER_ADDRESS, cli_controllerPort = ctl_port c,
                cli_physicalPortsName = map fst (physical_ports l), cli_nf_types = [],
                cli_netFunctionsPortsInfo = getNetworkFunctionsPortsInfo l, cli_endpointsPortsName = [],
                cli_vlinksRemoteLsi = getVirtualLinksRemoteLSI l, cli_local_ip = OF_CONTROLLER_ADDRESS,
                cli_ipsec_certificate = ipsec_certificate s\<rparr>
     in bindS (catchS (switchS (createLsi (h_sm h) cli)) (\<lambda>e. e = SwitchManagerException) (\<lambda>_.
                 bindS (switchS (destroyLsi (h_sm h) (dpid l))) (\<lambda>_. drop_internal_controller grp gi))) (\<lambda>clo.
        if clo_physical_ports clo \<noteq> [] \<or> clo_network_functions_ports clo \<noteq> [] \<or> clo_endpoints_ports clo \<noteq> []
        then drop_internal_controller grp gi
        else bindS (liftS (set_vlink_ids (clo_virtual_links clo) 0 (setDpid (clo_dpid clo) l))) (\<lambda>l.
             bindS (modifyS (\<lambda>s. set_times_used grp 1
                      (s\<lparr>internalLSIsCreated := om_put grp True (internalLSIsCreated s)\<rparr>))) (\<lambda>_.
             bindS (liftS (assertR (length (virtual_links l) = 1))) (\<lambda>_.
             let v = hd (virtual_links l);
                 gi = gi\<lparr>gi_lsi := Obj (setEndPointsVLinks [(grp, vl_ID v)] l)\<rparr>
             in bindS (modifyS (connect_internal grp graphID (remote_id v))) (\<lambda>_.
                bindS (modifyS (put_internal grp gi)) (\<lambda>_.
                install_internal_rule h grp graphID (local_id v) gi))))))))))"

text \<open>
  A further graph on an internal switch. The link is added to the \<open>LSI\<close> before the virtual switch is
  asked for it, and its exception is not caught here.
\<close>

definition extend_internal_lsi :: "'w host \<Rightarrow> string \<Rightarrow> string \<Rightarrow> GraphInfo \<Rightarrow> ('w GraphManager, unit) exec" where
  "extend_internal_lsi h grp graphID gi =
     bindS the_lsi0 (\<lambda>l0.
     bindS (liftS (derefR (gi_lsi gi))) (\<lambda>l.
     bindS (\<lambda>s. case lsi_onS l (add_vlink (h_sm h) (dpid l0)) s of (r, l, s) \<Rightarrow>
                  (r, put_internal grp (gi\<lparr>gi_lsi := Obj l\<rparr>) s)) (\<lambda>vlinkID.
     bindS (internal_info grp) (\<lambda>gi.
     bindS (liftS (derefR (gi_lsi gi))) (\<lambda>l.
     bindS (liftS (getVirtualLink vlinkID l)) (\<lambda>vlink.
     bindS (modifyS (connect_internal grp graphID (remote_id vlink))) (\<lambda>_.
     bindS (modifyS (\<lambda>s. set_times_used grp (times_used grp s + 1) s)) (\<lambda>_.
     install_internal_rule h grp graphID (local_id vlink) gi))))))))"

definition handleGraphForInternalEndpoint :: "'w host \<Rightarrow> HLGraph \<Rightarrow> ('w GraphManager, unit) exec" where
  "handleGraphForInternalEndpoint h g =
     forS (\<lambda>iep.
       bindS (internal_info (en_group iep)) (\<lambda>gi.
       bindS (internal_created (en_group iep)) (\<lambda>created.
       if \<not> created then create_internal_lsi h (en_group iep) (graph_ID g) gi
       else extend_internal_lsi h (en_group iep) (graph_ID g) gi)))
     (endPointsInternal g)"

section \<open>A new graph\<close>

text \<open>Step 7: the rules of both switches; the graph is recorded before those of the LSI-0 are installed.\<close>

definition install_new_graph ::
  "'w host \<Rightarrow> HLGraph \<Rightarrow> LSI \<Rightarrow> ComputeController \<Rightarrow> Controller \<Rightarrow> ('w GraphManager, unit) exec" where
  "install_new_graph h g l cc c =
     bindS the_lsi0 (\<lambda>l0.
     bindS (getsS (\<lambda>s. lowerGraphToLSI0 g l l0 (internalLSIsConnections s) (mem_match h))) (\<lambda>r.
     bindS (liftS r) (\<lambda>graphLSI0.
     bindS (modifyS (\<lambda>s. s\<lparr>graphLSI0lowLevel := LLGraph_addRules graphLSI0 (graphLSI0lowLevel s)\<rparr>)) (\<lambda>_.
     bindS (liftS (lowerGraphToTenantLSI g l (mem_match h))) (\<lambda>graphTenant.
     bindS (liftS (installNewRules (h_version h) graphTenant c)) (\<lambda>(_, c).
     bindS (modifyS (put_tenant (graph_ID g)
       \<lparr>gi_controller = Obj c, gi_lsi = Obj l, gi_compute = Obj cc, gi_graph = Obj g\<rparr>)) (\<lambda>_.
     bindS (lsi0_controllerS (installNewRules (h_version h) graphLSI0)) (\<lambda>_.
     returnS ()))))))))"

definition forget_tenant :: "string \<Rightarrow> 'w GraphManager \<Rightarrow> 'w GraphManager" where
  "forget_tenant graphID s = s\<lparr>tenantLSIs := om_erase graphID (tenantLSIs s)\<rparr>"

text \<open>The steps 4 to 7, on the switch that was made.\<close>

definition deploy_graph ::
  "'w host \<Rightarrow> HLGraph \<Rightarrow> LSI \<Rightarrow> ComputeController \<Rightarrow> Controller \<Rightarrow> ('w GraphManager, bool) exec" where
  "deploy_graph h g l cc c =
     bindS (start_nfs h l (vnfs g) (setLsiID (dpid l) cc)) (\<lambda>(ok, cc).
     if \<not> ok then undo_new_graph h g l cc
     else bindS (handleControllerForInternalEndpoint g) (\<lambda>_.
          bindS (catchS (handleGraphForInternalEndpoint h g) (\<lambda>e. e = GraphManagerException)
                   (\<lambda>_. undo_new_graph h g l cc)) (\<lambda>_.
          bindS (catchS (install_new_graph h g l cc c) (\<lambda>e. e = SwitchManagerException) (\<lambda>_.
                   bindS (stop_nfs h (vnfs g) cc) (\<lambda>_.
                   bindS (switchS (destroyLsi (h_sm h) (dpid l))) (\<lambda>_.
                   bindS (modifyS (forget_tenant (graph_ID g))) (\<lambda>_.
                   throwS GraphManagerException))))) (\<lambda>_.
          returnS True))))"

definition newGraph :: "'w host \<Rightarrow> HLGraph \<Rightarrow> ('w GraphManager, bool) exec" where
  "newGraph h g =
     bindS (getsS (\<lambda>s. om_count (tenantLSIs s) (graph_ID g))) (\<lambda>known.
     bindS (liftS (assertR (\<not> known))) (\<lambda>_.
     bindS (checkGraphValidity h g (Obj (ComputeController_new (mem_lsiID h)))) (\<lambda>(r, ccp).
     bindS (liftS r) (\<lambda>valid.
     if \<not> valid then returnS False
     else bindS (liftS (derefR ccp)) (\<lambda>cc.
          bindS new_controller (\<lambda>c.
          bindS (computeS cc (select_implementations h)) (\<lambda>(selected, cc).
          if \<not> selected then throwS GraphManagerException
          else let vl = identifyVirtualLinksRequired g
               in bindS (new_vlinks (numberOfVLrequired vl)) (\<lambda>vls.
                  bindS (liftS (nf_port_types cc (vnfs g) [] [])) (\<lambda>types.
                  case types of
                    None \<Rightarrow> returnS False
                  | Some (nf_types, nfs_ports_type) \<Rightarrow>
                      bindS (make_tenant_lsi h g (ctl_port c) nf_types nfs_ports_type vls) (\<lambda>l.
                      bindS (liftS (associate_vlinks vl l)) (\<lambda>l.
                      deploy_graph h g l cc c)))))))))))"

section \<open>Deleting a graph\<close>

text \<open>An internal switch that only this graph used goes; otherwise only the link and the rule of this graph.\<close>

definition delete_internal_lsi :: "'w host \<Rightarrow> string \<Rightarrow> LSI \<Rightarrow> ('w GraphManager, unit) exec" where
  "delete_internal_lsi h grp l =
     bindS (to_GraphManagerException (switchS (destroyLsi (h_sm h) (dpid l)))) (\<lambda>_.
     bindS (getsS (\<lambda>s. om_count (internalLSIsConnections s) grp)) (\<lambda>connected.
     bindS (liftS (if connected then Inr () else Inl EndIterator)) (\<lambda>_.
     modifyS (\<lambda>s. s\<lparr>internalLSIs := om_erase grp (internalLSIs s),
                    internalLSIsConnections := om_erase grp (internalLSIsConnections s),
                    internalLSIsCreated := om_put grp False (internalLSIsCreated s)\<rparr>))))"

definition leave_internal_lsi :: "'w host \<Rightarrow> string \<Rightarrow> string \<Rightarrow> HLGraph \<Rightarrow> GraphInfo \<Rightarrow> LSI \<Rightarrow> ('w GraphManager, unit) exec" where
  "leave_internal_lsi h grp graphID g gi l =
     bindS (liftS (if gi_controller gi = Null then Inl AssertFailure else Inr ())) (\<lambda>_.
     bindS (controller_onS (gi_controller gi) (removeRuleFromID (h_version h) (internal_rule_id grp (graph_ID g)))
       (\<lambda>c. put_internal grp (gi\<lparr>gi_controller := Obj c\<rparr>))) (\<lambda>_.
     bindS (getsS (\<lambda>s. map_of (internalLSIsConnections s) grp)) (\<lambda>conns.
     bindS (liftS (optionR AssertFailure conns)) (\<lambda>conns.
     bindS (liftS (optionR AssertFailure (map_of conns graphID))) (\<lambda>port.
     bindS (liftS (optionR AssertFailure (find (\<lambda>v. remote_id v = port) (virtual_links l)))) (\<lambda>v.
     bindS (switchS (destroyVirtualLink (h_sm h) (dpid l) (local_id v) (remote_dpid v) (remote_id v))) (\<lambda>_.
     bindS (liftS (removeVlink (vl_ID v) l)) (\<lambda>l.
     bindS (internal_info grp) (\<lambda>gi.
     bindS (modifyS (put_internal grp (gi\<lparr>gi_lsi := Obj l\<rparr>))) (\<lambda>_.
     modifyS (\<lambda>s. s\<lparr>internalLSIsConnections := om_put grp (om_erase graphID conns) (internalLSIsConnections s)\<rparr>)))))))))))"

definition delete_internal :: "'w host \<Rightarrow> string \<Rightarrow> HLGraph \<Rightarrow> EndPointInternal \<Rightarrow> ('w GraphManager, unit) exec" where
  "delete_internal h graphID g iep =
     (let grp = en_group iep
      in bindS (getsS (\<lambda>s. map_of (internalLSIs s) grp)) (\<lambda>gi.
         bindS (liftS (optionR EndIterator gi)) (\<lambda>gi.
         bindS (liftS (derefR (gi_lsi gi))) (\<lambda>l.
         bindS (getsS (times_used grp)) (\<lambda>used.
         bindS (liftS (assertR (length (virtual_links l) = unat used))) (\<lambda>_.
         bindS (if used = 1 then delete_internal_lsi h grp l
                else leave_internal_lsi h grp graphID g gi l) (\<lambda>_.
         modifyS (\<lambda>s. set_times_used grp (times_used grp s - 1) s))))))))"

definition deleteGraph :: "'w host \<Rightarrow> string \<Rightarrow> ('w GraphManager, bool) exec" where
  "deleteGraph h graphID =
     bindS (getsS (\<lambda>s. map_of (tenantLSIs s) graphID)) (\<lambda>gi.
     case gi of
       None \<Rightarrow> returnS False
     | Some gi \<Rightarrow>
         bindS (liftS (derefR (gi_lsi gi))) (\<lambda>l.
         bindS (liftS (derefR (gi_graph gi))) (\<lambda>g.
         bindS the_lsi0 (\<lambda>l0.
         bindS (getsS (\<lambda>s. lowerGraphToLSI0 g l l0 (internalLSIsConnections s) (mem_match h))) (\<lambda>r.
         bindS (liftS r) (\<lambda>graphLSI0.
         bindS (getsS (\<lambda>s. LLGraph_removeRules graphLSI0 (graphLSI0lowLevel s))) (\<lambda>r.
         bindS (liftS r) (\<lambda>low.
         bindS (modifyS (\<lambda>s. s\<lparr>graphLSI0lowLevel := low\<rparr>)) (\<lambda>_.
         bindS (lsi0_controllerS (removeRules (h_version h) graphLSI0)) (\<lambda>_.
         bindS (tenant_computeS graphID (\<lambda>e. bindR (stopAll (h_nfm h) e) (\<lambda>e. Inr ((), e)))) (\<lambda>_.
         bindS (to_GraphManagerException (switchS (destroyLsi (h_sm h) (dpid l)))) (\<lambda>_.
         bindS (getsS (\<lambda>s. om_count (tenantLSIs s) (graph_ID g))) (\<lambda>known.
         bindS (liftS (if known then Inr () else Inl EndIterator)) (\<lambda>_.
         bindS (modifyS (forget_tenant (graph_ID g))) (\<lambda>_.
         bindS (forS (delete_internal h graphID g) (endPointsInternal g)) (\<lambda>_.
         returnS True))))))))))))))))"

section \<open>Updating a graph\<close>

text \<open>
  The ports to make on the switch for a function of the update: all of them for a new function, those
  the switch did not have for a known one.
\<close>

definition new_port_list ::
  "nf_port_info list option \<Rightarrow> nf_port_info list \<Rightarrow> nat \<Rightarrow> nf_port_info list result" where
  "new_port_list before after n =
     (if length after = n then Inr after
      else if after = [] then Inr []
      else bindR (optionR EndIterator before) (\<lambda>before.
           Inr (filter (\<lambda>p. \<forall>q \<in> set before. pi_port_name q \<noteq> pi_port_name p) after)))"

text \<open>3-b: a function of the update on the switch of the graph.\<close>

definition add_nf_to_switch :: "'w host \<Rightarrow> ComputeController \<Rightarrow> VNFs \<Rightarrow> ('w lsi_env, unit) exec" where
  "add_nf_to_switch h cc nf =
     bindS (liftS (getPortsId nf)) (\<lambda>nf_ports_id.
     bindS (getsS (\<lambda>e. map_of (getNetworkFunctionsPortsInfo (env_lsi e)) (vnf_id nf))) (\<lambda>before.
     bindS (liftS (optionR NullPointer (getNFSelectedImplementation (vnf_id nf) cc))) (\<lambda>descr.
     bindS (lsiS (\<lambda>l. Inr (snd (addNF (vnf_id nf) nf_ports_id (d_port_types descr) l)))) (\<lambda>_.
     bindS (getsS (\<lambda>e. map_of (getNetworkFunctionsPortsInfo (env_lsi e)) (vnf_id nf))) (\<lambda>after.
     bindS (liftS (optionR AssertFailure after)) (\<lambda>after.
     bindS (liftS (new_port_list before after (length (vnf_ports nf)))) (\<lambda>newPortList.
     bindS (liftS (getNFType (vnf_id nf) cc)) (\<lambda>t.
     bindS (getsS (\<lambda>e. dpid (env_lsi e))) (\<lambda>d.
     bindS (catchS (worldS (addNFPorts (h_sm h) d (vnf_id nf) t newPortList)) (\<lambda>e. e = SwitchManagerException)
              (\<lambda>_. bindS (lsiS (\<lambda>l. Inr (removeNF (vnf_id nf) l))) (\<lambda>_. throwS GraphManagerException)))
       (\<lambda>(nf_id, ports).
     bindS (lsiS (setNfSwitchPortsID nf_id ports)) (\<lambda>_.
     lsiS (\<lambda>l. Inr (setNetworkFunctionsPortsNameOnSwitch nf_id
       (fold (\<lambda>p. om_put (dec (unat (dpid l)) @ ''_'' @ pi_port_name p) (pi_port_id p)) newPortList []) l)))))))))))))"

text \<open>3-c: a GRE endpoint of the update. The first two parameters come in the other order than in \<open>newGraph\<close>.\<close>

definition add_gre_to_switch :: "'w host \<Rightarrow> string \<Rightarrow> EndPointGre \<Rightarrow> ('w lsi_env, unit) exec" where
  "add_gre_to_switch h iface ep =
     (let ep_param = [eg_local_ip ep, eg_gre_key ep, eg_remote_ip ep, iface, safe_string (eg_is_safe ep)]
      in bindS (lsiS (\<lambda>l. Inr (Lsi_State.addEndpoint ep l))) (\<lambda>_.
         bindS (getsS (\<lambda>e. dpid (env_lsi e))) (\<lambda>d.
         bindS (catchS (worldS (addEndpoint (h_sm h) d (eg_id ep) ep_param)) (\<lambda>e. e = SwitchManagerException)
                  (\<lambda>_. bindS (lsiS (removeEndpoint (eg_id ep))) (\<lambda>_. throwS GraphManagerException))) (\<lambda>(name, i).
         lsiS (setEndpointPortID name i)))))"

text \<open>4: a function with more ports on the switch than in the update is updated, the others are started.\<close>

fun start_update ::
  "'w host \<Rightarrow> string \<Rightarrow> VNFs list \<Rightarrow> ('w GraphManager, bool) exec" where
  "start_update h graphID [] = returnS True"
| "start_update h graphID (nf # nfs) =
     bindS (tenant_lsi graphID) (\<lambda>l.
     let names = getNetworkFunctionsPortsNameOnSwitchMap (vnf_id nf) l
     in bindS (liftS (getPortsID_configuration nf)) (\<lambda>config.
        bindS (liftS (getPortsId nf)) (\<lambda>ids.
        bindS (if length names \<noteq> length ids
               then bindS (tenant_computeS graphID (updateNF (h_nfm h) (vnf_id nf) names config ids)) (\<lambda>ok.
                    bindS (liftS (assertR ok)) (\<lambda>_. returnS True))
               else tenant_computeS graphID (startNF (h_nfm h) (vnf_id nf) names config)) (\<lambda>started.
        bindS (start_update h graphID nfs) (\<lambda>ok.
        returnS (started \<and> ok))))))"

definition put_graph :: "string \<Rightarrow> HLGraph \<Rightarrow> ('w GraphManager, unit) exec" where
  "put_graph graphID g =
     bindS (tenant_info graphID) (\<lambda>gi. modifyS (put_tenant graphID (gi\<lparr>gi_graph := Obj g\<rparr>)))"

definition put_compute :: "string \<Rightarrow> ComputeController pointer \<Rightarrow> ('w GraphManager, unit) exec" where
  "put_compute graphID cc =
     bindS (tenant_info graphID) (\<lambda>gi. modifyS (put_tenant graphID (gi\<lparr>gi_compute := cc\<rparr>)))"

definition updateGraph_add :: "'w host \<Rightarrow> string \<Rightarrow> HLGraph \<Rightarrow> ('w GraphManager, HLGraph) exec" where
  "updateGraph_add h graphID update =
     bindS (getsS (\<lambda>s. map_of (tenantLSIs s) graphID)) (\<lambda>gi.
     bindS (liftS (optionR AssertFailure gi)) (\<lambda>gi.
     bindS (liftS (derefR (gi_lsi gi))) (\<lambda>l.
     bindS (liftS (derefR (gi_graph gi))) (\<lambda>g.
     let diff = calculateDiff g update graphID
     in bindS (checkGraphValidity h diff (gi_compute gi)) (\<lambda>(r, ccp).
        bindS (put_compute graphID ccp) (\<lambda>_.
        bindS (liftS r) (\<lambda>valid.
        if \<not> valid then throwS GraphManagerException
        else bindS (put_graph graphID (snd (addGraphToGraph diff g))) (\<lambda>_.
             bindS (tenant_computeS graphID (select_implementations h)) (\<lambda>selected.
             if \<not> selected then bindS (put_compute graphID Freed) (\<lambda>_. throwS GraphManagerException)
             else bindS (getsS dpid0) (\<lambda>d0.
                  bindS (tenant_lsiS graphID (add_required_vlinks (h_sm h) d0 diff)) (\<lambda>_.
                  bindS (tenant_info graphID) (\<lambda>gi.
                  bindS (liftS (derefR (gi_compute gi))) (\<lambda>cc.
                  bindS (tenant_lsiS graphID (forS (add_nf_to_switch h cc) (vnfs diff))) (\<lambda>_.
                  bindS (getsS un_interface) (\<lambda>iface.
                  bindS (tenant_lsiS graphID (forS (add_gre_to_switch h iface) (endPointsGre diff))) (\<lambda>_.
                  bindS (liftS (assertR (endPointsInternal diff = []))) (\<lambda>_.
                  bindS (tenant_computeS graphID (\<lambda>e. Inr ((), e\<lparr>ce_cc := setLsiID (dpid l) (ce_cc e)\<rparr>))) (\<lambda>_.
                  bindS (start_update h graphID (vnfs diff)) (\<lambda>ok.
                  if ok then returnS diff
                  else bindS (forS (\<lambda>nf. bindS (tenant_computeS graphID (stopNF (h_nfm h) (vnf_id nf)))
                                            (\<lambda>_. returnS ())) (vnfs diff)) (\<lambda>_.
                       bindS (switchS (destroyLsi (h_sm h) (dpid l))) (\<lambda>_.
                       throwS GraphManagerException)))))))))))))))))))))"

text \<open>The part of an update that takes rules, links, endpoints and functions away.\<close>

definition remove_rule_by_id :: "'w host \<Rightarrow> string \<Rightarrow> string \<Rightarrow> HLRule \<Rightarrow> ('w GraphManager, unit) exec" where
  "remove_rule_by_id h graphID gid r =
     (let lsi0RuleID = gid @ ''_'' @ hr_ruleID r
      in bindS (lsi0_controllerS (removeRuleFromID (h_version h) lsi0RuleID)) (\<lambda>_.
         bindS (modifyS (\<lambda>s. s\<lparr>graphLSI0lowLevel :=
                  snd (LLGraph_removeRuleFromID lsi0RuleID (graphLSI0lowLevel s))\<rparr>)) (\<lambda>_.
         bindS (tenant_controllerS graphID (removeRuleFromID (h_version h) (hr_ruleID r))) (\<lambda>_.
         returnS ()))))"

definition remove_gre :: "'w host \<Rightarrow> EndPointGre \<Rightarrow> ('w lsi_env, unit) exec" where
  "remove_gre h ep =
     bindS (getsS (\<lambda>e. dpid (env_lsi e))) (\<lambda>d.
     bindS (to_GraphManagerException (worldS (destroyEndpoint (h_sm h) d (eg_id ep)))) (\<lambda>_.
     lsiS (removeEndpoint (eg_id ep))))"

definition remove_nf :: "'w host \<Rightarrow> VNFs \<Rightarrow> ('w lsi_env, unit) exec" where
  "remove_nf h nf =
     bindS (getsS env_lsi) (\<lambda>l.
     let nf_ports = fold os_insert (map snd (getNetworkFunctionsPortsNameOnSwitchMap (vnf_id nf) l)) []
     in bindS (to_GraphManagerException (worldS (destroyNFPorts (h_sm h) (dpid l) (vnf_id nf) nf_ports))) (\<lambda>_.
        lsiS (\<lambda>l. Inr (removeNF (vnf_id nf) l))))"

definition stop_and_remove_nf :: "'w host \<Rightarrow> string \<Rightarrow> VNFs \<Rightarrow> ('w GraphManager, unit) exec" where
  "stop_and_remove_nf h graphID nf =
     bindS (tenant_computeS graphID (stopNF (h_nfm h) (vnf_id nf))) (\<lambda>_.
     tenant_lsiS graphID (remove_nf h nf))"

definition updateGraph_remove :: "'w host \<Rightarrow> string \<Rightarrow> HLGraph \<Rightarrow> ('w GraphManager, bool) exec" where
  "updateGraph_remove h graphID update =
     bindS (getsS (\<lambda>s. map_of (tenantLSIs s) graphID)) (\<lambda>gi.
     bindS (liftS (optionR AssertFailure gi)) (\<lambda>gi.
     bindS (liftS (derefR (gi_graph gi))) (\<lambda>g.
     let diff = calculateDiff update g graphID
     in bindS (liftS (removeGraphFromGraph diff g)) (\<lambda>(removeRuleInfo, g).
        bindS (put_graph graphID g) (\<lambda>_.
        bindS (forS (remove_rule_by_id h graphID (graph_ID g)) (rules diff)) (\<lambda>_.
        bindS (liftS (assertR (length removeRuleInfo = length (rules diff)))) (\<lambda>_.
        bindS (tenant_lsiS graphID (forS (\<lambda>rri. removeUselessVlinks (h_sm h) rri g) removeRuleInfo)) (\<lambda>_.
        bindS (tenant_lsiS graphID (forS (remove_gre h) (endPointsGre diff))) (\<lambda>_.
        bindS (forS (stop_and_remove_nf h graphID) (vnfs diff)) (\<lambda>_.
        returnS True))))))))))"

text \<open>The part that lowers the new rules and installs them on both switches.\<close>

definition updateGraph_add_rules :: "'w host \<Rightarrow> string \<Rightarrow> HLGraph \<Rightarrow> ('w GraphManager, bool) exec" where
  "updateGraph_add_rules h graphID diff =
     bindS (tenant_lsi graphID) (\<lambda>l.
     bindS (catchS (
       bindS the_lsi0 (\<lambda>l0.
       bindS (getsS (\<lambda>s. lowerGraphToLSI0 diff l l0 (internalLSIsConnections s) (mem_match h))) (\<lambda>r.
       bindS (liftS r) (\<lambda>graphLSI0.
       bindS (modifyS (\<lambda>s. s\<lparr>graphLSI0lowLevel := LLGraph_addRules graphLSI0 (graphLSI0lowLevel s)\<rparr>)) (\<lambda>_.
       bindS (liftS (lowerGraphToTenantLSI diff l (mem_match h))) (\<lambda>graphTenant.
       bindS (lsi0_controllerS (installNewRules (h_version h) graphLSI0)) (\<lambda>_.
       bindS (tenant_controllerS graphID (installNewRules (h_version h) graphTenant)) (\<lambda>_.
       returnS ())))))))) (\<lambda>e. e = SwitchManagerException) (\<lambda>_. throwS AssertFailure)) (\<lambda>_.
     returnS True))"

definition updateGraph :: "'w host \<Rightarrow> string \<Rightarrow> HLGraph \<Rightarrow> ('w GraphManager, bool) exec" where
  "updateGraph h graphID update =
     bindS (catchS (bindS (updateGraph_add h graphID update) (\<lambda>diff. returnS (Some diff)))
              (\<lambda>e. e = GraphManagerException) (\<lambda>_. returnS None)) (\<lambda>diff.
     case diff of
       None \<Rightarrow> returnS False
     | Some diff \<Rightarrow>
         bindS (updateGraph_remove h graphID update) (\<lambda>ok.
         if \<not> ok then returnS False else updateGraph_add_rules h graphID diff))"

section \<open>Queries\<close>

definition graphExists :: "string \<Rightarrow> 'w GraphManager \<Rightarrow> bool" where
  "graphExists graphID s = om_count (tenantLSIs s) graphID"

definition getGraphsNames :: "'w GraphManager \<Rightarrow> string list" where
  "getGraphsNames s = map fst (tenantLSIs s)"

definition GraphManager_toJSON :: "string \<Rightarrow> 'w GraphManager \<Rightarrow> jobject result" where
  "GraphManager_toJSON graphID s =
     bindR (optionR AssertFailure (map_of (tenantLSIs s) graphID)) (\<lambda>gi.
     bindR (derefR (gi_graph gi)) (\<lambda>g.
     case HLGraph_toJSON g of
       Inl e \<Rightarrow> if thrown e then Inl AssertFailure else Inl e
     | Inr j \<Rightarrow> Inr [(''forwarding-graph'', JObj j)]))"

section \<open>The LSI-0, and the end of the manager\<close>

definition IN_BAND_GRAPH :: string where
  "IN_BAND_GRAPH = ''IN-BAND-GRAPH''"

definition in_band_rules :: "'w host \<Rightarrow> string \<Rightarrow> 32 word \<Rightarrow> LLRule list" where
  "in_band_rules h address port =
     (let m0 = LLMatch_setInputPort port (setEthType 2054 (setArpTpa address (LLMatch_new (mem_rule_match h))));
          m1 = LLMatch_setInputPort port (setEthType 2048 (setIpv4Dst address (LLMatch_new (mem_rule_match h))));
          m3 = LLMatch_new_local True (mem_rule_match h);
          to_local = LLAction_local True False (mem_rule_action h)
      in [\<lparr>ll_priority = HIGH_PRIORITY, ll_match = m0, ll_action = to_local, flowID = IN_BAND_GRAPH @ ''_0''\<rparr>,
          \<lparr>ll_priority = HIGH_PRIORITY, ll_match = m1, ll_action = to_local, flowID = IN_BAND_GRAPH @ ''_1''\<rparr>,
          \<lparr>ll_priority = HIGH_PRIORITY, ll_match = m3, ll_action = LLAction_port port, flowID = IN_BAND_GRAPH @ ''_2''\<rparr>])"

text \<open>The quotes around the name of the interface are cut off; a name of one character is out of range.\<close>

definition handleInBandController :: "'w host \<Rightarrow> ('w GraphManager, unit) exec" where
  "handleInBandController h =
     bindS (getsS un_interface) (\<lambda>i.
     bindS (modifyS (\<lambda>s. s\<lparr>un_interface := tl i\<rparr>)) (\<lambda>_.
     bindS (liftS (if length i < 2 then Inl OutOfBounds else Inr ())) (\<lambda>_.
     let i = butlast (tl i)
     in bindS (modifyS (\<lambda>s. s\<lparr>un_interface := i\<rparr>)) (\<lambda>_.
        bindS the_lsi0 (\<lambda>l0.
        case map_of (physical_ports l0) i of
          None \<Rightarrow> throwS GraphManagerException
        | Some port \<Rightarrow>
            bindS (modifyS (\<lambda>s. s\<lparr>graphLSI0lowLevel :=
                     LLGraph_addRules (in_band_rules h (un_address s) port) (graphLSI0lowLevel s)\<rparr>)) (\<lambda>_.
            bindS (getsS graphLSI0lowLevel) (\<lambda>low.
            bindS (lsi0_controllerS (installNewRules (h_version h) low)) (\<lambda>_. returnS ()))))))))"

text \<open>A manager before its constructor has done anything, with the static members of the classes.\<close>

definition GraphManager_init ::
  "string \<Rightarrow> bool \<Rightarrow> string \<Rightarrow> string \<Rightarrow> string \<Rightarrow> int \<Rightarrow> 64 word \<Rightarrow> 32 word \<Rightarrow> 64 word \<Rightarrow> core_pool \<Rightarrow> 'w \<Rightarrow>
     'w GraphManager" where
  "GraphManager_init address in_band interface certificate ip port mem next_port next_link pool w =
     \<lparr>timesUsedEndPointsInternal = [], internalLSIsCreated = [], internalLSIs = [],
      internalLSIsConnections = [], graphInfoLSI0 = GraphInfo_new, dpid0 = mem, graphLSI0lowLevel = [],
      un_address = address, orchestrator_in_band = in_band, un_interface = interface,
      ipsec_certificate = certificate, tenantLSIs = [], nameResolverIP = ip, nameResolverPort = port,
      nextControllerPort = next_port, nextLinkID = next_link, gm_cores = pool, gm_world = w\<rparr>"

definition create_lsi0 :: "'w host \<Rightarrow> string oset \<Rightarrow> Controller \<Rightarrow> ('w GraphManager, LSI) exec" where
  "create_lsi0 h phyPorts c =
     bindS (liftS (LSI_new (mem_dpid h) OF_CONTROLLER_ADDRESS (ctl_port c) phyPorts [] [] [] [])) (\<lambda>l.
     bindS (getsS id) (\<lambda>s.
     let cli = \<lparr>cli_controllerAddress = OF_CONTROLLER_ADDRESS, cli_controllerPort = ctl_port c,
                cli_physicalPortsName = map fst (physical_ports l), cli_nf_types = [],
                cli_netFunctionsPortsInfo = [], cli_endpointsPortsName = [],
                cli_vlinksRemoteLsi = getVirtualLinksRemoteLSI l, cli_local_ip = un_address s,
                cli_ipsec_certificate = ipsec_certificate s\<rparr>
     in bindS (to_GraphManagerException (switchS (createLsi (h_sm h) cli))) (\<lambda>clo.
        bindS (liftS (foldR (\<lambda>(p, i). setPhysicalPortID p (ucast i)) (clo_physical_ports clo)
                       (setDpid (clo_dpid clo) l))) (\<lambda>l.
        if clo_network_functions_ports clo \<noteq> [] \<or> clo_endpoints_ports clo \<noteq> [] \<or> clo_virtual_links clo \<noteq> []
        then throwS GraphManagerException
        else returnS l))))"

definition GraphManager_construct :: "'w host \<Rightarrow> 32 word \<Rightarrow> string oset \<Rightarrow> ('w GraphManager, unit) exec" where
  "GraphManager_construct h core_mask phyPorts =
     bindS new_controller (\<lambda>c.
     bindS (catchS (switchS (checkPhysicalInterfaces (h_sm h) phyPorts)) (\<lambda>_. True)
              (\<lambda>_. throwS GraphManagerException)) (\<lambda>_.
     bindS (create_lsi0 h phyPorts c) (\<lambda>l.
     bindS (modifyS (\<lambda>s. s\<lparr>dpid0 := dpid l,
              graphInfoLSI0 := (graphInfoLSI0 s)\<lparr>gi_lsi := Obj l, gi_controller := Obj c\<rparr>,
              gm_cores := setCoreMask (scast core_mask) (gm_cores s)\<rparr>)) (\<lambda>_.
     bindS (getsS id) (\<lambda>s.
     if orchestrator_in_band s \<and> un_interface s \<noteq> '''' \<and> un_address s \<noteq> ''''
     then handleInBandController h else returnS ())))))"

text \<open>The destructor deletes the graphs in order; an exception there fails an assertion.\<close>

definition GraphManager_destruct :: "'w host \<Rightarrow> ('w GraphManager, unit) exec" where
  "GraphManager_destruct h =
     bindS (getsS getGraphsNames) (\<lambda>ids.
     bindS (forS (\<lambda>i. catchS (bindS (deleteGraph h i) (\<lambda>_. returnS ())) (\<lambda>_. True) (\<lambda>_. throwS AssertFailure)) ids) (\<lambda>_.
     bindS the_lsi0 (\<lambda>l0.
     bindS (catchS (switchS (destroyLsi (h_sm h) (dpid l0))) (\<lambda>e. e = SwitchManagerException) (\<lambda>_. returnS ())) (\<lambda>_.
     modifyS (\<lambda>s. s\<lparr>graphInfoLSI0 := (graphInfoLSI0 s)\<lparr>gi_controller := Freed\<rparr>\<rparr>)))))"

end
