(* ===== verification/Sample_Node.thy ===== *)
theory Sample_Node
  imports Graph_Manager
begin

text \<open>
  A node to run the manager on: containers as the only execution environment, a name resolver that
  knows one function, and a virtual switch that numbers the ports of a switch from one and the
  switches in the order they are made. The examples of the other theories run on it.
\<close>

definition sample_match :: LLMatch where
  "sample_match = Match.extend (Match.truncate zero_HLMatch) (LLMatch.fields False 0 False)"

definition sample_action :: LLAction where
  "sample_action =
     \<lparr>act_type = OFPAT_OUTPUT, port_id = 0, act_is_local_port = False, is_normal = False, ll_genericActions = []\<rparr>"

fun numbered :: "nat \<Rightarrow> 'a list \<Rightarrow> ('a \<times> 32 word) list" where
  "numbered n [] = []"
| "numbered n (x # xs) = (x, of_nat n) # numbered (n + 1) xs"

text \<open>The ports of the functions come first, then the physical ports, the tunnels and the links.\<close>

fun nf_ports_of :: "nat \<Rightarrow> (string \<times> nf_port_info list) list \<Rightarrow> (string \<times> (string, 32 word) omap) list" where
  "nf_ports_of n [] = []"
| "nf_ports_of n ((nf, ps) # nfs) = (nf, numbered n (map pi_port_name ps)) # nf_ports_of (n + length ps) nfs"

definition sample_out :: "nat \<Rightarrow> CreateLsiIn \<Rightarrow> CreateLsiOut" where
  "sample_out d cli =
     (let a = sum_list (map (\<lambda>(_, ps). length ps) (cli_netFunctionsPortsInfo cli));
          b = a + length (cli_physicalPortsName cli);
          c = b + length (cli_endpointsPortsName cli)
      in \<lparr>clo_dpid = of_nat d, clo_physical_ports = numbered (a + 1) (cli_physicalPortsName cli),
          clo_network_functions_ports = nf_ports_of 1 (cli_netFunctionsPortsInfo cli),
          clo_endpoints_ports = numbered (b + 1) (map fst (cli_endpointsPortsName cli)),
          clo_virtual_links = map (\<lambda>i. (of_nat (c + 1 + i), of_nat (100 * d + i))) [0..<length (cli_vlinksRemoteLsi cli)],
          clo_nf_ports_name_and_id = nf_ports_of 1 (cli_netFunctionsPortsInfo cli)\<rparr>)"

text \<open>The state of the node is the number of calls of the switch so far.\<close>

definition sample_switch :: "nat SwitchManager" where
  "sample_switch =
     \<lparr>createLsi = (\<lambda>cli w. (Inr (sample_out (w + 1) cli), w + 1)),
      addNFPorts = (\<lambda>_ nf _ ps w. (Inr (nf, numbered (20 * (w + 1)) (map pi_port_name ps)), w + 1)),
      addEndpoint = (\<lambda>_ ep _ w. (Inr (ep, of_nat (20 * (w + 1))), w + 1)),
      addVirtualLink = (\<lambda>_ _ w. (Inr (of_nat (20 * (w + 1)), of_nat (100 * (w + 1))), w + 1)),
      destroyLsi = (\<lambda>_. returnS ()), destroyNFPorts = (\<lambda>_ _ _. returnS ()), destroyEndpoint = (\<lambda>_ _. returnS ()),
      destroyVirtualLink = (\<lambda>_ _ _ _. returnS ()), checkPhysicalInterfaces = (\<lambda>_. returnS ())\<rparr>"

definition sample_nfm :: "nat NFsManager" where
  "sample_nfm = \<lparr>native_new = (\<lambda>w. (False, w)), isSupported = (\<lambda>d w. (d_type d = DOCKER, w)),
     nfm_startNF = (\<lambda>d i w. (True, w)), nfm_updateNF = (\<lambda>d i w. (True, w)), nfm_stopNF = (\<lambda>d l i w. (True, w))\<rparr>"

definition sample_answer :: jvalue where
  "sample_answer = JObj [(''implementations'', JArr [
       JObj [(''ports'', JArr [JObj [(''id'', JInt 1), (''type'', JStr ''vhost'')]]),
         (''type'', JStr ''docker''), (''uri'', JStr ''fw:1'')]]),
     (''name'', JStr ''firewall''), (''nports'', JInt 1), (''summary'', JStr ''firewall'')]"

definition sample_reply :: string where
  "sample_reply = ''HTTP/1.1 200 OK'' @ crlf @ crlf"

definition sample_host :: "nat host" where
  "sample_host =
     \<lparr>h_env = (\<lambda>t. t = DOCKER), h_sm = sample_switch, h_nfm = sample_nfm,
      h_recv = (\<lambda>_ _. Some sample_reply), h_read_json = (\<lambda>_. sample_answer),
      h_version = OFP_12, mem_buffer = [], mem_lsiID = 0, mem_dpid = 0, mem_match = (\<lambda>_. sample_match),
      mem_rule_match = sample_match, mem_rule_action = sample_action\<rparr>"

section \<open>Running the operations\<close>

text \<open>
  Evaluation by rewriting: the congruence rules keep the simplifier from the steps that come later,
  whose state is not known yet.
\<close>

lemma run_congs:
  "s = s' \<Longrightarrow> bindS m f s = bindS m f s'"
  "s = s' \<Longrightarrow> catchS m c k s = catchS m c k s'"
  "s = s' \<Longrightarrow> switchS m' s = switchS m' s'"
  by simp_all

lemmas run_exec = fun_cong[OF newGraph_def] fun_cong[OF checkGraphValidity_def] fun_cong[OF the_lsi0_def]
  fun_cong[OF deploy_graph_def]
  fun_cong[OF install_new_graph_def] fun_cong[OF lsi0_controllerS_def] fun_cong[OF create_lsi_def]
  fun_cong[OF GraphManager_construct_def] fun_cong[OF create_lsi0_def] fun_cong[OF controller_onS_def] fun_cong[OF to_GraphManagerException_def]
  bindS_def exec_simps new_controller_def switchS_def computeS_def new_vlinks_def catchS_def

lemmas run_data = derefR_def GraphInfo_new_def ComputeController_new_def Controller_new_def
  GraphManager_init_def LSI_new_def bindR_def om_count_def sample_out_def setDpid_def setPhysicalPortID_def getVirtualLinksRemoteLSI_def assertR_def OF_CONTROLLER_ADDRESS_def

text \<open>The manager after its constructor, on a node with three interfaces, under out-of-band control.\<close>

definition sample_pool :: core_pool where
  "sample_pool = setCoreMask 1 \<lparr>cores = [], nextCore = 0\<rparr>"

definition sample_lsi0 :: LSI where
  "sample_lsi0 =
     \<lparr>controllerAddress = ''127.0.0.1'', controllerPort = ''6653'', dpid = 1,
      physical_ports = [(''eth0'', 1), (''eth1'', 2), (''eth2'', 3)], gre_endpoints_ports = [],
      endpoints_ports_id = [], network_functions = [], virtual_links = [], nfs_vlinks = [],
      ports_vlinks = [], endpoints_vlinks = [], endpoints_gre_vlinks = []\<rparr>"

definition sample_controller :: "string \<Rightarrow> LLGraph \<Rightarrow> Controller" where
  "sample_controller p T = \<lparr>ctl_dpt = None, isOpen = False, ctl_graph = T, ctl_port = p, ctl_sent = []\<rparr>"

definition sample_start :: "nat GraphManager" where
  "sample_start =
     \<lparr>timesUsedEndPointsInternal = [], internalLSIsCreated = [], internalLSIs = [],
      internalLSIsConnections = [],
      graphInfoLSI0 = \<lparr>gi_controller = Obj (sample_controller ''6653'' []), gi_lsi = Obj sample_lsi0, gi_compute = Null, gi_graph = Freed\<rparr>,
      dpid0 = 1, graphLSI0lowLevel = [], un_address = '''', orchestrator_in_band = False, un_interface = '''',
      ipsec_certificate = '''', tenantLSIs = [], nameResolverIP = ''127.0.0.1'', nameResolverPort = 2626,
      nextControllerPort = 6654, nextLinkID = 1, gm_cores = sample_pool, gm_world = 1\<rparr>"

lemma sample_h: "h_env sample_host = (\<lambda>t. t = DOCKER)" "h_sm sample_host = sample_switch" "h_nfm sample_host = sample_nfm"
  "h_recv sample_host = (\<lambda>_ _. Some sample_reply)" "h_read_json sample_host = (\<lambda>_. sample_answer)"
  "h_version sample_host = OFP_12" "mem_buffer sample_host = []" "mem_lsiID sample_host = 0" "mem_dpid sample_host = 0"
  "mem_match sample_host = (\<lambda>_. sample_match)"
  "mem_rule_match sample_host = sample_match" "mem_rule_action sample_host = sample_action"
  by (simp_all add: sample_host_def)

lemma sample_sm: "createLsi sample_switch cli w = (Inr (sample_out (w + 1) cli), w + 1)"
  "addNFPorts sample_switch d nf t ps w = (Inr (nf, numbered (20 * (w + 1)) (map pi_port_name ps)), w + 1)"
  "addEndpoint sample_switch d ep params w = (Inr (ep, of_nat (20 * (w + 1))), w + 1)"
  "addVirtualLink sample_switch d d' w = (Inr (of_nat (20 * (w + 1)), of_nat (100 * (w + 1))), w + 1)"
  "destroyLsi sample_switch d w = (Inr (), w)" "destroyNFPorts sample_switch d nf ports w = (Inr (), w)"
  "destroyEndpoint sample_switch d ep w = (Inr (), w)" "destroyVirtualLink sample_switch d a b c w = (Inr (), w)"
  "checkPhysicalInterfaces sample_switch x w = (Inr (), w)"
  by (simp_all add: sample_switch_def exec_simps)

lemma dec_ports: "dec 6653 = ''6653''" "dec 6654 = ''6654''" "dec 6655 = ''6655''" "dec 6656 = ''6656''"
  by (simp_all add: dec.simps digit_def char_of_def bit_0)

lemma sample_constructed:
  "GraphManager_construct sample_host 1 [''eth0'', ''eth1'', ''eth2'']
     (GraphManager_init '''' False '''' '''' ''127.0.0.1'' 2626 0 6653 1 \<lparr>cores = [], nextCore = 0\<rparr> 0) =
   (Inr (), sample_start)"
  by (simp add: run_exec run_data sample_h sample_sm sample_start_def sample_lsi0_def sample_controller_def
      dec_ports sample_pool_def cong: run_congs del: bindS_simps)

definition sample_docker :: Description where
  "sample_docker = \<lparr>d_type = DOCKER, d_uri = ''fw:1'', d_supported = True, d_port_types = [(1, VHOST_PORT)], d_cores = '''',
     d_location = '''', d_requirements = []\<rparr>"

definition sample_NF :: "bool \<Rightarrow> Description option \<Rightarrow> bool \<Rightarrow> NF" where
  "sample_NF supp sel running = \<lparr>NF_name = ''firewall'', nf_descriptions = [sample_docker\<lparr>d_supported := supp\<rparr>],
     nf_selected = sel, nf_isRunning = running\<rparr>"

lemma sample_sel [simp]: "nf_selected (sample_NF a b c) = b" "nf_isRunning (sample_NF a b c) = c"
  "(sample_NF a b c)\<lparr>nf_isRunning := d\<rparr> = sample_NF a b d" "d_type sample_docker = DOCKER"
  "d_port_types sample_docker = [(1, VHOST_PORT)]" "d_cores sample_docker = ''''"
  by (simp_all add: sample_NF_def sample_docker_def)

lemma sample_parse:
  "parseAnswer (\<lambda>t. t = DOCKER) sample_answer ''firewall'' ''01'' \<lparr>cc_nfs = [], cc_lsiID = 0\<rparr> =
     Inr (True, \<lparr>cc_nfs = [(''01'', sample_NF False None False)], cc_lsiID = 0\<rparr>)"
  by code_simp

lemma sample_retrieve:
  "retrieveDescription (\<lambda>t. t = DOCKER) (\<lambda>_. Some sample_reply) (\<lambda>_. sample_answer) []
     ''01'' ''firewall'' ip port \<lparr>cc_nfs = [], cc_lsiID = 0\<rparr> =
   Inr (NFManager_OK, \<lparr>cc_nfs = [(''01'', sample_NF False None False)], cc_lsiID = 0\<rparr>)"
  by (simp add: retrieveDescription_def DATA_BUFFER_SIZE_def sample_parse sample_reply_def crlf_def)

lemma sample_select:
  "selectImplementation (\<lambda>t. t = DOCKER) sample_nfm \<lparr>cc_nfs = [(''01'', sample_NF False None False)], cc_lsiID = 0\<rparr> w =
     Inr (True, \<lparr>cc_nfs = [(''01'', sample_NF True (Some sample_docker) False)], cc_lsiID = 0\<rparr>, w)"
  by code_simp

lemma sample_number: "extract_number_from_id ''in:0'' = Inr 1"
  by (simp add: extract_number_from_id_def strtok.simps sscanf_u_def scan_digits_def is_space_def is_digit_def dec_val_def
      digit_val_def)

lemma sample_ports: "getPortsId (ex_vnf [''in:0'']) = Inr [1]"
  "getPortsID_configuration (ex_vnf [''in:0'']) = Inr [(1, \<lparr>mac_address = ''''\<rparr>)]"
  by (simp_all add: getPortsId_def getPortsID_configuration_def ex_vnf_def sample_number)

lemma ex_old_sel: "graph_ID ex_old = ''g''" "vnfs ex_old = [ex_vnf [''in:0'']]" "vnf_id (ex_vnf ps) = ''01''"
  "vnf_name (ex_vnf ps) = ''firewall''" "rules ex_old = [ex_rule_in, ex_rule_out ''2'' ''eth1'']"
  "endPointsInterface ex_old = [\<lparr>ei_id = ''1'', ei_name = ''a'', ei_interface = ''eth0''\<rparr>,
        \<lparr>ei_id = ''2'', ei_name = ''b'', ei_interface = ''eth1''\<rparr>]"
  "endPointsGre ex_old = []" "endPointsInternal ex_old = []"
  by (simp_all add: ex_old_def HLGraph_new_def ex_vnf_def)

lemma sample_name: "nf_port_name ''01'' 1 = ''01_1''"
  by (simp add: nf_port_name_def underscore_name_def dec.simps digit_def char_of_def bit_0)

lemma sample_links:
  "identifyVirtualLinksRequired ex_old =
     \<lparr>vlNFs = [''01_1''], vlPhyPorts = [''eth1''], vlEndPointsGre = [], vlEndPointsInternal = []\<rparr>"
  by (simp add: identifyVirtualLinksRequired_def ex_points no_vlinks_def sample_name[symmetric]
        require_vlink_def ex_defs matchOn_defs getType_def os_insert_def insort_insert_key_def action_nf_port_def nf_port_name_def out_port_def)

lemmas run_lsi = add_vnf_to_lsi_def addNF_def add_nf_ports.simps getNetworkFunctionsPortsInfo_def
  getNetworkFunctionPortType_def nfData_new_def record_tenant_lsi_def setNfSwitchPortsID_def
  setNetworkFunctionsPortsNameOnSwitch_def setVLinkIDs_def om_insert_def setEndpointPortID_def
  associate_vlinks_def setNFsVLinks_def setPortsVLinks_def setEndPointsVLinks_def setEndPointsGreVLinks_def
  VLink_new_def description_gre_endpoints_def getNetworkFunctionsPortsNameOnSwitchMap_def

definition sample_tenant :: LSI where
  "sample_tenant =
     \<lparr>controllerAddress = ''127.0.0.1'', controllerPort = ''6654'', dpid = 2, physical_ports = [],
      gre_endpoints_ports = [], endpoints_ports_id = [],
      network_functions = [(''01'', \<lparr>ports_type = [(''01_1'', VHOST_PORT)], ports_name_on_switch = [(1, ''01_1'')],
        ports_switch_id = [(''01_1'', 1)], nf_ports_id = [1]\<rparr>)],
      virtual_links = [\<lparr>vl_ID = 1, remote_dpid = 1, local_id = 2, remote_id = 200\<rparr>],
      nfs_vlinks = [(''01_1'', 1)], ports_vlinks = [(''eth1'', 1)], endpoints_vlinks = [], endpoints_gre_vlinks = []\<rparr>"

lemma sample_tenant_made:
  "gm_world s = 1 \<Longrightarrow> ipsec_certificate s = '''' \<Longrightarrow> un_interface s = '''' \<Longrightarrow>
   make_tenant_lsi sample_host ex_old ''6654'' [(''01'', DOCKER)] [(''01'', [(1, VHOST_PORT)])]
     [\<lparr>vl_ID = 1, remote_dpid = 1, local_id = 0, remote_id = 0\<rparr>] s =
   (Inr (sample_tenant\<lparr>nfs_vlinks := [], ports_vlinks := []\<rparr>), s\<lparr>gm_world := 2\<rparr>)"
  by (simp add: fun_cong[OF make_tenant_lsi_def] run_exec run_data run_lsi sample_h sample_sm ex_old_sel sample_ports sample_name Let_def sample_tenant_def
      cong: run_congs del: bindS_simps)

lemma sample_lsi_sel [simp]: "dpid sample_tenant = 2" "dpid sample_lsi0 = 1"
  "physical_ports sample_lsi0 = [(''eth0'', 1), (''eth1'', 2), (''eth2'', 3)]"
  "getNetworkFunctionsPortsNameOnSwitchMap ''01'' sample_tenant = [(1, ''01_1'')]"
  by (simp_all add: sample_tenant_def sample_lsi0_def getNetworkFunctionsPortsNameOnSwitchMap_def)

lemma sample_associated:
  "associate_vlinks \<lparr>vlNFs = [''01_1''], vlPhyPorts = [''eth1''], vlEndPointsGre = [], vlEndPointsInternal = []\<rparr>
     (sample_tenant\<lparr>nfs_vlinks := [], ports_vlinks := []\<rparr>) = Inr sample_tenant"
  by (simp add: run_data run_lsi sample_tenant_def Let_def)

lemmas run_nfs = fun_cong[OF retrieve_all.simps(1)] fun_cong[OF retrieve_all.simps(2)]
  fun_cong[OF start_nfs.simps(1)] fun_cong[OF start_nfs.simps(2)] getNFSelectedImplementation_def
  select_implementations_def getNFType_def setLsiID_def

definition sample_T0 :: LLGraph where
  "sample_T0 = (case lowerGraphToLSI0 ex_old sample_tenant sample_lsi0 [] (\<lambda>_. sample_match) of
     Inl _ \<Rightarrow> [] | Inr T \<Rightarrow> T)"

definition sample_T1 :: LLGraph where
  "sample_T1 = (case lowerGraphToTenantLSI ex_old sample_tenant (\<lambda>_. sample_match) of Inl _ \<Rightarrow> [] | Inr T \<Rightarrow> T)"

lemma sample_lowered:
  "lowerGraphToLSI0 ex_old sample_tenant sample_lsi0 [] (\<lambda>_. sample_match) = Inr sample_T0"
  "lowerGraphToTenantLSI ex_old sample_tenant (\<lambda>_. sample_match) = Inr sample_T1"
proof -
  have "\<not> isl (lowerGraphToLSI0 ex_old sample_tenant sample_lsi0 [] (\<lambda>_. sample_match))"
    "\<not> isl (lowerGraphToTenantLSI ex_old sample_tenant (\<lambda>_. sample_match))"
    by code_simp+
  then show "lowerGraphToLSI0 ex_old sample_tenant sample_lsi0 [] (\<lambda>_. sample_match) = Inr sample_T0"
    "lowerGraphToTenantLSI ex_old sample_tenant (\<lambda>_. sample_match) = Inr sample_T1"
    unfolding sample_T0_def sample_T1_def by (auto split: sum.splits)
qed

definition sample_cc :: ComputeController where
  "sample_cc = \<lparr>cc_nfs = [(''01'', sample_NF True (Some sample_docker) True)], cc_lsiID = 2\<rparr>"

lemma sample_installed: "installNewRules v T \<lparr>ctl_dpt = None, isOpen = False, ctl_graph = g, ctl_port = p, ctl_sent = []\<rparr> =
    Inr (T = [], \<lparr>ctl_dpt = None, isOpen = False, ctl_graph = g @ T, ctl_port = p, ctl_sent = []\<rparr>)"
  by (simp add: installNewRules_def installNewRulesIntoLSI_def fold_addRule)

lemma sample_started:
  "startNF sample_nfm ''01'' names config
     \<lparr>ce_cc = \<lparr>cc_nfs = [(''01'', sample_NF True (Some sample_docker) False)], cc_lsiID = 2\<rparr>, ce_pool = p, ce_world = w\<rparr> =
   Inr (True, \<lparr>ce_cc = sample_cc, ce_pool = p, ce_world = w\<rparr>)"
  by (simp add: startNF_def sample_cc_def sample_nfm_def calculateCoreMask_def getCores_def)

text \<open>The manager after the graph with the firewall was deployed.\<close>

definition sample_running :: "nat GraphManager" where
  "sample_running = sample_start
     \<lparr>graphInfoLSI0 := \<lparr>gi_controller = Obj (sample_controller ''6653'' sample_T0), gi_lsi = Obj sample_lsi0,
        gi_compute = Null, gi_graph = Freed\<rparr>,
      graphLSI0lowLevel := sample_T0,
      tenantLSIs := [(''g'', \<lparr>gi_controller = Obj (sample_controller ''6654'' sample_T1), gi_lsi = Obj sample_tenant,
        gi_compute = Obj sample_cc, gi_graph = Obj ex_old\<rparr>)],
      nextControllerPort := 6655, nextLinkID := 2, gm_world := 2\<rparr>"

lemma sample_deployed: "newGraph sample_host ex_old sample_start = (Inr True, sample_running)"
  by (simp add: run_exec run_data run_nfs sample_h sample_sm sample_start_def sample_controller_def
      dec_ports ex_old_sel sample_links numberOfVLrequired_def sample_retrieve sample_select sample_ports sample_name
      Let_def sample_tenant_made sample_associated sample_lowered VLink_new_def sample_installed
      sample_running_def sample_started fun_cong[OF handleControllerForInternalEndpoint_def] fun_cong[OF handleGraphForInternalEndpoint_def]
      LLGraph_addRules_def fold_addRule put_tenant_def
      cong: run_congs del: bindS_simps retrieve_all.simps start_nfs.simps)

end
