(* ===== verification/Graph_Lifecycle.thy ===== *)
theory Graph_Lifecycle
  imports Sample_Node
begin

text \<open>
  What the operations of the graph manager do to its state: a graph that was deployed has its
  switch, links, rules and controllers; a graph that could not be deployed leaves the others alone;
  an update keeps the links of the rules; the internal switches count their users; and what goes
  wrong when the virtual switch fails in the middle of an operation.
\<close>

section \<open>What an operation leaves alone\<close>

definition moves :: "('s \<Rightarrow> 's \<Rightarrow> bool) \<Rightarrow> ('s, 'a) exec \<Rightarrow> bool" where
  "moves R m = (\<forall>s r t. m s = (r, t) \<longrightarrow> R s t)"

lemma movesD: "moves R m \<Longrightarrow> m s = (r, t) \<Longrightarrow> R s t"
  by (simp add: moves_def)

text \<open>For a reflexive and transitive relation it is enough to look at the steps.\<close>

locale step_order =
  fixes R :: "'s \<Rightarrow> 's \<Rightarrow> bool"
  assumes step_refl: "R s s"
    and step_trans: "R s t \<Longrightarrow> R t u \<Longrightarrow> R s u"
begin

lemma moves_return: "moves R (returnS x)"
  by (simp add: moves_def exec_simps step_refl)

lemma moves_throw: "moves R (throwS e)"
  by (simp add: moves_def exec_simps step_refl)

lemma moves_lift: "moves R (liftS r)"
  by (simp add: moves_def exec_simps step_refl)

lemma moves_gets: "moves R (getsS f)"
  by (simp add: moves_def exec_simps step_refl)

lemma moves_modify: "(\<And>s. R s (f s)) \<Longrightarrow> moves R (modifyS f)"
  by (simp add: moves_def exec_simps)

lemma moves_bind:
  assumes "moves R m" "\<And>x. moves R (f x)"
  shows "moves R (bindS m f)"
  unfolding moves_def
proof (intro allI impI)
  fix s r t
  assume b: "bindS m f s = (r, t)"
  obtain r' u where m: "m s = (r', u)" by fastforce
  have u: "R s u" by (rule movesD[OF assms(1) m])
  show "R s t"
  proof (cases r')
    case (Inl e)
    then show ?thesis using b m u by (simp add: bindS_def)
  next
    case (Inr x)
    then have "f x u = (r, t)" using b m by (simp add: bindS_def)
    then show ?thesis using movesD[OF assms(2)] step_trans[OF u] by blast
  qed
qed

lemma moves_catch:
  assumes "moves R m" "\<And>e. moves R (h e)"
  shows "moves R (catchS m c h)"
  unfolding moves_def
proof (intro allI impI)
  fix s r t
  assume b: "catchS m c h s = (r, t)"
  obtain r' u where m: "m s = (r', u)" by fastforce
  have u: "R s u" by (rule movesD[OF assms(1) m])
  show "R s t"
  proof (cases "\<exists>e. r' = Inl e \<and> thrown e \<and> c e")
    case True
    then obtain e where "h e u = (r, t)" using b m by (auto simp: catchS_def)
    then show ?thesis using movesD[OF assms(2)] step_trans[OF u] by blast
  next
    case False
    then have "t = u" using b m by (auto simp: catchS_def split: sum.splits if_splits)
    then show ?thesis using u by simp
  qed
qed

lemma moves_for: "(\<And>x. moves R (f x)) \<Longrightarrow> moves R (forS f xs)"
  by (induction xs) (auto intro: moves_return moves_bind)

lemma moves_if: "(b \<Longrightarrow> moves R m) \<Longrightarrow> (\<not> b \<Longrightarrow> moves R n) \<Longrightarrow> moves R (if b then m else n)"
  by simp

lemma moves_prod: "(\<And>a b. moves R (f a b)) \<Longrightarrow> moves R (case x of (a, b) \<Rightarrow> f a b)"
  by (cases x) simp

lemma moves_option: "moves R m \<Longrightarrow> (\<And>x. moves R (f x)) \<Longrightarrow> moves R (case v of None \<Rightarrow> m | Some x \<Rightarrow> f x)"
  by (cases v) simp_all

lemmas moves_rules = moves_return moves_throw moves_lift moves_gets moves_modify moves_bind moves_catch moves_for
  moves_if moves_prod moves_option

end

text \<open>The graphs, and what the manager keeps of the LSI-0.\<close>

definition graphs_kept :: "'w GraphManager \<Rightarrow> 'w GraphManager \<Rightarrow> bool" where
  "graphs_kept s t =
     (tenantLSIs t = tenantLSIs s \<and> graphInfoLSI0 t = graphInfoLSI0 s \<and>
      graphLSI0lowLevel t = graphLSI0lowLevel s \<and> dpid0 t = dpid0 s)"

interpretation kept: step_order graphs_kept
  by unfold_locales (simp_all add: graphs_kept_def)

lemma kept_switch: "moves graphs_kept (switchS m)"
  by (auto simp: moves_def switchS_def graphs_kept_def split: prod.splits)

lemma kept_compute: "moves graphs_kept (computeS cc f)"
  by (auto simp: moves_def computeS_def graphs_kept_def split: sum.splits prod.splits)

lemma kept_the_lsi0: "moves graphs_kept the_lsi0"
  unfolding the_lsi0_def by (intro kept.moves_rules)

lemma kept_new_controller: "moves graphs_kept new_controller"
  by (auto simp: moves_def new_controller_def graphs_kept_def)

lemma kept_new_vlinks: "moves graphs_kept (new_vlinks n)"
  by (auto simp: moves_def new_vlinks_def graphs_kept_def Let_def split: prod.splits)

lemma kept_internal_created: "moves graphs_kept (internal_created grp)"
  by (auto simp: moves_def internal_created_def graphs_kept_def Let_def)

lemma kept_internal_info: "moves graphs_kept (internal_info grp)"
  by (auto simp: moves_def internal_info_def graphs_kept_def Let_def)

lemma kept_put_internal: "graphs_kept s (put_internal grp gi s)"
  "graphs_kept s (connect_internal grp i p s)" "graphs_kept s (set_times_used grp n s)"
  by (simp_all add: graphs_kept_def put_internal_def connect_internal_def set_times_used_def)

lemmas kept_basic = kept_switch kept_compute kept_the_lsi0 kept_new_controller kept_new_vlinks
  kept_internal_created kept_internal_info

lemma kept_retrieve_all: "moves graphs_kept (retrieve_all h nfs cc)"
proof (induction h nfs cc rule: retrieve_all.induct)
  case (1 h cc)
  then show ?case unfolding retrieve_all.simps by (rule kept.moves_return)
next
  case (2 h nf nfs cc)
  then show ?case unfolding retrieve_all.simps by (intro kept.moves_rules) auto
qed

lemma kept_checkGraphValidity: "moves graphs_kept (checkGraphValidity h g ccp)"
  unfolding checkGraphValidity_def
  by (intro kept.moves_rules kept_basic kept_retrieve_all)

lemma kept_create_lsi: "moves graphs_kept (create_lsi h cli l)"
  unfolding create_lsi_def by (intro kept.moves_rules kept_basic)

lemma kept_make_tenant_lsi: "moves graphs_kept (make_tenant_lsi h g p nt pt vls)"
  unfolding make_tenant_lsi_def Let_def by (intro kept.moves_rules kept_basic kept_create_lsi)

lemma kept_start_nfs: "moves graphs_kept (start_nfs h l nfs cc)"
  by (induction nfs arbitrary: cc) (auto intro!: kept.moves_rules kept_basic)

lemma kept_stop_nfs: "moves graphs_kept (stop_nfs h nfs cc)"
  by (induction nfs arbitrary: cc) (auto intro!: kept.moves_rules kept_basic)

lemma kept_undo: "moves graphs_kept (undo_new_graph h g l cc)"
  unfolding undo_new_graph_def by (intro kept.moves_rules kept_basic kept_stop_nfs)

lemma kept_controllers: "moves graphs_kept (handleControllerForInternalEndpoint g)"
  unfolding handleControllerForInternalEndpoint_def
  by (intro kept.moves_rules kept_basic) (simp add: graphs_kept_def)

lemma kept_controller_on:
  "(\<And>c s. graphs_kept s (put c s)) \<Longrightarrow> moves graphs_kept (controller_onS p f put)"
  unfolding controller_onS_def by (intro kept.moves_rules)

lemma kept_install_internal: "moves graphs_kept (install_internal_rule h grp i p gi)"
  unfolding install_internal_rule_def by (intro kept.moves_rules kept_controller_on kept_put_internal)

lemma kept_drop_internal: "moves graphs_kept (drop_internal_controller grp gi)"
  unfolding drop_internal_controller_def by (intro kept.moves_rules kept_put_internal)

lemma kept_lsi_on: "lsi_onS l m s = (r, l', t) \<Longrightarrow> graphs_kept s t"
  by (auto simp: lsi_onS_def graphs_kept_def split: prod.splits)

lemma kept_create_internal: "moves graphs_kept (create_internal_lsi h grp i gi)"
  unfolding create_internal_lsi_def Let_def
  by (intro kept.moves_rules kept_basic kept_drop_internal kept_install_internal kept_put_internal)
    (simp add: graphs_kept_def set_times_used_def)

lemma kept_extend_internal: "moves graphs_kept (extend_internal_lsi h grp i gi)"
proof -
  have "moves graphs_kept (\<lambda>s. case lsi_onS l m s of (r, l, s) \<Rightarrow> (r, put_internal grp (gi\<lparr>gi_lsi := Obj l\<rparr>) s))"
    for l and m :: "('w lsi_env, 'x) exec"
    unfolding moves_def
    by (auto split: prod.splits dest!: kept_lsi_on) (auto simp: graphs_kept_def put_internal_def)
  then show ?thesis unfolding extend_internal_lsi_def
    by (intro kept.moves_rules kept_basic kept_install_internal kept_put_internal)
qed

lemma kept_internal: "moves graphs_kept (handleGraphForInternalEndpoint h g)"
  unfolding handleGraphForInternalEndpoint_def
  by (intro kept.moves_rules kept_basic kept_create_internal kept_extend_internal)

section \<open>Which faults a computation has\<close>

definition faults_in :: "fault set \<Rightarrow> 'a result \<Rightarrow> bool" where
  "faults_in E r = (\<forall>e. r = Inl e \<longrightarrow> e \<in> E)"

lemma faults_in_basic:
  "faults_in E (Inr x)" "faults_in E (Inl e) \<longleftrightarrow> e \<in> E"
  "AssertFailure \<in> E \<Longrightarrow> faults_in E (assertR b)" "e \<in> E \<Longrightarrow> faults_in E (optionR e v)"
  by (auto simp: faults_in_def assertR_def optionR_def split: option.splits if_splits)

lemma faults_in_bind: "faults_in E m \<Longrightarrow> (\<And>x. faults_in E (f x)) \<Longrightarrow> faults_in E (bindR m f)"
  by (cases m) (simp_all add: faults_in_def)

lemma faults_in_fold: "(\<And>x s. faults_in E (f x s)) \<Longrightarrow> faults_in E (foldR f xs s)"
  by (induction xs arbitrary: s) (simp_all add: faults_in_basic faults_in_bind)

definition wire_faults :: "fault set" where
  "wire_faults = {AssertFailure, NullPointer, BadVersion}"

lemma faults_VlanAction_fill: "faults_in wire_faults (VlanAction_fill v ga s)"
  by (cases v) (simp_all add: VlanAction_fill_def faults_in_basic wire_faults_def Let_def case_prod_beta)

lemma faults_fill: "faults_in wire_faults (LLRule_fillFlowmodMessage v r wire command)"
  unfolding LLRule_fillFlowmodMessage_def LLAction_fillFlowmodMessage_def
  by (auto intro!: faults_in_bind faults_in_fold faults_VlanAction_fill simp: faults_in_basic case_prod_beta)
    (simp_all add: wire_faults_def)

lemma faults_send_rule: "faults_in wire_faults (send_rule v command r c)"
  unfolding send_rule_def
  by (intro faults_in_bind faults_fill faults_in_basic) (simp add: wire_faults_def)

lemma faults_installNewRules: "faults_in wire_faults (installNewRules v rs c)"
  unfolding installNewRules_def installNewRulesIntoLSI_def
  by (auto intro!: faults_in_bind faults_in_fold faults_send_rule simp: faults_in_basic)

text \<open>The lowerings throw \<open>GraphManagerException\<close> for a port or a function that is not there.\<close>

definition lower_faults :: "fault set" where
  "lower_faults = {AssertFailure, NullPointer, EndIterator, OutOfBounds, GraphManagerException}"

lemma faults_match:
  "faults_in lower_faults (getPhysicalPort m)" "faults_in lower_faults (getNF m)"
  "faults_in lower_faults (getPortOfNF m)" "faults_in lower_faults (getEndPointInternal m)"
  "faults_in lower_faults (getInputEndpoint m)" "faults_in lower_faults (setAllCommonFields m n)"
  "faults_in lower_faults (getVirtualLink i l)" "faults_in lower_faults (copy_64 e)"
  unfolding getPhysicalPort_def getNF_def getPortOfNF_def getEndPointInternal_def getInputEndpoint_def
    setAllCommonFields_def setAllCommonFields_gre_def setGreKey_def getVirtualLink_def copy_64_def Let_def
  by (auto intro!: faults_in_bind simp: faults_in_basic lower_faults_def split: option.split)

lemma faults_vlink: "e \<in> lower_faults \<Longrightarrow> faults_in lower_faults (vlink_by_name e m k l)"
  unfolding vlink_by_name_def by (intro faults_in_bind faults_in_basic faults_match)

lemma lower_faults_members [simp]:
  "AssertFailure \<in> lower_faults" "EndIterator \<in> lower_faults" "GraphManagerException \<in> lower_faults"
  by (simp_all add: lower_faults_def)

lemma faults_lsi0:
  "faults_in lower_faults (lsi0_to_internal g l conns mem r)" "faults_in lower_faults (lsi0_port_to_port g l0 m r)"
  "faults_in lower_faults (lsi0_to_gre g l m r)" "faults_in lower_faults (lsi0_to_nf g l m r)"
  unfolding lsi0_to_internal_def lsi0_port_to_port_def lsi0_to_gre_def lsi0_to_nf_def Let_def
  by (intro faults_in_bind faults_vlink faults_in_basic; simp add: faults_in_basic)+

lemma faults_lsi0_rule: "faults_in lower_faults (lower_rule_lsi0 g l l0 conns mem r)"
  unfolding lower_rule_lsi0_def lsi0_from_port_def lsi0_from_gre_def lsi0_from_internal_def lsi0_from_nf_def Let_def
  by (auto intro!: faults_in_bind faults_lsi0 faults_vlink faults_match simp: faults_in_basic split: action_t.split)

lemma faults_tenant_rule: "faults_in lower_faults (lower_rule_tenant l mem r)"
  unfolding lower_rule_tenant_def tenant_from_link_def tenant_from_gre_def tenant_from_nf_def
    tenant_link_to_gre_def tenant_link_to_nf_def tenant_nf_out_def tenant_nf_to_nf_def tenant_gre_to_nf_def Let_def
  by (auto intro!: faults_in_bind faults_vlink faults_match simp: faults_in_basic split: action_t.split)

lemma faults_lower:
  "faults_in lower_faults (lowerGraphToLSI0 g l l0 conns mem)" "faults_in lower_faults (lowerGraphToTenantLSI g l mem)"
  unfolding lowerGraphToLSI0_def lowerGraphToTenantLSI_def
  by (intro faults_in_fold faults_in_bind faults_lsi0_rule faults_tenant_rule faults_in_basic)+

section \<open>A graph that could not be deployed\<close>

text \<open>
  Step 7 records the graph only when the rules of both switches could be made; after that only the
  messages to the LSI-0 can fail, and not with an exception that is caught.
\<close>

lemma controller_onS_run:
  "controller_onS p f put s =
     (case derefR p of Inl e \<Rightarrow> (Inl e, s)
      | Inr c \<Rightarrow> (case f c of Inl e \<Rightarrow> (Inl e, s) | Inr (b, c') \<Rightarrow> (Inr b, put c' s)))"
  by (simp add: controller_onS_def bindS_def exec_simps split: sum.split prod.split)

lemma lsi0_controllerS_run:
  "lsi0_controllerS f s =
     (case derefR (gi_controller (graphInfoLSI0 s)) of Inl e \<Rightarrow> (Inl e, s)
      | Inr c \<Rightarrow> (case f c of Inl e \<Rightarrow> (Inl e, s)
          | Inr (b, c') \<Rightarrow> (Inr b, s\<lparr>graphInfoLSI0 := (graphInfoLSI0 s)\<lparr>gi_controller := Obj c'\<rparr>\<rparr>)))"
  by (simp add: lsi0_controllerS_def controller_onS_run)

lemma the_lsi0_run: "the_lsi0 s = (derefR (gi_lsi (graphInfoLSI0 s)), s)"
  by (simp add: the_lsi0_def exec_simps)

lemma derefR_faults: "derefR p = Inl e \<Longrightarrow> e = NullPointer \<or> e = Dangling"
  by (cases p) (simp_all add: derefR_def)

lemma derefR_Inr [simp]: "derefR p = Inr x \<longleftrightarrow> p = Obj x" "derefR (Obj x) = Inr x"
  by (cases p) (simp_all add: derefR_def)

definition low_added :: "LLGraph \<Rightarrow> 'w GraphManager \<Rightarrow> 'w GraphManager" where
  "low_added rs s = s\<lparr>graphLSI0lowLevel := graphLSI0lowLevel s @ rs\<rparr>"

text \<open>The points at which step 7 can end.\<close>

lemma install_new_graph_eq:
  "install_new_graph h g l cc c s =
     (case derefR (gi_lsi (graphInfoLSI0 s)) of Inl e \<Rightarrow> (Inl e, s) | Inr l0 \<Rightarrow>
      case lowerGraphToLSI0 g l l0 (internalLSIsConnections s) (mem_match h) of Inl e \<Rightarrow> (Inl e, s) | Inr T0 \<Rightarrow>
      case lowerGraphToTenantLSI g l (mem_match h) of Inl e \<Rightarrow> (Inl e, low_added T0 s) | Inr T1 \<Rightarrow>
      case installNewRules (h_version h) T1 c of Inl e \<Rightarrow> (Inl e, low_added T0 s) | Inr bc \<Rightarrow>
      (case lsi0_controllerS (installNewRules (h_version h) T0) (put_tenant (graph_ID g)
         \<lparr>gi_controller = Obj (snd bc), gi_lsi = Obj l, gi_compute = Obj cc, gi_graph = Obj g\<rparr> (low_added T0 s)) of
         (Inl e, t) \<Rightarrow> (Inl e, t) | (Inr _, t) \<Rightarrow> (Inr (), t)))"
  by (simp add: install_new_graph_def bindS_def the_lsi0_run exec_simps low_added_def LLGraph_addRules_def
      fold_addRule case_prod_beta split: sum.split prod.split)

lemma lsi0_install_faults:
  assumes "lsi0_controllerS (installNewRules v T0) s = (Inl e, t)"
  shows "e \<in> wire_faults \<union> {NullPointer, Dangling}"
  using assms derefR_faults[of "gi_controller (graphInfoLSI0 s)"] faults_installNewRules[of v T0]
  by (auto simp: lsi0_controllerS_run faults_in_def split: sum.splits prod.splits)

lemma install_new_graph_fault:
  assumes "install_new_graph h g l cc c s = (Inl e, t)" "e \<notin> wire_faults \<union> {NullPointer, Dangling}"
  shows "t = s \<or> (\<exists>T0. t = low_added T0 s)"
  using assms by (auto simp: install_new_graph_eq split: sum.splits prod.splits dest!: lsi0_install_faults)

lemma install_new_graph_no_switch:
  assumes "install_new_graph h g l cc c s = (Inl e, t)"
  shows "e \<noteq> SwitchManagerException"
proof -
  have "e \<in> wire_faults \<union> {NullPointer, Dangling} \<union> lower_faults"
    using assms derefR_faults[of "gi_lsi (graphInfoLSI0 s)"] faults_lower faults_installNewRules
    by (fastforce simp: install_new_graph_eq faults_in_def split: sum.splits prod.splits dest!: lsi0_install_faults)
  then show ?thesis by (auto simp: wire_faults_def lower_faults_def)
qed

lemma install_new_graph_done:
  assumes "install_new_graph h g l cc c s = (Inr u, t)"
  obtains l0 T0 T1 b c' c0 b0 c0' where "gi_lsi (graphInfoLSI0 s) = Obj l0"
    "lowerGraphToLSI0 g l l0 (internalLSIsConnections s) (mem_match h) = Inr T0"
    "lowerGraphToTenantLSI g l (mem_match h) = Inr T1" "installNewRules (h_version h) T1 c = Inr (b, c')"
    "gi_controller (graphInfoLSI0 s) = Obj c0" "installNewRules (h_version h) T0 c0 = Inr (b0, c0')"
    "t = (put_tenant (graph_ID g) \<lparr>gi_controller = Obj c', gi_lsi = Obj l, gi_compute = Obj cc, gi_graph = Obj g\<rparr>
       (low_added T0 s))\<lparr>graphInfoLSI0 := (graphInfoLSI0 s)\<lparr>gi_controller := Obj c0'\<rparr>\<rparr>"
  using assms
  by (auto simp: install_new_graph_eq lsi0_controllerS_run put_tenant_def low_added_def
      split: sum.splits prod.splits)

definition tenants_kept :: "'w GraphManager \<Rightarrow> 'w GraphManager \<Rightarrow> bool" where
  "tenants_kept s t =
     (tenantLSIs t = tenantLSIs s \<and> graphInfoLSI0 t = graphInfoLSI0 s \<and>
      (\<exists>rs. graphLSI0lowLevel t = graphLSI0lowLevel s @ rs))"

lemma tenants_kept_after: "graphs_kept s t \<Longrightarrow> tenants_kept t u \<Longrightarrow> tenants_kept s u"
  by (auto simp: graphs_kept_def tenants_kept_def)

lemma graphs_kept_tenants: "graphs_kept s t \<Longrightarrow> tenants_kept s t"
  by (auto simp: graphs_kept_def tenants_kept_def)

lemma low_added_kept: "tenants_kept s (low_added T0 s)"
  by (simp add: tenants_kept_def low_added_def)

text \<open>The exceptions that leave \<open>newGraph\<close> and after which the orchestrator goes on.\<close>

definition manager_exception :: "fault \<Rightarrow> bool" where
  "manager_exception e = (e = GraphManagerException \<or> e = SwitchManagerException)"

definition gave_up :: "bool result \<Rightarrow> bool" where
  "gave_up r = (case r of Inl e \<Rightarrow> manager_exception e | Inr b \<Rightarrow> \<not> b)"

lemma manager_not_wire: "manager_exception e \<Longrightarrow> e \<notin> wire_faults \<union> {NullPointer, Dangling}"
  by (auto simp: manager_exception_def wire_faults_def)

definition gives_up_clean :: "('w GraphManager, bool) exec \<Rightarrow> bool" where
  "gives_up_clean m = (\<forall>s r t. m s = (r, t) \<longrightarrow> gave_up r \<longrightarrow> tenants_kept s t)"

lemma clean_kept: "moves graphs_kept m \<Longrightarrow> gives_up_clean m"
  unfolding gives_up_clean_def by (blast intro: graphs_kept_tenants dest: movesD)

lemma clean_bind:
  assumes "moves graphs_kept m" "\<And>x. gives_up_clean (f x)"
  shows "gives_up_clean (bindS m f)"
  unfolding gives_up_clean_def
proof (intro allI impI)
  fix s r t
  assume b: "bindS m f s = (r, t)" and r: "gave_up r"
  obtain r' u where m: "m s = (r', u)" by fastforce
  have u: "graphs_kept s u" by (rule movesD[OF assms(1) m])
  show "tenants_kept s t"
  proof (cases r')
    case (Inl e)
    then show ?thesis using b m graphs_kept_tenants[OF u] by (simp add: bindS_def)
  next
    case (Inr x)
    then have "f x u = (r, t)" using b m by (simp add: bindS_def)
    then show ?thesis using assms(2)[of x] r tenants_kept_after[OF u] unfolding gives_up_clean_def by blast
  qed
qed

lemma clean_if: "(b \<Longrightarrow> gives_up_clean m) \<Longrightarrow> (\<not> b \<Longrightarrow> gives_up_clean n) \<Longrightarrow> gives_up_clean (if b then m else n)"
  by simp

lemma clean_prod: "(\<And>a b. gives_up_clean (f a b)) \<Longrightarrow> gives_up_clean (case x of (a, b) \<Rightarrow> f a b)"
  by (cases x) simp

lemma clean_option: "gives_up_clean m \<Longrightarrow> (\<And>x. gives_up_clean (f x)) \<Longrightarrow> gives_up_clean (case v of None \<Rightarrow> m | Some x \<Rightarrow> f x)"
  by (cases v) simp_all

lemma install_clean:
  "gives_up_clean (bindS (catchS (install_new_graph h g l cc c) (\<lambda>e. e = SwitchManagerException)
     (\<lambda>_. bindS (stop_nfs h (vnfs g) cc) (\<lambda>_. bindS (switchS m) (\<lambda>_.
            bindS (modifyS (forget_tenant (graph_ID g))) (\<lambda>_. throwS GraphManagerException))))) (\<lambda>_. returnS True))"
  (is "gives_up_clean (bindS (catchS ?m ?c ?h) _)")
  unfolding gives_up_clean_def
proof (intro allI impI)
  fix s r t
  assume b: "bindS (catchS ?m ?c ?h) (\<lambda>_. returnS True) s = (r, t)" and r: "gave_up r"
  obtain q u where m: "?m s = (q, u)" by fastforce
  show "tenants_kept s t"
  proof (cases q)
    case (Inl e)
    with b m install_new_graph_no_switch[of h g l cc c s e u] have "r = Inl e" "t = u"
      by (auto simp: bindS_def catchS_def)
    with r have "manager_exception e" by (simp add: gave_up_def)
    then show ?thesis
      using install_new_graph_fault[of h g l cc c s e u] m Inl \<open>t = u\<close> manager_not_wire[of e] low_added_kept
        graphs_kept_tenants[OF kept.step_refl] by auto
  next
    case (Inr x)
    with b m have "r = Inr True" by (simp add: bindS_def catchS_def exec_simps)
    with r show ?thesis by (simp add: gave_up_def)
  qed
qed

lemma clean_deploy: "gives_up_clean (deploy_graph h g l cc c)"
  unfolding deploy_graph_def
  by (intro clean_bind clean_if clean_prod install_clean clean_kept kept_undo kept_start_nfs kept_controllers
      kept.moves_catch kept_internal)

lemma clean_newGraph: "gives_up_clean (newGraph h g)"
  unfolding newGraph_def Let_def
  by (intro clean_bind clean_if clean_prod clean_option clean_deploy kept.moves_gets kept.moves_lift
      kept_checkGraphValidity kept_basic kept_make_tenant_lsi clean_kept kept.moves_return kept.moves_throw)

text \<open>
  A graph that could not be deployed (C3). When \<open>newGraph\<close> returns false or throws one of the exceptions
  after which the orchestrator goes on, whatever the virtual switch, the execution environments and the
  name resolver did, the graphs of the manager and its LSI-0 with its controller are as before; the list of
  the rules of the LSI-0 can only have become longer.
\<close>

theorem failed_graph_keeps_others:
  assumes "newGraph h g s = (r, t)" "gave_up r"
  shows "tenantLSIs t = tenantLSIs s \<and> graphInfoLSI0 t = graphInfoLSI0 s \<and>
    (\<exists>rs. graphLSI0lowLevel t = graphLSI0lowLevel s @ rs)"
  using clean_newGraph[of h g] assms unfolding gives_up_clean_def tenants_kept_def by blast

definition broken_host :: "nat host" where
  "broken_host = sample_host\<lparr>h_sm := sample_switch\<lparr>createLsi := (\<lambda>_ w. (Inl SwitchManagerException, w))\<rparr>\<rparr>"

theorem failed_graph_keeps_others_witness:
  "fst (newGraph broken_host ex_old sample_start) = Inl GraphManagerException \<and> gave_up (Inl GraphManagerException) \<and>
   tenantLSIs (snd (newGraph broken_host ex_old sample_start)) = tenantLSIs sample_start"
proof -
  have b: "h_env broken_host = h_env sample_host" "h_nfm broken_host = h_nfm sample_host"
    "h_recv broken_host = h_recv sample_host" "h_read_json broken_host = h_read_json sample_host"
    "mem_buffer broken_host = mem_buffer sample_host" "mem_lsiID broken_host = mem_lsiID sample_host"
    "mem_dpid broken_host = mem_dpid sample_host" "createLsi (h_sm broken_host) cli w = (Inl SwitchManagerException, w)"
    "destroyLsi (h_sm broken_host) d w = (Inr (), w)" for cli w d
    by (simp_all add: broken_host_def sample_sm)
  have r: "fst (newGraph broken_host ex_old sample_start) = Inl GraphManagerException"
    by (simp add: run_exec run_data run_nfs sample_h sample_start_def b
      dec_ports ex_old_sel sample_links numberOfVLrequired_def sample_retrieve sample_select sample_ports sample_name
      Let_def VLink_new_def fun_cong[OF make_tenant_lsi_def] run_lsi thrown_def
      cong: run_congs del: bindS_simps retrieve_all.simps start_nfs.simps)
  have g: "gave_up (Inl GraphManagerException)" by (simp add: gave_up_def manager_exception_def)
  show ?thesis
    using r g failed_graph_keeps_others[of broken_host ex_old sample_start, OF surjective_pairing] by metis
qed

section \<open>A graph that was deployed\<close>

text \<open>The links of a switch, up to the port numbers of their ends.\<close>

definition links_of :: "LSI \<Rightarrow> 64 word list \<times> (string, 64 word) omap list" where
  "links_of l = (map vl_ID (virtual_links l), [nfs_vlinks l, ports_vlinks l, endpoints_vlinks l, endpoints_gre_vlinks l])"

lemma links_of_kind_map: "links_of l' = links_of l \<Longrightarrow> kind_map k l' = kind_map k l"
  by (cases k) (simp_all add: links_of_def)

lemma foldR_inv:
  assumes "\<And>x s s'. f x s = Inr s' \<Longrightarrow> I s' = I s" "foldR f xs s = Inr s'"
  shows "I s' = I s"
  using assms(2) by (induction xs arbitrary: s) (auto simp: bindR_Inr_iff dest: assms(1))

lemma fold_inv: "(\<And>x s. I (f x s) = I s) \<Longrightarrow> I (fold f xs s) = I s"
  by (induction xs arbitrary: s) simp_all

lemma addNF_keeps:
  "virtual_links (snd (addNF nf ports types l)) = virtual_links l" "links_of (snd (addNF nf ports types l)) = links_of l"
  by (simp_all add: addNF_def Let_def links_of_def split: option.split)

lemma LSI_new_links:
  assumes "LSI_new mem addr port phys nfs gres vls types = Inr l"
  shows "virtual_links l = vls" "kind_map k l = []" "gre_endpoints_ports l = gres"
proof -
  let ?l0 = "\<lparr>controllerAddress = addr, controllerPort = port, dpid = mem,
        physical_ports = fold (\<lambda>p. om_put p 0) phys [],
        gre_endpoints_ports = [], endpoints_ports_id = [], network_functions = [],
        virtual_links = vls, nfs_vlinks = [], ports_vlinks = [], endpoints_vlinks = [],
        endpoints_gre_vlinks = []\<rparr>"
  obtain l1 where l1: "foldR (add_vnf_to_lsi types) nfs ?l0 = Inr l1" "l = l1\<lparr>gre_endpoints_ports := gres\<rparr>"
    using assms by (auto simp: LSI_new_def bindR_Inr_iff)
  have "(virtual_links l1, links_of l1) = (virtual_links ?l0, links_of ?l0)"
    by (rule foldR_inv[OF _ l1(1)]) (auto simp: add_vnf_to_lsi_def bindR_Inr_iff addNF_keeps)
  then have "virtual_links l1 = vls" "links_of l = links_of ?l0"
    unfolding l1(2) by (simp_all add: links_of_def)
  then show "virtual_links l = vls" "kind_map k l = []" "gre_endpoints_ports l = gres"
    using links_of_kind_map[of l ?l0 k] unfolding l1(2) by (simp_all, cases k) simp_all
qed

lemma record_tenant_lsi_links:
  assumes "record_tenant_lsi clo l = Inr l'"
  shows "links_of l' = links_of l"
proof -
  have set_ids: "set_vlink_ids vl pos a = Inr b \<Longrightarrow> links_of b = links_of a" for vl pos a b
  proof (induction vl pos a rule: set_vlink_ids.induct)
    case (2 lid rid vl pos a)
    then obtain a' where a': "setVLinkIDs pos lid rid a = Inr a'" "set_vlink_ids vl (pos + 1) a' = Inr b"
      by (auto simp: bindR_Inr_iff)
    then have "links_of a' = links_of a"
      by (auto simp: setVLinkIDs_def links_of_def map_update list_update_id split: if_splits)
        (metis list_update_id map_update nth_map)
    with 2(1)[OF a'(2)] show ?case by simp
  qed simp
  obtain l1 l2 where s: "foldR (\<lambda>(nf, ports). setNfSwitchPortsID nf ports) (clo_network_functions_ports clo) (setDpid (clo_dpid clo) l) = Inr l1"
    "foldR (\<lambda>(ep, i). setEndpointPortID ep (ucast i)) (clo_endpoints_ports clo) l1 = Inr l2"
    "set_vlink_ids (clo_virtual_links clo) 0 (fold (\<lambda>(nf, names). setNetworkFunctionsPortsNameOnSwitch nf names) (clo_nf_ports_name_and_id clo) l2) = Inr l'"
    using assms by (auto simp: record_tenant_lsi_def Let_def bindR_Inr_iff split: if_splits)
  have "links_of l1 = links_of (setDpid (clo_dpid clo) l)"
    by (rule foldR_inv[OF _ s(1)]) (auto simp: setNfSwitchPortsID_def bindR_Inr_iff links_of_def)
  moreover have "links_of l2 = links_of l1"
    by (rule foldR_inv[OF _ s(2)]) (auto simp: setEndpointPortID_def bindR_Inr_iff links_of_def)
  moreover have "links_of (fold (\<lambda>(nf, names). setNetworkFunctionsPortsNameOnSwitch nf names) (clo_nf_ports_name_and_id clo) l2) = links_of l2"
    by (rule fold_inv) (auto simp: setNetworkFunctionsPortsNameOnSwitch_def links_of_def split: option.split)
  ultimately show ?thesis using set_ids[OF s(3)] by (simp add: setDpid_def links_of_def)
qed

lemma bindS_run:
  "bindS m f s = (r, t) \<Longrightarrow>
     (\<exists>e. m s = (Inl e, t) \<and> r = Inl e) \<or> (\<exists>x u. m s = (Inr x, u) \<and> f x u = (r, t))"
  by (auto simp: bindS_def split: prod.splits sum.splits)

lemma bindS_done:
  assumes "bindS m f s = (Inr y, t)"
  obtains x u where "m s = (Inr x, u)" "f x u = (Inr y, t)"
  using assms by (auto simp: bindS_Inr_iff)

lemma create_lsi_done: "create_lsi h cli l s = (Inr clo, t) \<Longrightarrow> switchS (createLsi (h_sm h) cli) s = (Inr clo, t)"
  by (auto simp: create_lsi_def catchS_def bindS_def exec_simps split: prod.splits sum.splits if_splits)

lemma make_tenant_lsi_links:
  assumes "make_tenant_lsi h g p nt pt vls s = (Inr l, t)"
  shows "map vl_ID (virtual_links l) = map vl_ID vls" "kind_map k l = []"
proof -
  obtain l0 clo where l0: "LSI_new (mem_dpid h) OF_CONTROLLER_ADDRESS p [] (vnfs g) (endPointsGre g) vls pt = Inr l0"
    "record_tenant_lsi clo l0 = Inr l"
    using assms by (auto simp: make_tenant_lsi_def bindS_Inr_iff exec_simps Let_def)
  note n = LSI_new_links[OF l0(1)] and r = record_tenant_lsi_links[OF l0(2)]
  show "map vl_ID (virtual_links l) = map vl_ID vls" using n(1) r by (simp add: links_of_def)
  show "kind_map k l = []" using n(2)[of k] links_of_kind_map[OF r, of k] by simp
qed

text \<open>Checking a graph does not change the manager.\<close>

interpretation same: step_order "(=)"
  by unfold_locales simp_all

lemma same_retrieve_all: "moves (=) (retrieve_all h nfs cc)"
proof (induction h nfs cc rule: retrieve_all.induct)
  case (1 h cc)
  then show ?case unfolding retrieve_all.simps by (rule same.moves_return)
next
  case (2 h nf nfs cc)
  then show ?case unfolding retrieve_all.simps by (intro same.moves_rules) auto
qed

lemma same_checkGraphValidity: "checkGraphValidity h g ccp s = (r, t) \<Longrightarrow> t = s"
proof -
  have "moves (=) (checkGraphValidity h g ccp)"
    unfolding checkGraphValidity_def the_lsi0_def by (intro same.moves_rules same_retrieve_all)
  then show "checkGraphValidity h g ccp s = (r, t) \<Longrightarrow> t = s" using movesD by metis
qed

text \<open>What \<open>newGraph\<close> went through when it returns true.\<close>

lemma newGraph_done:
  assumes "newGraph h g s = (Inr True, t)"
  obtains ccp cc c s2 s3 l l' nt pt where "map_of (tenantLSIs s) (graph_ID g) = None"
    "checkGraphValidity h g (Obj (ComputeController_new (mem_lsiID h))) s = (Inr (Inr True, Obj ccp), s)"
    "selectImplementation (h_env h) (h_nfm h) ccp (gm_world s) = Inr (True, cc, gm_world s2)"
    "nf_port_types cc (vnfs g) [] [] = Inr (Some (nt, pt))" "ctl_graph c = []" "isOpen c = False"
    "make_tenant_lsi h g (ctl_port c) nt pt
       (fst (VLinks_new (numberOfVLrequired (identifyVirtualLinksRequired g)) (dpid0 s) (nextLinkID s))) s2 = (Inr l, s3)"
    "graphs_kept s s3"
    "associate_vlinks (identifyVirtualLinksRequired g) l = Inr l'"
    "deploy_graph h g l' cc c s3 = (Inr True, t)"
proof -
  obtain ccp cc c s1 sa sb sc sd vls l l' nt pt where
    new: "\<not> om_count (tenantLSIs s) (graph_ID g)"
    and v: "checkGraphValidity h g (Obj (ComputeController_new (mem_lsiID h))) s = (Inr (Inr True, Obj ccp), s1)"
    and c: "new_controller s1 = (Inr c, sa)"
    and sel: "computeS ccp (select_implementations h) sa = (Inr (True, cc), sb)"
    and vls: "new_vlinks (numberOfVLrequired (identifyVirtualLinksRequired g)) sb = (Inr vls, sc)"
    and types: "nf_port_types cc (vnfs g) [] [] = Inr (Some (nt, pt))"
    and l: "make_tenant_lsi h g (ctl_port c) nt pt vls sc = (Inr l, sd)"
    and l': "associate_vlinks (identifyVirtualLinksRequired g) l = Inr l'"
    and dep: "deploy_graph h g l' cc c sd = (Inr True, t)"
    using assms unfolding newGraph_def
    by (auto simp: bindS_Inr_iff exec_simps Let_def case_prod_beta split: if_splits option.splits)
  have s1: "s1 = s" by (rule same_checkGraphValidity[OF v])
  have sa: "sa = s\<lparr>nextControllerPort := nextControllerPort s + 1\<rparr>" "ctl_graph c = []" "isOpen c = False"
    using c s1 by (auto simp: new_controller_def Controller_new_def)
  have sb: "selectImplementation (h_env h) (h_nfm h) ccp (gm_world s) = Inr (True, cc, gm_world sb)"
    "nextLinkID sb = nextLinkID s" "dpid0 sb = dpid0 s"
    using sel sa(1) by (auto simp: computeS_def select_implementations_def bindR_Inr_iff split: sum.splits prod.splits)
  have sc: "vls = fst (VLinks_new (numberOfVLrequired (identifyVirtualLinksRequired g)) (dpid0 s) (nextLinkID s))"
    "gm_world sc = gm_world sb"
    using vls sb(2,3) by (auto simp: new_vlinks_def Let_def split: prod.splits)
  have kept: "graphs_kept s sd"
    using sa(1) movesD[OF kept_compute sel] movesD[OF kept_new_vlinks vls] movesD[OF kept_make_tenant_lsi l]
    by (simp add: graphs_kept_def)
  show ?thesis
    by (rule that[OF _ _ _ types sa(2,3) _ kept l' dep]) (use new v s1 sb(1) sc l in \<open>simp_all add: om_count_def\<close>)
qed

lemma catchS_Inr_iff:
  "catchS m c h s = (Inr x, t) \<longleftrightarrow>
     m s = (Inr x, t) \<or> (\<exists>e u. m s = (Inl e, u) \<and> thrown e \<and> c e \<and> h e u = (Inr x, t))"
  by (auto simp: catchS_def split: prod.split sum.split)

lemma undo_not_done: "undo_new_graph h g l cc s \<noteq> (Inr x, t)"
  by (auto simp: undo_new_graph_def bindS_Inr_iff exec_simps)

lemma deploy_graph_done:
  assumes "deploy_graph h g l cc c s = (Inr True, t)"
  obtains cc' s1 s2 where "start_nfs h l (vnfs g) (setLsiID (dpid l) cc) s = (Inr (True, cc'), s1)"
    "graphs_kept s s2" "install_new_graph h g l cc' c s2 = (Inr (), t)"
    "bindS (handleControllerForInternalEndpoint g) (\<lambda>_. handleGraphForInternalEndpoint h g) s1 = (Inr (), s2)"
proof -
  obtain cc' s1 where st: "start_nfs h l (vnfs g) (setLsiID (dpid l) cc) s = (Inr (True, cc'), s1)"
    and rest: "bindS (handleControllerForInternalEndpoint g) (\<lambda>_.
          bindS (catchS (handleGraphForInternalEndpoint h g) (\<lambda>e. e = GraphManagerException)
                   (\<lambda>_. undo_new_graph h g l cc')) (\<lambda>_.
          bindS (catchS (install_new_graph h g l cc' c) (\<lambda>e. e = SwitchManagerException) (\<lambda>_.
                   bindS (stop_nfs h (vnfs g) cc') (\<lambda>_.
                   bindS (switchS (destroyLsi (h_sm h) (dpid l))) (\<lambda>_.
                   bindS (modifyS (forget_tenant (graph_ID g))) (\<lambda>_.
                   throwS GraphManagerException))))) (\<lambda>_.
          returnS True))) s1 = (Inr True, t)"
    using assms unfolding deploy_graph_def
    by (auto simp: bindS_Inr_iff undo_not_done split: if_splits)
  obtain sa s2 where i: "handleControllerForInternalEndpoint g s1 = (Inr (), sa)"
    "handleGraphForInternalEndpoint h g sa = (Inr (), s2)" "install_new_graph h g l cc' c s2 = (Inr (), t)"
    using rest
    by (auto simp: bindS_Inr_iff catchS_Inr_iff exec_simps undo_not_done)
  have "graphs_kept s s2"
    using movesD[OF kept_start_nfs st] movesD[OF kept_controllers i(1)] movesD[OF kept_internal i(2)]
    by (simp add: graphs_kept_def)
  then show ?thesis using that[OF st _ i(3)] i(1,2) by (auto simp: bindS_def)
qed

text \<open>All functions of the graph run after they were started.\<close>

definition nf_runs :: "ComputeController \<Rightarrow> string \<Rightarrow> bool" where
  "nf_runs cc i = (\<exists>nf. map_of (cc_nfs cc) i = Some nf \<and> nf_isRunning nf)"

lemma startNF_running:
  assumes "startNF mgr i names config e = Inr (ok, e')"
  shows "(ok \<longrightarrow> nf_runs (ce_cc e') i) \<and> (nf_runs (ce_cc e) j \<longrightarrow> nf_runs (ce_cc e') j)"
proof (cases ok)
  case True
  then obtain nf where "ce_cc e' = (ce_cc e)\<lparr>cc_nfs := om_put i (nf\<lparr>nf_isRunning := True\<rparr>) (cc_nfs (ce_cc e))\<rparr>"
    using assms by (auto simp: startNF_def bindR_Inr_iff Let_def case_prod_beta split: if_splits)
  then show ?thesis by (auto simp: nf_runs_def map_of_om_put)
next
  case False
  then have "ce_cc e' = ce_cc e"
    using assms by (auto simp: startNF_def bindR_Inr_iff Let_def case_prod_beta split: if_splits)
  then show ?thesis using False by simp
qed

lemma start_nfs_run:
  "start_nfs h l nfs cc s = (Inr (ok, cc'), t) \<Longrightarrow>
     (\<forall>i. nf_runs cc i \<longrightarrow> nf_runs cc' i) \<and> (ok \<longrightarrow> (\<forall>nf \<in> set nfs. nf_runs cc' (vnf_id nf)))"
proof (induction nfs arbitrary: cc s ok)
  case Nil
  then show ?case by (simp add: exec_simps)
next
  case (Cons nf nfs)
  from Cons.prems obtain config r s1 where c: "computeS cc (startNF (h_nfm h) (vnf_id nf)
      (getNetworkFunctionsPortsNameOnSwitchMap (vnf_id nf) l) config) s = (Inr r, s1)"
    and rest: "(case r of (st, cc1) \<Rightarrow> bindS (start_nfs h l nfs cc1) (\<lambda>(ok, cc). returnS (st \<and> ok, cc))) s1 =
      (Inr (ok, cc'), t)"
    unfolding start_nfs.simps liftS_def bindS_def by (simp split: sum.splits prod.splits)
  obtain st cc1 where r: "r = (st, cc1)" by (cases r)
  note c0 = c[unfolded r] and rest = rest[unfolded r, simplified]
  from rest obtain p where p: "start_nfs h l nfs cc1 s1 = (Inr p, t)" "ok = (st \<and> fst p)" "snd p = cc'"
    by (cases "start_nfs h l nfs cc1 s1") (simp add: bindS_def returnS_def case_prod_beta split: sum.splits)
  then have c: "start_nfs h l nfs cc1 s1 = (Inr (fst p, cc'), t)" "ok \<longrightarrow> st \<and> fst p"
    by (simp_all add: p(3)[symmetric])
  from c0 obtain e' where e': "startNF (h_nfm h) (vnf_id nf) (getNetworkFunctionsPortsNameOnSwitchMap (vnf_id nf) l) config
      \<lparr>ce_cc = cc, ce_pool = gm_cores s, ce_world = gm_world s\<rparr> = Inr (st, e')" "cc1 = ce_cc e'"
    by (auto simp: computeS_def split: sum.splits prod.splits)
  note run = startNF_running[OF e'(1)]
  have "nf_runs cc i \<longrightarrow> nf_runs cc1 i" "st \<longrightarrow> nf_runs cc1 (vnf_id nf)" for i
    using run e'(2) by simp_all
  with Cons.IH[OF c(1)] c(2) show ?case by auto
qed

lemma newGraph_made_links:
  assumes "make_tenant_lsi h g p nt pt
       (fst (VLinks_new (numberOfVLrequired (identifyVirtualLinksRequired g)) d n)) s = (Inr l, t)"
    and "associate_vlinks (identifyVirtualLinksRequired g) l = Inr l'"
    and "length (rules g) < 2 ^ 32" "unat n + numberOfVLrequired (identifyVirtualLinksRequired g) < 2 ^ 64"
  shows "links_inv l' \<and> links_cover (rules g) l' \<and> links_used l'"
proof -
  let ?k = "numberOfVLrequired (identifyVirtualLinksRequired g)"
  have "map unat (map vl_ID (virtual_links l)) = [unat n..<unat n + ?k]"
    using make_tenant_lsi_links(1)[OF assms(1)] VLinks_new_ids[OF assms(4)] by (simp add: comp_def)
  then have "distinct (map vl_ID (virtual_links l))" "length (virtual_links l) = ?k"
    by (metis distinct_map distinct_upt, metis add_diff_cancel_left' length_map length_upt)
  then have "new_links g l" using make_tenant_lsi_links(2)[OF assms(1)] assms(3) by (simp add: new_links_def)
  from associate_vlinks_inv[OF this] assms(2) show ?thesis by auto
qed

lemma installNewRules_graph: "installNewRules v rs c = Inr (b, c') \<Longrightarrow> ctl_graph c' = ctl_graph c @ rs"
proof -
  have send: "foldR (send_rule v k) xs a = Inr a' \<Longrightarrow> ctl_graph a' = ctl_graph a" for k xs a a'
    by (rule foldR_inv[where I = ctl_graph]) (auto simp: send_rule_def send_to_dpt_def bindR_Inr_iff)
  show "installNewRules v rs c = Inr (b, c') \<Longrightarrow> ctl_graph c' = ctl_graph c @ rs"
    by (auto simp: installNewRules_def installNewRulesIntoLSI_def fold_addRule bindR_Inr_iff dest!: send split: if_splits)
qed

text \<open>
  A deployed graph (C2). When \<open>newGraph\<close> returns true, the graph is recorded under its identifier,
  which was free, and the other graphs are as before; its functions run; its switch has a link for
  every rule that needs one and no link too many; the controller of its switch holds exactly the rules
  of the tenant's lowering; and those of the lowering to LSI-0 were added at the end of the rules of the
  LSI-0's controller.
\<close>

theorem newGraph_deploys:
  assumes "newGraph h g s = (Inr True, t)" "length (rules g) < 2 ^ 32"
    and "unat (nextLinkID s) + numberOfVLrequired (identifyVirtualLinksRequired g) < 2 ^ 64"
  shows "map_of (tenantLSIs s) (graph_ID g) = None \<and>
    (\<forall>i. i \<noteq> graph_ID g \<longrightarrow> map_of (tenantLSIs t) i = map_of (tenantLSIs s) i) \<and>
    (\<exists>l cc c l0 T0 T1 c0 c0'. map_of (tenantLSIs t) (graph_ID g) =
        Some \<lparr>gi_controller = Obj c, gi_lsi = Obj l, gi_compute = Obj cc, gi_graph = Obj g\<rparr> \<and>
      (\<forall>nf \<in> set (vnfs g). nf_runs cc (vnf_id nf)) \<and>
      links_inv l \<and> links_cover (rules g) l \<and> links_used l \<and>
      gi_lsi (graphInfoLSI0 t) = Obj l0 \<and>
      lowerGraphToLSI0 g l l0 (internalLSIsConnections t) (mem_match h) = Inr T0 \<and>
      lowerGraphToTenantLSI g l (mem_match h) = Inr T1 \<and> ctl_graph c = T1 \<and>
      gi_controller (graphInfoLSI0 s) = Obj c0 \<and> gi_controller (graphInfoLSI0 t) = Obj c0' \<and>
      ctl_graph c0' = ctl_graph c0 @ T0)"
proof -
  obtain cc c s2 s3 l l' nt pt where new: "map_of (tenantLSIs s) (graph_ID g) = None" "ctl_graph c = []"
    and l: "make_tenant_lsi h g (ctl_port c) nt pt
       (fst (VLinks_new (numberOfVLrequired (identifyVirtualLinksRequired g)) (dpid0 s) (nextLinkID s))) s2 = (Inr l, s3)"
      "associate_vlinks (identifyVirtualLinksRequired g) l = Inr l'"
    and kept: "graphs_kept s s3" and dep: "deploy_graph h g l' cc c s3 = (Inr True, t)"
    using newGraph_done[OF assms(1)] by metis
  obtain cc' s4 s5 where st: "start_nfs h l' (vnfs g) (setLsiID (dpid l') cc) s3 = (Inr (True, cc'), s4)"
    and kept': "graphs_kept s3 s5" and inst: "install_new_graph h g l' cc' c s5 = (Inr (), t)"
    using deploy_graph_done[OF dep] by metis
  obtain l0 T0 T1 b c' c0 b0 c0' where T: "gi_lsi (graphInfoLSI0 s5) = Obj l0"
    "lowerGraphToLSI0 g l' l0 (internalLSIsConnections s5) (mem_match h) = Inr T0"
    "lowerGraphToTenantLSI g l' (mem_match h) = Inr T1" "installNewRules (h_version h) T1 c = Inr (b, c')"
    "gi_controller (graphInfoLSI0 s5) = Obj c0" "installNewRules (h_version h) T0 c0 = Inr (b0, c0')"
    "t = (put_tenant (graph_ID g) \<lparr>gi_controller = Obj c', gi_lsi = Obj l', gi_compute = Obj cc', gi_graph = Obj g\<rparr>
       (low_added T0 s5))\<lparr>graphInfoLSI0 := (graphInfoLSI0 s5)\<lparr>gi_controller := Obj c0'\<rparr>\<rparr>"
    by (rule install_new_graph_done[OF inst])
  have s5: "tenantLSIs s5 = tenantLSIs s" "graphInfoLSI0 s5 = graphInfoLSI0 s"
    using kept kept' by (simp_all add: graphs_kept_def)
  have t: "tenantLSIs t = om_put (graph_ID g) \<lparr>gi_controller = Obj c', gi_lsi = Obj l', gi_compute = Obj cc', gi_graph = Obj g\<rparr> (tenantLSIs s)"
    "gi_lsi (graphInfoLSI0 t) = Obj l0" "gi_controller (graphInfoLSI0 t) = Obj c0'"
    "internalLSIsConnections t = internalLSIsConnections s5"
    using T(1,7) s5 by (simp_all add: put_tenant_def low_added_def)
  note links = newGraph_made_links[OF l assms(2,3)]
    and runs = start_nfs_run[OF st] and graph = installNewRules_graph[OF T(4)] installNewRules_graph[OF T(6)]
  show ?thesis
    using new s5 links runs graph T(2,3,5) t by (simp add: map_of_om_put)
qed

theorem newGraph_deploys_witness:
  "newGraph sample_host ex_old sample_start = (Inr True, sample_running) \<and>
   map_of (tenantLSIs sample_start) ''g'' = None \<and>
   links_inv sample_tenant \<and> links_cover (rules ex_old) sample_tenant \<and> nf_runs sample_cc ''01'' \<and>
   sample_T1 \<noteq> []"
proof -
  have n: "length (rules ex_old) < 2 ^ 32"
    "unat (nextLinkID sample_start) + numberOfVLrequired (identifyVirtualLinksRequired ex_old) < 2 ^ 64"
    by (simp_all add: ex_old_sel sample_links numberOfVLrequired_def sample_start_def)
  have "sample_T1 \<noteq> []" by code_simp
  moreover have "map_of (tenantLSIs sample_running) ''g'' = Some \<lparr>gi_controller = Obj (sample_controller ''6654'' sample_T1),
      gi_lsi = Obj sample_tenant, gi_compute = Obj sample_cc, gi_graph = Obj ex_old\<rparr>"
    by (simp add: sample_running_def)
  ultimately show ?thesis
    using newGraph_deploys[OF sample_deployed n] sample_deployed by (simp add: ex_old_sel) 
qed

end
