(* ===== verification/Graph_Traffic.thy ===== *)
theory Graph_Traffic
  imports Graph_Lifecycle
begin

text \<open>
  From a request to packets: the graph that \<open>newGraph\<close> has deployed forwards traffic as its rules say,
  with the rules of all graphs in the LSI-0. It joins the deployment (\<open>Graph_Lifecycle\<close>), the links
  (\<open>Virtual_Links\<close>) and the lowered tables (\<open>Data_Plane\<close>).
\<close>

section \<open>Ports of the functions on the switch of a graph\<close>

definition port_names :: "nfData \<Rightarrow> string set" where
  "port_names d = dom (map_of (ports_switch_id d))"

lemma port_names_update [simp]:
  "port_names (d\<lparr>nf_ports_id := x\<rparr>) = port_names d" "port_names (d\<lparr>ports_type := y\<rparr>) = port_names d"
  "port_names (d\<lparr>ports_name_on_switch := z\<rparr>) = port_names d"
  by (simp_all add: port_names_def)

definition nf_keys :: "LSI \<Rightarrow> (string \<times> string) set" where
  "nf_keys l = {(nf, n). \<exists>d. map_of (network_functions l) nf = Some d \<and> n \<in> port_names d}"

lemma nf_num_keys: "nf_num l nf i \<noteq> None \<longleftrightarrow> (nf, nf_port_name nf i) \<in> nf_keys l"
  by (auto simp: nf_num_def nf_keys_def port_names_def domIff split: Option.bind_splits)

lemma nf_keys_cong: "network_functions l = network_functions l' \<Longrightarrow> nf_keys l = nf_keys l'"
  by (simp add: nf_keys_def)

lemma dom_om_put: "dom (map_of (om_put k v m)) = insert k (dom (map_of m))"
  by (auto simp: map_of_om_put split: if_splits)

lemma add_nf_ports_keys:
  assumes "\<forall>p \<in> set ps. map_of types p \<noteq> None"
  shows "\<exists>d'. add_nf_ports nf types ps d = Some d' \<and>
    port_names d' = port_names d \<union> nf_port_name nf ` set ps"
  using assms
proof (induction ps arbitrary: d)
  case (Cons p ps)
  then obtain t where t: "map_of types p = Some t" by auto
  obtain d' where "add_nf_ports nf types ps
      (d\<lparr>ports_switch_id := om_put (nf_port_name nf p) 0 (ports_switch_id d),
         ports_type := om_put (nf_port_name nf p) t (ports_type d)\<rparr>) = Some d'"
    "port_names d' = insert (nf_port_name nf p) (port_names d) \<union> nf_port_name nf ` set ps"
    using Cons.IH[of "d\<lparr>ports_switch_id := om_put (nf_port_name nf p) 0 (ports_switch_id d),
         ports_type := om_put (nf_port_name nf p) t (ports_type d)\<rparr>"] Cons.prems
    by (auto simp: port_names_def dom_om_put)
  then show ?case using t by (auto simp: Let_def)
qed simp

lemma add_vnf_port_keys:
  assumes "add_vnf_to_lsi pt nf l = Inr l'" "getPortsId nf = Inr ps"
    and "map_of pt (vnf_id nf) = Some types" "\<forall>p \<in> set ps. map_of types p \<noteq> None"
  shows "nf_keys l \<subseteq> nf_keys l' \<and> (\<forall>p \<in> set ps. (vnf_id nf, nf_port_name (vnf_id nf) p) \<in> nf_keys l')"
proof -
  define d where "d = (case map_of (network_functions l) (vnf_id nf) of
                 Some d \<Rightarrow> d\<lparr>nf_ports_id := nf_ports_id d @ ps\<rparr> | None \<Rightarrow> nfData_new\<lparr>nf_ports_id := ps\<rparr>)"
  obtain d' where d': "add_nf_ports (vnf_id nf) types ps d = Some d'"
    "port_names d' = port_names d \<union> nf_port_name (vnf_id nf) ` set ps"
    using add_nf_ports_keys[OF assms(4)] by blast
  have l': "l' = l\<lparr>network_functions := om_put (vnf_id nf) d' (network_functions l)\<rparr>"
    using assms d'(1) by (simp add: add_vnf_to_lsi_def addNF_def Let_def d_def)
  have "port_names e \<subseteq> port_names d'" if "map_of (network_functions l) (vnf_id nf) = Some e" for e
    using that d'(2) by (auto simp: d_def)
  then show ?thesis
    using d'(2) by (auto simp: l' nf_keys_def map_of_om_put split: if_splits) blast+
qed

definition types_cover :: "(string, (32 word, PortType) omap) omap \<Rightarrow> VNFs list \<Rightarrow> bool" where
  "types_cover pt nfs = (\<forall>nf \<in> set nfs. \<exists>ps types. getPortsId nf = Inr ps \<and>
     map_of pt (vnf_id nf) = Some types \<and> (\<forall>p \<in> set ps. map_of types p \<noteq> None))"

lemma add_vnfs_keys:
  assumes "foldR (add_vnf_to_lsi pt) nfs l = Inr l'" "types_cover pt nfs"
  shows "nf_keys l \<subseteq> nf_keys l' \<and>
    (\<forall>nf \<in> set nfs. \<forall>ps. getPortsId nf = Inr ps \<longrightarrow> (\<forall>p \<in> set ps. (vnf_id nf, nf_port_name (vnf_id nf) p) \<in> nf_keys l'))"
  using assms
proof (induction nfs arbitrary: l)
  case (Cons nf nfs)
  then obtain l1 where l1: "add_vnf_to_lsi pt nf l = Inr l1" "foldR (add_vnf_to_lsi pt) nfs l1 = Inr l'"
    by (auto simp: bindR_Inr_iff)
  from Cons.prems(2) obtain ps types where nf: "getPortsId nf = Inr ps" "map_of pt (vnf_id nf) = Some types"
    "\<forall>p \<in> set ps. map_of types p \<noteq> None" "types_cover pt nfs"
    by (auto simp: types_cover_def)
  show ?case using add_vnf_port_keys[OF l1(1) nf(1-3)] Cons.IH[OF l1(2) nf(4)] nf(1) by auto
qed simp

text \<open>The types that \<open>newGraph\<close> collects cover the ports of the functions.\<close>

lemma nf_port_types_cover:
  "nf_port_types cc nfs nt pt = Inr (Some (nt', pt')) \<Longrightarrow>
     (\<forall>i. i \<notin> vnf_id ` set nfs \<longrightarrow> map_of pt' i = map_of pt i) \<and>
     (\<forall>nf \<in> set nfs. \<exists>ps descr. getPortsId nf = Inr ps \<and> getNFSelectedImplementation (vnf_id nf) cc = Some descr \<and>
        map_of pt' (vnf_id nf) = Some (d_port_types descr) \<and> (\<forall>p \<in> set ps. map_of (d_port_types descr) p \<noteq> None))"
proof (induction nfs arbitrary: nt pt)
  case (Cons nf nfs)
  then obtain ps t descr where nf: "getPortsId nf = Inr ps" "getNFSelectedImplementation (vnf_id nf) cc = Some descr"
    "\<forall>p \<in> set ps. map_of (d_port_types descr) p \<noteq> None"
    "nf_port_types cc nfs (om_put (vnf_id nf) t nt) (om_put (vnf_id nf) (d_port_types descr) pt) = Inr (Some (nt', pt'))"
    by (auto simp: bindR_Inr_iff split: if_splits)
  note IH = Cons.IH[OF nf(4)]
  have "map_of pt' (vnf_id nf) = Some (d_port_types descr)"
  proof (cases "vnf_id nf \<in> vnf_id ` set nfs")
    case True
    then show ?thesis using IH nf(2) by auto
  next
    case False
    then show ?thesis using IH by (simp add: map_of_om_put)
  qed
  then show ?case using IH nf(1-3) by (auto simp: map_of_om_put)
qed simp

lemma set_switch_ids_dom:
  "set_switch_ids ts d = Inr d' \<Longrightarrow> port_names d' = port_names d"
  by (induction ts d rule: set_switch_ids.induct) (auto simp: port_names_def dom_om_put om_count_def split: if_splits)

lemma setNfSwitchPortsID_keys: "setNfSwitchPortsID nf ts l = Inr l' \<Longrightarrow> nf_keys l' = nf_keys l"
proof -
  assume "setNfSwitchPortsID nf ts l = Inr l'"
  then obtain d d' where d: "map_of (network_functions l) nf = Some d" "set_switch_ids ts d = Inr d'"
    "l' = l\<lparr>network_functions := om_put nf d' (network_functions l)\<rparr>"
    by (auto simp: setNfSwitchPortsID_def bindR_Inr_iff)
  show "nf_keys l' = nf_keys l"
    unfolding nf_keys_def d(3) using d(1)
    by (auto simp: map_of_om_put set_switch_ids_dom[OF d(2)] split: if_splits)
qed

lemma setNetworkFunctionsPortsNameOnSwitch_keys: "nf_keys (setNetworkFunctionsPortsNameOnSwitch nf names l) = nf_keys l"
  by (cases "map_of (network_functions l) nf")
    (auto simp: setNetworkFunctionsPortsNameOnSwitch_def nf_keys_def map_of_om_put split: if_splits)

lemma record_tenant_lsi_keys:
  assumes "record_tenant_lsi clo l = Inr l'"
  shows "nf_keys l' = nf_keys l"
proof -
  have set_ids: "set_vlink_ids vl pos a = Inr b \<Longrightarrow> nf_keys b = nf_keys a" for vl pos a b
  proof (induction vl pos a rule: set_vlink_ids.induct)
    case (2 lid rid vl pos a)
    then show ?case
      by (auto simp: bindR_Inr_iff setVLinkIDs_def nf_keys_def split: if_splits)
  qed simp
  obtain l1 l2 where s: "foldR (\<lambda>(nf, ports). setNfSwitchPortsID nf ports) (clo_network_functions_ports clo) (setDpid (clo_dpid clo) l) = Inr l1"
    "foldR (\<lambda>(ep, i). setEndpointPortID ep (ucast i)) (clo_endpoints_ports clo) l1 = Inr l2"
    "set_vlink_ids (clo_virtual_links clo) 0 (fold (\<lambda>(nf, names). setNetworkFunctionsPortsNameOnSwitch nf names) (clo_nf_ports_name_and_id clo) l2) = Inr l'"
    using assms by (auto simp: record_tenant_lsi_def Let_def bindR_Inr_iff split: if_splits)
  have "nf_keys l1 = nf_keys (setDpid (clo_dpid clo) l)"
    by (rule foldR_inv[OF _ s(1)]) (auto dest!: setNfSwitchPortsID_keys)
  moreover have "nf_keys l2 = nf_keys l1"
    by (rule foldR_inv[OF _ s(2)]) (auto simp: setEndpointPortID_def bindR_Inr_iff nf_keys_def)
  moreover have "nf_keys (fold (\<lambda>(nf, names). setNetworkFunctionsPortsNameOnSwitch nf names) (clo_nf_ports_name_and_id clo) l2) = nf_keys l2"
    by (rule fold_inv) (auto simp: setNetworkFunctionsPortsNameOnSwitch_keys)
  ultimately show ?thesis using set_ids[OF s(3)] by (simp add: setDpid_def nf_keys_def)
qed

lemma associate_vlinks_keys: "associate_vlinks v l = Inr l' \<Longrightarrow> network_functions l' = network_functions l"
  by (auto simp: associate_vlinks_def Let_def bindR_Inr_iff setNFsVLinks_def setPortsVLinks_def
      setEndPointsVLinks_def setEndPointsGreVLinks_def case_prod_beta split: if_splits)

lemma new_tenant_keys:
  assumes "make_tenant_lsi h g p nt pt vls s = (Inr l, t)" "nf_port_types cc (vnfs g) [] [] = Inr (Some (nt, pt))"
    and "nf \<in> set (vnfs g)" "getPortsId nf = Inr ps" "i \<in> set ps"
  shows "(vnf_id nf, nf_port_name (vnf_id nf) i) \<in> nf_keys l"
proof -
  obtain l0 clo where l0: "LSI_new (mem_dpid h) OF_CONTROLLER_ADDRESS p [] (vnfs g) (endPointsGre g) vls pt = Inr l0"
    "record_tenant_lsi clo l0 = Inr l"
    using assms(1) by (auto simp: make_tenant_lsi_def bindS_Inr_iff exec_simps Let_def)
  then obtain l1 x where l1: "foldR (add_vnf_to_lsi pt) (vnfs g) x = Inr l1" "l0 = l1\<lparr>gre_endpoints_ports := endPointsGre g\<rparr>"
    by (auto simp: LSI_new_def bindR_Inr_iff)
  have "types_cover pt (vnfs g)"
    using nf_port_types_cover[OF assms(2)] unfolding types_cover_def by blast
  from add_vnfs_keys[OF l1(1) this] assms(3-5) have "(vnf_id nf, nf_port_name (vnf_id nf) i) \<in> nf_keys l1" by blast
  then show ?thesis using record_tenant_lsi_keys[OF l0(2)] l1(2) by (simp add: nf_keys_def)
qed

section \<open>Graphs whose rules use their own points\<close>

fun point_of :: "HLGraph \<Rightarrow> point \<Rightarrow> bool" where
  "point_of g (PhysPort p) = (\<exists>e \<in> set (endPointsInterface g). ei_interface e = p)"
| "point_of g (NFPort nf i) = (\<exists>v \<in> set (vnfs g). vnf_id v = nf \<and> (\<exists>ps. getPortsId v = Inr ps \<and> i \<in> set ps))"
| "point_of g (GrePoint ep) = (\<exists>e \<in> set (endPointsGre g). eg_id e = ep)"

definition rule_plain :: "HLGraph \<Rightarrow> HLRule \<Rightarrow> bool" where
  "rule_plain g r =
     (wf_input (hr_match r) \<and> wf_match (hr_match r) \<and> unat (hr_priority r) < 2 ^ 16 \<and>
      (ipv6_dst (hr_match r) = None \<or> gre_key (hr_match r) \<noteq> None) \<and>
      (case (entry_point (hr_match r), exit_point (hl_out (hr_action r))) of
         (Some e, Some x) \<Rightarrow> kind_ok e x \<and> point_of g e \<and> point_of g x
       | _ \<Rightarrow> False))"

text \<open>
  What the virtual switch promises: the ports of a switch have different numbers, and a tunnel that was
  asked for has one.
\<close>

definition numbered_apart :: "HLGraph \<Rightarrow> LSI \<Rightarrow> LSI \<Rightarrow> bool" where
  "numbered_apart g l l0 = (numbers_ok l l0 \<and> (\<forall>e \<in> set (endPointsGre g). gre_num l (eg_id e) \<noteq> None))"

lemma link_use_points:
  assumes "entry_point (hr_match r) = Some e" "exit_point (hl_out (hr_action r)) = Some x" "on_lsi0 e \<noteq> on_lsi0 x"
  shows "link_use r = Some (case x of PhysPort p \<Rightarrow> (To_Port, p) | NFPort nf i \<Rightarrow> (To_NF, nf_port_name nf i)
    | GrePoint ep \<Rightarrow> (To_Gre, ep))"
  using assms
  by (cases "hl_out (hr_action r)"; cases "match_type (hr_match r)")
    (auto simp: entry_point_def link_use_def Let_def getType_def matchOn_defs action_nf_port_def nf_port_name_def out_port_def)

lemma link_to_cover:
  assumes "links_inv l" "links_cover rs l" "r \<in> set rs"
    and "entry_point (hr_match r) = Some e" "exit_point (hl_out (hr_action r)) = Some x" "on_lsi0 e \<noteq> on_lsi0 x"
  shows "link_to l x \<noteq> None"
proof -
  obtain k n where kn: "link_use r = Some (k, n)" "link_to l x = link_of l (kind_map k l) n"
    using link_use_points[OF assms(4-6)] by (cases x) auto
  then obtain i where i: "map_of (kind_map k l) n = Some i"
    using assms(2,3) unfolding links_cover_def by blast
  then have "i \<in> vl_ID ` set (virtual_links l)" using assms(1) unfolding links_inv_def vlink_ids_def by blast
  then show ?thesis using kn(2) i by (auto simp: link_of_def find_None_iff)
qed

lemma checkGraphValidity_ports:
  assumes "checkGraphValidity h g ccp s = (Inr (Inr True, ccp'), t)"
  obtains l0 where "gi_lsi (graphInfoLSI0 s) = Obj l0"
    "\<forall>p \<in> set (endPointsInterface g). om_count (physical_ports l0) (ei_interface p)"
proof -
  obtain l0 where l0: "derefR (gi_lsi (graphInfoLSI0 s)) = Inr l0"
    using assms by (auto simp: checkGraphValidity_def bindS_Inr_iff the_lsi0_run split: sum.splits)
  then have "\<forall>p \<in> set (endPointsInterface g). om_count (physical_ports l0) (ei_interface p)"
    using assms by (auto simp: checkGraphValidity_def bindS_Inr_iff the_lsi0_run exec_simps split: if_splits)
  with l0 that show ?thesis by (auto simp: derefR_def split: pointer.splits)
qed

lemma graph_deployed:
  assumes "links_inv l" "links_cover (rules g) l" "numbered_apart g l l0" "\<forall>r \<in> set (rules g). rule_plain g r"
    and ports: "\<forall>p \<in> set (endPointsInterface g). om_count (physical_ports l0) (ei_interface p)"
    and keys: "\<And>nf ps i. nf \<in> set (vnfs g) \<Longrightarrow> getPortsId nf = Inr ps \<Longrightarrow> i \<in> set ps \<Longrightarrow>
      (vnf_id nf, nf_port_name (vnf_id nf) i) \<in> nf_keys l"
  shows "deployed g l l0"
proof -
  have num: "point_num l l0 x \<noteq> None" if "point_of g x" for x
  proof (cases x)
    case (PhysPort p)
    then show ?thesis using that ports by (auto simp: phys_num_def om_count_def)
  next
    case (NFPort nf i)
    with that obtain v ps where "v \<in> set (vnfs g)" "vnf_id v = nf" "getPortsId v = Inr ps" "i \<in> set ps" by auto
    then have "nf_num l nf i \<noteq> None" using keys[of v ps i] unfolding nf_num_keys by simp
    then show ?thesis using NFPort by simp
  next
    case (GrePoint ep)
    then show ?thesis using that assms(3) by (auto simp: numbered_apart_def)
  qed
  have "rule_deployed l l0 r" if r: "r \<in> set (rules g)" for r
  proof -
    have plain: "rule_plain g r" using assms(4) r by blast
    then obtain e x where e: "entry_point (hr_match r) = Some e" "exit_point (hl_out (hr_action r)) = Some x"
      "kind_ok e x" "point_of g e" "point_of g x"
      by (auto simp: rule_plain_def split: option.splits)
    have "on_lsi0 e \<noteq> on_lsi0 x \<longrightarrow> link_to l x \<noteq> None"
      using link_to_cover[OF assms(1,2) r e(1,2)] by blast
    then show ?thesis using plain e num[of e] num[of x] by (simp add: rule_deployed_def rule_plain_def)
  qed
  then show ?thesis using assms(3) links_inv_ok[OF assms(1)] by (simp add: deployed_def numbered_apart_def)
qed

section \<open>The LSI-0 with the rules of all graphs\<close>

text \<open>A rule that no packet of a port can match.\<close>

definition away :: "32 word \<Rightarrow> LLRule \<Rightarrow> bool" where
  "away p r = (isInput_port (ll_match r) \<and> input_port (ll_match r) \<noteq> p \<or> is_local_port (ll_match r))"

lemma away_no_match: "away p r \<Longrightarrow> \<not> ll_matches sat p k r"
  by (auto simp: away_def ll_matches_def LLMatch_fillFlowmodMessage_def emit_flag_def emit_if_def oxm_holds_def)

lemma switch_out_away:
  assumes "\<forall>r \<in> set A. away p r"
  shows "switch_out sat act (A @ T) p k = switch_out sat act T p k"
  using assms away_no_match[of p _ sat k] unfolding set_eq_iff switch_out_rules set_append by blast

text \<open>The rules of the other graphs are on other physical ports and on other links.\<close>

definition others_apart :: "LLGraph \<Rightarrow> LSI \<Rightarrow> LSI \<Rightarrow> point \<Rightarrow> bool" where
  "others_apart A l l0 e = (\<forall>r \<in> set A.
     (\<forall>p. on_lsi0 e \<longrightarrow> point_num l l0 e = Some p \<longrightarrow> away p r) \<and> (\<forall>v \<in> set (virtual_links l). away (remote_id v) r))"

lemma net_outcomes_apart:
  assumes "others_apart A l l0 e"
  shows "net_outcomes sat act l l0 (\<lambda>b. if b then A @ T0 else T1) e k =
    net_outcomes sat act l l0 (\<lambda>b. if b then T0 else T1) e k"
proof -
  have first: "switch_out sat act (A @ T0) p k = switch_out sat act T0 p k" if "on_lsi0 e" "point_num l l0 e = Some p" for p
    by (rule switch_out_away) (use assms that in \<open>auto simp: others_apart_def\<close>)
  have second: "switch_out sat act (A @ T0) (here_num True v) k' = switch_out sat act T0 (here_num True v) k'"
    if "v \<in> set (virtual_links l)" for v k'
    by (rule switch_out_away) (use assms that in \<open>auto simp: others_apart_def here_num_def\<close>)
  have leaves: "leaves_at sat act l l0 (\<lambda>b. if b then A @ T0 else T1) b q k1 x k2 =
      leaves_at sat act l l0 (\<lambda>b. if b then T0 else T1) b q k1 x k2" for b q k1 x k2
    using second unfolding leaves_at_def by (cases "on_lsi0 x") auto
  have "switch_out sat act (if on_lsi0 e then A @ T0 else T1) p k = switch_out sat act (if on_lsi0 e then T0 else T1) p k"
    if "point_num l l0 e = Some p" for p
    using first[of p] that by simp
  then show ?thesis unfolding net_outcomes_def leaves by blast
qed



end
