(* ===== verification/Manager_Invariant.thy ===== *)
theory Manager_Invariant
  imports Graph_Lifecycle
begin

text \<open>
  The shape of the manager's state after any requests, successful or not: every recorded graph has its
  objects and its own identifier, and the LSI-0 its switch and controller, so that no request meets a
  null pointer there.
\<close>

section \<open>The invariant\<close>

definition tenant_ok :: "string \<Rightarrow> GraphInfo \<Rightarrow> bool" where
  "tenant_ok i gi =
     ((\<exists>c. gi_controller gi = Obj c) \<and> (\<exists>l. gi_lsi gi = Obj l) \<and> gi_compute gi \<noteq> Null \<and>
      (\<exists>g. gi_graph gi = Obj g \<and> graph_ID g = i))"

definition gm_ok :: "'w GraphManager \<Rightarrow> bool" where
  "gm_ok s =
     (om_wf (tenantLSIs s) \<and> (\<forall>i gi. map_of (tenantLSIs s) i = Some gi \<longrightarrow> tenant_ok i gi) \<and>
      (\<exists>c. gi_controller (graphInfoLSI0 s) = Obj c) \<and> (\<exists>l. gi_lsi (graphInfoLSI0 s) = Obj l))"

definition keeps_ok :: "'w GraphManager \<Rightarrow> 'w GraphManager \<Rightarrow> bool" where
  "keeps_ok s t = (gm_ok s \<longrightarrow> gm_ok t)"

interpretation ok: step_order keeps_ok
  by unfold_locales (simp_all add: keeps_ok_def)

lemma kept_ok: "moves graphs_kept m \<Longrightarrow> moves keeps_ok m"
  unfolding moves_def keeps_ok_def graphs_kept_def gm_ok_def by metis

lemma put_tenant_ok: "tenant_ok i gi \<Longrightarrow> keeps_ok s (put_tenant i gi s)"
  by (auto simp: keeps_ok_def gm_ok_def put_tenant_def map_of_om_put om_wf_put)

lemma forget_tenant_ok: "keeps_ok s (forget_tenant i s)"
  by (auto simp: keeps_ok_def gm_ok_def forget_tenant_def om_wf_erase omap_simps split: if_splits)

lemma low_ok: "keeps_ok s (s\<lparr>graphLSI0lowLevel := x\<rparr>)"
  by (simp add: keeps_ok_def gm_ok_def)

lemma lsi0_controller_ok: "moves keeps_ok (lsi0_controllerS f)"
  by (auto simp: moves_def keeps_ok_def gm_ok_def lsi0_controllerS_run split: sum.splits prod.splits)

section \<open>Operations on a recorded graph\<close>

text \<open>What is done with the entry of a graph may rely on the invariant of the entry.\<close>

lemma with_tenant_ok:
  assumes "\<And>gi. tenant_ok i gi \<Longrightarrow> moves keeps_ok (f gi)"
  shows "moves keeps_ok (bindS (tenant_info i) f)"
  unfolding moves_def
proof (intro allI impI)
  fix s r t
  assume b: "bindS (tenant_info i) f s = (r, t)"
  show "keeps_ok s t"
  proof (cases "map_of (tenantLSIs s) i")
    case None
    then show ?thesis using b by (auto simp: tenant_info_def bindS_def exec_simps keeps_ok_def)
  next
    case (Some gi)
    then have "f gi s = (r, t)" using b by (simp add: tenant_info_def bindS_def exec_simps)
    then show ?thesis
      using assms[of gi] Some unfolding keeps_ok_def gm_ok_def moves_def by blast
  qed
qed

lemma tenant_lsiS_ok: "moves keeps_ok (tenant_lsiS i m)"
proof -
  have "moves keeps_ok (bindS (liftS (derefR (gi_lsi gi))) (\<lambda>l s.
     case lsi_onS l m s of (r, l, s) \<Rightarrow> (r, put_tenant i (gi\<lparr>gi_lsi := Obj l\<rparr>) s)))" if "tenant_ok i gi" for gi
  proof (rule ok.moves_bind[OF ok.moves_lift])
    fix l
    have "keeps_ok s t" if m: "lsi_onS l m s = (r, l', u)" "t = put_tenant i (gi\<lparr>gi_lsi := Obj l'\<rparr>) u" for s r l' u t
    proof -
      have "keeps_ok s u" using kept_lsi_on[OF m(1)] by (simp add: keeps_ok_def gm_ok_def graphs_kept_def)
      moreover have "tenant_ok i (gi\<lparr>gi_lsi := Obj l'\<rparr>)" using \<open>tenant_ok i gi\<close> by (simp add: tenant_ok_def)
      ultimately show ?thesis using put_tenant_ok ok.step_trans m(2) by blast
    qed
    then show "moves keeps_ok (\<lambda>s. case lsi_onS l m s of (r, l, s) \<Rightarrow> (r, put_tenant i (gi\<lparr>gi_lsi := Obj l\<rparr>) s))"
      unfolding moves_def by (auto split: prod.splits)
  qed
  then show ?thesis unfolding tenant_lsiS_def by (intro with_tenant_ok)
qed

lemma tenant_computeS_ok: "moves keeps_ok (tenant_computeS i f)"
proof -
  have "tenant_ok i gi \<Longrightarrow> tenant_ok i (gi\<lparr>gi_compute := Obj cc\<rparr>)" for gi cc by (simp add: tenant_ok_def)
  then show ?thesis
    unfolding tenant_computeS_def
    by (intro with_tenant_ok ok.moves_rules kept_ok[OF kept_compute] put_tenant_ok)
qed

lemma controller_on_ok: "(\<And>c s. keeps_ok s (put c s)) \<Longrightarrow> moves keeps_ok (controller_onS p f put)"
  unfolding controller_onS_def by (intro ok.moves_rules)

lemma tenant_controllerS_ok: "moves keeps_ok (tenant_controllerS i f)"
proof -
  have "tenant_ok i gi \<Longrightarrow> tenant_ok i (gi\<lparr>gi_controller := Obj c\<rparr>)" for gi c by (simp add: tenant_ok_def)
  then show ?thesis
    unfolding tenant_controllerS_def by (intro with_tenant_ok controller_on_ok put_tenant_ok)
qed

lemma put_graph_ok: "graph_ID g = i \<Longrightarrow> moves keeps_ok (put_graph i g)"
  unfolding put_graph_def
  by (intro with_tenant_ok ok.moves_rules put_tenant_ok) (simp add: tenant_ok_def)

lemma put_compute_ok: "ccp \<noteq> Null \<Longrightarrow> moves keeps_ok (put_compute i ccp)"
  unfolding put_compute_def
  by (intro with_tenant_ok ok.moves_rules put_tenant_ok) (simp add: tenant_ok_def)

lemma tenant_lsi_ok: "moves keeps_ok (tenant_lsi i)"
  unfolding tenant_lsi_def tenant_info_def by (intro ok.moves_rules)

lemma tenant_info_ok: "moves keeps_ok (tenant_info i)"
  unfolding tenant_info_def by (intro ok.moves_rules)

lemmas ok_basic = kept_ok[OF kept_switch] kept_ok[OF kept_the_lsi0] lsi0_controller_ok tenant_lsiS_ok tenant_computeS_ok
  tenant_controllerS_ok tenant_lsi_ok tenant_info_ok low_ok forget_tenant_ok

section \<open>The requests\<close>

lemma newGraph_ok: "moves keeps_ok (newGraph h g)"
proof -
  have "moves keeps_ok (install_new_graph h g l cc c)" for l cc c
    unfolding install_new_graph_def
    by (intro ok.moves_rules ok_basic put_tenant_ok) (simp add: tenant_ok_def)
  then have "moves keeps_ok (deploy_graph h g l cc c)" for l cc c
    unfolding deploy_graph_def
    by (intro ok.moves_rules ok_basic kept_ok[OF kept_start_nfs] kept_ok[OF kept_undo] kept_ok[OF kept_controllers]
        kept_ok[OF kept_internal] kept_ok[OF kept_stop_nfs])
  then show ?thesis
    unfolding newGraph_def Let_def
    by (intro ok.moves_rules kept_ok[OF kept_checkGraphValidity] kept_ok[OF kept_new_controller] kept_ok[OF kept_compute]
        kept_ok[OF kept_new_vlinks] kept_ok[OF kept_make_tenant_lsi])
qed

lemma kept_delete_internal: "moves graphs_kept (delete_internal h i g iep)"
proof -
  have "moves graphs_kept (delete_internal_lsi h grp l)" for grp l
    unfolding delete_internal_lsi_def to_GraphManagerException_def
    by (intro kept.moves_rules kept_basic) (simp add: graphs_kept_def)
  moreover have "moves graphs_kept (leave_internal_lsi h grp i g gi l)" for grp gi l
    unfolding leave_internal_lsi_def
    by (intro kept.moves_rules kept_basic kept_controller_on kept_put_internal) (simp add: graphs_kept_def)
  ultimately show ?thesis
    unfolding delete_internal_def Let_def by (intro kept.moves_rules kept_basic kept_put_internal)
qed

lemma deleteGraph_ok: "moves keeps_ok (deleteGraph h i)"
  unfolding deleteGraph_def to_GraphManagerException_def
  by (intro ok.moves_rules ok_basic kept_ok[OF kept_delete_internal])

lemma with_known_ok:
  assumes "\<And>gi. tenant_ok i gi \<Longrightarrow> moves keeps_ok (f gi)"
  shows "moves keeps_ok (bindS (getsS (\<lambda>s. map_of (tenantLSIs s) i)) (\<lambda>gi. bindS (liftS (optionR e gi)) f))"
  unfolding moves_def
proof (intro allI impI)
  fix s r t
  assume b: "bindS (getsS (\<lambda>s. map_of (tenantLSIs s) i)) (\<lambda>gi. bindS (liftS (optionR e gi)) f) s = (r, t)"
  show "keeps_ok s t"
  proof (cases "map_of (tenantLSIs s) i")
    case None
    then show ?thesis using b by (auto simp: bindS_def exec_simps keeps_ok_def)
  next
    case (Some gi)
    then have "f gi s = (r, t)" using b by (simp add: bindS_def exec_simps)
    then show ?thesis
      using assms[of gi] Some unfolding keeps_ok_def gm_ok_def moves_def by blast
  qed
qed

lemma deref_ok:
  assumes "\<And>x. p = Obj x \<Longrightarrow> moves keeps_ok (f x)"
  shows "moves keeps_ok (bindS (liftS (derefR p)) f)"
  using assms by (cases p) (auto simp: derefR_def intro: ok.moves_throw)

lemma bind_result_ok:
  assumes "moves keeps_ok m" "\<And>x s t. m s = (Inr x, t) \<Longrightarrow> moves keeps_ok (f x)"
  shows "moves keeps_ok (bindS m f)"
  unfolding moves_def
proof (intro allI impI)
  fix s r t
  assume b: "bindS m f s = (r, t)"
  obtain r' u where m: "m s = (r', u)" by fastforce
  have u: "keeps_ok s u" by (rule movesD[OF assms(1) m])
  show "keeps_ok s t"
  proof (cases r')
    case (Inl e)
    then show ?thesis using b m u by (simp add: bindS_def)
  next
    case (Inr x)
    then have "f x u = (r, t)" using b m by (simp add: bindS_def)
    then show ?thesis using movesD[OF assms(2)] m Inr ok.step_trans[OF u] by blast
  qed
qed

lemma checkGraphValidity_not_null:
  "checkGraphValidity h g ccp s = (Inr (r, ccp'), t) \<Longrightarrow> ccp \<noteq> Null \<Longrightarrow> ccp' \<noteq> Null"
  by (auto simp: checkGraphValidity_def bindS_Inr_iff exec_simps split: if_splits)

text \<open>Neither part of an update changes the identifier of the graph.\<close>

lemma add_element_ID:
  "graph_ID (snd (addEndPointInterface e1 g)) = graph_ID g" "graph_ID (snd (addEndPointGre e2 g)) = graph_ID g"
  "graph_ID (snd (addEndPointInternal e3 g)) = graph_ID g" "graph_ID (snd (addEndPointVlan e4 g)) = graph_ID g"
  "graph_ID (addVNF v g) = graph_ID g" "graph_ID (snd (addRule r g)) = graph_ID g"
  by (simp_all add: addEndPointInterface_def addEndPointGre_def addEndPointInternal_def addEndPointVlan_def
      addVNF_def addRule_def Let_def case_prod_beta)

lemma add_rules_ID: "graph_ID (snd (add_rules rs g)) = graph_ID g"
  by (induction rs arbitrary: g) (simp_all add: Let_def case_prod_beta add_element_ID)

lemma addGraphToGraph_ID: "graph_ID (snd (addGraphToGraph d g)) = graph_ID g"
proof -
  have f: "graph_ID (fold h xs g) = graph_ID g" if "\<And>x g. graph_ID (h x g) = graph_ID g"
    for h :: "'x \<Rightarrow> HLGraph \<Rightarrow> HLGraph" and xs g
    using that by (induction xs arbitrary: g) auto
  show ?thesis
    unfolding addGraphToGraph_def Let_def case_prod_beta
    by (auto simp: f add_element_ID add_rules_ID)
qed

lemma removeGraphFromGraph_ID:
  assumes "removeGraphFromGraph d g = Inr (rris, g')"
  shows "graph_ID g' = graph_ID g"
proof -
  obtain p g2 g3 g4 g5 where steps:
    "foldR remove_rule_step (rules d) ([], g) = Inr p"
    "foldR remove_interface_step (endPointsInterface d) (snd p) = Inr g2"
    "foldR removeEndPointGre (endPointsGre d) g2 = Inr g3"
    "foldR removeEndPointInternal (endPointsInternal d) g3 = Inr g4"
    "foldR removeEndPointVlan (endPointsVlan d) g4 = Inr g5"
    "foldR remove_vnf_step (vnfs d) g5 = Inr g'"
    using assms by (auto simp: removeGraphFromGraph_def bindR_Inr_iff case_prod_beta)
  have "graph_ID (snd p) = graph_ID (snd ([] :: RuleRemovedInfo list, g))"
    by (rule foldR_inv[where I = "\<lambda>p. graph_ID (snd p)", OF _ steps(1)])
      (auto simp: remove_rule_step_def HLGraph_removeRuleFromID_def bindR_Inr_iff Let_def split: option.splits prod.splits if_splits)
  moreover have "graph_ID g2 = graph_ID (snd p)"
    by (rule foldR_inv[where I = graph_ID, OF _ steps(2)])
      (auto simp: remove_interface_step_def removeEndPointInterface_def bindR_Inr_iff split: option.splits if_splits)
  moreover have "graph_ID g3 = graph_ID g2"
    by (rule foldR_inv[where I = graph_ID, OF _ steps(3)])
      (auto simp: removeEndPointGre_def bindR_Inr_iff split: option.splits if_splits)
  moreover have "graph_ID g4 = graph_ID g3"
    by (rule foldR_inv[where I = graph_ID, OF _ steps(4)])
      (auto simp: removeEndPointInternal_def bindR_Inr_iff split: option.splits if_splits)
  moreover have "graph_ID g5 = graph_ID g4"
    by (rule foldR_inv[where I = graph_ID, OF _ steps(5)])
      (auto simp: removeEndPointVlan_def bindR_Inr_iff split: option.splits if_splits)
  moreover have "graph_ID g' = graph_ID g5"
    by (rule foldR_inv[where I = graph_ID, OF _ steps(6)])
      (auto simp: remove_vnf_step_def bindR_Inr_iff split: option.splits if_splits)
  ultimately show ?thesis by simp
qed

lemma start_update_ok: "moves keeps_ok (start_update h i nfs)"
  by (induction nfs) (auto simp: Let_def intro!: ok.moves_rules ok_basic)

lemma updateGraph_add_ok: "moves keeps_ok (updateGraph_add h i update)"
  unfolding updateGraph_add_def Let_def
  apply (rule with_known_ok, rule ok.moves_bind[OF ok.moves_lift], rule deref_ok)
  apply (rule bind_result_ok[OF kept_ok[OF kept_checkGraphValidity]])
  subgoal premises p for gi l g x s t
  proof -
    have ID: "graph_ID (snd (addGraphToGraph d g)) = i" for d
      using p(1,2) by (auto simp: tenant_ok_def addGraphToGraph_ID)
    obtain r ccp where rc: "x = (r, ccp)" by (cases x)
    have "ccp \<noteq> Null" using checkGraphValidity_not_null p(1,3) unfolding rc tenant_ok_def by blast
    then show ?thesis
      unfolding rc by (auto intro!: ok.moves_rules put_compute_ok put_graph_ok ID ok_basic start_update_ok)
  qed
  done

lemma updateGraph_remove_ok: "moves keeps_ok (updateGraph_remove h i update)"
  unfolding updateGraph_remove_def Let_def
  apply (rule with_known_ok, rule deref_ok, rule bind_result_ok[OF ok.moves_lift])
  subgoal premises p for gi g x s t
  proof -
    have "graph_ID (snd x) = i"
      using p by (cases x) (auto simp: tenant_ok_def exec_simps dest!: removeGraphFromGraph_ID)
    then have "graph_ID g' = i" if "x = (rris, g')" for rris g' using that by simp
    then show ?thesis
      unfolding remove_rule_by_id_def stop_and_remove_nf_def Let_def
      by (cases x) (simp only: prod.case, intro ok.moves_rules put_graph_ok ok_basic; simp)
  qed
  done

lemma updateGraph_ok: "moves keeps_ok (updateGraph h i update)"
proof -
  have "moves keeps_ok (updateGraph_add_rules h i diff)" for diff
    unfolding updateGraph_add_rules_def by (intro ok.moves_rules ok_basic)
  then show ?thesis
    unfolding updateGraph_def by (intro ok.moves_rules updateGraph_add_ok updateGraph_remove_ok)
qed

lemma constructed_ok:
  assumes "GraphManager_construct h m ports (GraphManager_init a b i z ip p d np nl pool w) = (Inr (), s)"
  shows "gm_ok s"
proof -
  obtain c l u where u: "gm_ok u" and s: "(if orchestrator_in_band u \<and> un_interface u \<noteq> '''' \<and> un_address u \<noteq> ''''
     then handleInBandController h else returnS ()) u = (Inr (), s)"
  proof -
    obtain c s1 s2 l s3 where c: "new_controller (GraphManager_init a b i z ip p d np nl pool w) = (Inr c, s1)"
      and k: "catchS (switchS (checkPhysicalInterfaces (h_sm h) ports)) (\<lambda>_. True) (\<lambda>_. throwS GraphManagerException) s1 = (Inr (), s2)"
      and l: "create_lsi0 h ports c s2 = (Inr l, s3)"
      and s: "(if orchestrator_in_band s3 \<and> un_interface s3 \<noteq> '''' \<and> un_address s3 \<noteq> ''''
         then handleInBandController h else returnS ())
        (s3\<lparr>dpid0 := dpid l, graphInfoLSI0 := (graphInfoLSI0 s3)\<lparr>gi_lsi := Obj l, gi_controller := Obj c\<rparr>,
            gm_cores := setCoreMask (scast m) (gm_cores s3)\<rparr>) = (Inr (), s)"
      using assms unfolding GraphManager_construct_def by (auto simp: bindS_Inr_iff exec_simps)
    have "moves graphs_kept (create_lsi0 h ports c)"
      unfolding create_lsi0_def Let_def to_GraphManagerException_def by (intro kept.moves_rules kept_basic)
    note k3 = movesD[OF this l]
    note k1 = movesD[OF kept_new_controller c]
    note k2 = movesD[OF kept.moves_catch[OF kept_switch kept.moves_throw] k]
    have "tenantLSIs s3 = []"
      using k1 k2 k3 by (simp add: graphs_kept_def GraphManager_init_def)
    then show thesis using s
      by (intro that[of "s3\<lparr>dpid0 := dpid l, graphInfoLSI0 := (graphInfoLSI0 s3)\<lparr>gi_lsi := Obj l, gi_controller := Obj c\<rparr>,
            gm_cores := setCoreMask (scast m) (gm_cores s3)\<rparr>"]) (simp_all add: gm_ok_def)
  qed
  have field: "keeps_ok s (s\<lparr>un_interface := x\<rparr>)" for s :: "'a GraphManager" and x by (simp add: keeps_ok_def gm_ok_def)
  have "moves keeps_ok (handleInBandController h)"
    unfolding handleInBandController_def Let_def by (intro ok.moves_rules ok_basic field)
  then show ?thesis using u s movesD[of keeps_ok "handleInBandController h"] by (auto simp: keeps_ok_def exec_simps split: if_splits)
qed

section \<open>Any sequence of requests\<close>

text \<open>
  What happens to a manager: requests, whatever they return or throw, the opening and closing of the
  connections of the switches, and changes around it.
\<close>

inductive gm_step :: "'w host \<Rightarrow> 'w GraphManager \<Rightarrow> 'w GraphManager \<Rightarrow> bool" for h where
  step_new: "newGraph h g s = (r, t) \<Longrightarrow> gm_step h s t"
| step_update: "updateGraph h i g s = (r, t) \<Longrightarrow> gm_step h s t"
| step_delete: "deleteGraph h i s = (r, t) \<Longrightarrow> gm_step h s t"
| step_lsi0_open: "lsi0_controllerS (\<lambda>c. bindR (handle_dpt_open (h_version h) wire c) (\<lambda>c. Inr (True, c))) s = (r, t) \<Longrightarrow>
    gm_step h s t"
| step_lsi0_close: "lsi0_controllerS (\<lambda>c. Inr (True, handle_dpt_close c)) s = (r, t) \<Longrightarrow> gm_step h s t"
| step_tenant_open:
    "tenant_controllerS i (\<lambda>c. bindR (handle_dpt_open (h_version h) wire c) (\<lambda>c. Inr (True, c))) s = (r, t) \<Longrightarrow>
       gm_step h s t"
| step_tenant_close: "tenant_controllerS i (\<lambda>c. Inr (True, handle_dpt_close c)) s = (r, t) \<Longrightarrow> gm_step h s t"
| step_world: "gm_step h s (s\<lparr>gm_world := w\<rparr>)"

inductive_cases gm_stepE: "gm_step h s t"

lemma gm_step_ok: "gm_step h s t \<Longrightarrow> keeps_ok s t"
  by (erule gm_stepE)
    (blast dest: movesD[OF newGraph_ok] movesD[OF updateGraph_ok] movesD[OF deleteGraph_ok] movesD[OF lsi0_controller_ok]
      movesD[OF tenant_controllerS_ok] | simp add: keeps_ok_def gm_ok_def)+

lemma reachable_ok: "(gm_step h)\<^sup>*\<^sup>* s t \<Longrightarrow> gm_ok s \<Longrightarrow> gm_ok t"
  by (induction rule: rtranclp_induct) (auto dest: gm_step_ok simp: keeps_ok_def)

text \<open>
  The manager stays well formed (C5). After the constructor and any sequence of requests, whether they
  succeed, return false, throw or fault, and of connections opening and closing: the identifiers of the
  graphs are in order and different, each recorded graph has a controller, a switch and a graph that
  carries its identifier, its JSON is that of this graph, and the LSI-0 has its switch and controller.
\<close>

theorem manager_well_formed:
  assumes "GraphManager_construct h m ports (GraphManager_init a b i z ip p d np nl pool w) = (Inr (), s0)"
    and "(gm_step h)\<^sup>*\<^sup>* s0 s"
  shows "sorted_wrt (<) (getGraphsNames s) \<and>
    (\<forall>i. graphExists i s \<longrightarrow> (\<exists>gi c l g. map_of (tenantLSIs s) i = Some gi \<and> gi_controller gi = Obj c \<and>
       gi_lsi gi = Obj l \<and> gi_graph gi = Obj g \<and> graph_ID g = i \<and>
       GraphManager_toJSON i s = (case HLGraph_toJSON g of
           Inl e \<Rightarrow> Inl (if thrown e then AssertFailure else e) | Inr j \<Rightarrow> Inr [(''forwarding-graph'', JObj j)]))) \<and>
    (\<exists>c l. gi_controller (graphInfoLSI0 s) = Obj c \<and> gi_lsi (graphInfoLSI0 s) = Obj l)"
proof -
  have ok: "gm_ok s" using reachable_ok[OF assms(2) constructed_ok[OF assms(1)]] .
  then have tenant: "tenant_ok i gi" if "map_of (tenantLSIs s) i = Some gi" for i gi
    using that by (simp add: gm_ok_def)
  have "\<exists>gi c l g. map_of (tenantLSIs s) i = Some gi \<and> gi_controller gi = Obj c \<and>
       gi_lsi gi = Obj l \<and> gi_graph gi = Obj g \<and> graph_ID g = i \<and>
       GraphManager_toJSON i s = (case HLGraph_toJSON g of
           Inl e \<Rightarrow> Inl (if thrown e then AssertFailure else e) | Inr j \<Rightarrow> Inr [(''forwarding-graph'', JObj j)])"
    if ex: "graphExists i s" for i
  proof -
    obtain gi where gi: "map_of (tenantLSIs s) i = Some gi" using ex by (auto simp: graphExists_def om_count_def)
    from tenant[OF gi] show ?thesis
      using gi by (auto simp: tenant_ok_def GraphManager_toJSON_def split: sum.split)
  qed
  then show ?thesis using ok by (auto simp: gm_ok_def getGraphsNames_def)
qed

theorem manager_well_formed_witness:
  "(gm_step sample_host)\<^sup>*\<^sup>* sample_start sample_running \<and> graphExists ''g'' sample_running \<and>
   sorted_wrt (<) (getGraphsNames sample_running)"
proof -
  have r: "(gm_step sample_host)\<^sup>*\<^sup>* sample_start sample_running"
    using step_new[OF sample_deployed] by (rule r_into_rtranclp)
  show ?thesis
    using manager_well_formed[OF sample_constructed r] r by (simp add: graphExists_def om_count_def sample_running_def)
qed

end
