(* ===== verification/Parse_Result.thy ===== *)
theory Parse_Result
  imports Json_Value
begin

text \<open>
  What a parser of the orchestrator does with its input: it goes on with a value, it returns
  \<open>false\<close>, or the process dies (a failed assertion, a null pointer, a read of memory nothing was
  stored in, a write behind a buffer). The exceptions of the JSON library all end in a
  \<open>return false\<close> of \<open>GraphParser::parseGraph\<close>, and what was built until then is thrown away, so they
  are rejections as well.
\<close>

type_synonym 'a parsed = "'a option result"

abbreviation accept :: "'a \<Rightarrow> 'a parsed" where
  "accept x \<equiv> Inr (Some x)"

abbreviation reject :: "'a parsed" where
  "reject \<equiv> Inr None"

definition bindP :: "'a parsed \<Rightarrow> ('a \<Rightarrow> 'b parsed) \<Rightarrow> 'b parsed" where
  "bindP p f = (case p of Inl e \<Rightarrow> Inl e | Inr None \<Rightarrow> reject | Inr (Some x) \<Rightarrow> f x)"

definition checkP :: "bool \<Rightarrow> unit parsed" where
  "checkP b = (if b then accept () else reject)"

definition needP :: "'a option \<Rightarrow> 'a parsed" where
  "needP p = Inr p"

definition sureP :: "'a result \<Rightarrow> 'a parsed" where
  "sureP r = bindR r (\<lambda>x. accept x)"

fun foldP :: "('a \<Rightarrow> 's \<Rightarrow> 's parsed) \<Rightarrow> 'a list \<Rightarrow> 's \<Rightarrow> 's parsed" where
  "foldP f [] s = accept s"
| "foldP f (x # xs) s = bindP (f x s) (foldP f xs)"

lemma bindP_simps [simp]:
  "bindP (Inl e) f = Inl e" "bindP (accept x) f = f x" "bindP reject f = reject"
  by (simp_all add: bindP_def)

lemma bindP_accept [simp]: "bindP p f = accept y \<longleftrightarrow> (\<exists>x. p = accept x \<and> f x = accept y)"
  by (auto simp: bindP_def split: sum.splits option.splits)

lemma bindP_Inl: "bindP p f = Inl e \<longleftrightarrow> p = Inl e \<or> (\<exists>x. p = accept x \<and> f x = Inl e)"
  by (auto simp: bindP_def split: sum.splits option.splits)

lemma checkP_simps [simp]:
  "checkP True = accept ()" "checkP False = reject"
  "checkP b = accept u \<longleftrightarrow> b" "checkP b \<noteq> Inl e"
  by (simp_all add: checkP_def)

lemma needP_simps [simp]:
  "needP (Some x) = accept x" "needP None = reject"
  "needP p = accept x \<longleftrightarrow> p = Some x" "needP p \<noteq> Inl e"
  by (simp_all add: needP_def)

lemma sureP_simps [simp]:
  "sureP (Inr x) = accept x" "sureP (Inl e) = Inl e"
  "sureP r = accept x \<longleftrightarrow> r = Inr x" "sureP r = Inl e \<longleftrightarrow> r = Inl e"
  by (cases r; simp add: sureP_def)+

lemma bindP_cong [fundef_cong]:
  "p = q \<Longrightarrow> (\<And>x. q = accept x \<Longrightarrow> f x = g x) \<Longrightarrow> bindP p f = bindP q g"
  by (auto simp: bindP_def split: sum.splits option.splits)

lemma bindP_assoc: "bindP (bindP p f) g = bindP p (\<lambda>x. bindP (f x) g)"
  by (simp add: bindP_def split: sum.split option.split)

lemma foldP_append: "foldP f (xs @ ys) s = bindP (foldP f xs s) (foldP f ys)"
  by (induction xs arbitrary: s) (simp_all add: bindP_assoc cong: bindP_cong)

text \<open>A property that every accepted step keeps holds at the end of an accepted loop.\<close>

lemma foldP_invariant:
  assumes "foldP f xs s = accept s'" "P s"
    and "\<And>x s s'. x \<in> set xs \<Longrightarrow> P s \<Longrightarrow> f x s = accept s' \<Longrightarrow> P s'"
  shows "P s'"
  using assms
proof (induction xs arbitrary: s)
  case (Cons x xs)
  from Cons.prems(1) obtain t where "f x s = accept t" "foldP f xs t = accept s'" by auto
  moreover from this have "P t" using Cons.prems(2,3) by auto
  ultimately show ?case using Cons.IH Cons.prems(3) by (meson list.set_intros(2))
qed simp

lemma foldP_no_fault:
  assumes "P s"
    and "\<And>x s. x \<in> set xs \<Longrightarrow> P s \<Longrightarrow> f x s \<noteq> Inl e"
    and "\<And>x s s'. x \<in> set xs \<Longrightarrow> P s \<Longrightarrow> f x s = accept s' \<Longrightarrow> P s'"
  shows "foldP f xs s \<noteq> Inl e"
  using assms
proof (induction xs arbitrary: s)
  case (Cons x xs)
  have "foldP f xs t \<noteq> Inl e" if "f x s = accept t" for t
    using Cons.IH[of t] Cons.prems that by (meson list.set_intros)
  then show ?case using Cons.prems(1,2) by (auto simp: bindP_Inl)
qed simp

end
