(* ===== verification/Address_Validator.thy ===== *)
theory Address_Validator
  imports UN_Prelude
begin

text \<open>
  \<open>graph/graph-parser/address_validator.cc\<close>: the checks of MAC and IP addresses and of masks that
  the parsers of a graph use. \<open>inet_pton\<close> is the C library's; it is written out for the two
  families, in the way the library scans the text.

  Shown here: the MAC check accepts every address written as six pairs of digits with colons or
  dashes, and the multicast test then looks at the right bit; what else the MAC check accepts; and
  that the mask check accepts exactly the masks whose ones stand in front.
\<close>

section \<open>MAC addresses\<close>

definition isxdigit :: "char \<Rightarrow> bool" where
  "isxdigit c = (hex_val c \<noteq> None)"

text \<open>The loop over the characters with its counters of digits and of separators.\<close>

fun mac_scan :: "string \<Rightarrow> int \<Rightarrow> int \<Rightarrow> int \<times> int" where
  "mac_scan [] i s = (i, s)"
| "mac_scan (c # cs) i s =
     (if isxdigit c then mac_scan cs (i + 1) s
      else if c = CHR '':'' \<or> c = CHR ''-'' then
        (if i = 0 \<or> i div 2 - 1 \<noteq> s then (i, s) else mac_scan cs i (s + 1))
      else mac_scan cs i (- 1))"

definition validateMac :: "string \<Rightarrow> bool" where
  "validateMac mac = (let (i, s) = mac_scan mac 0 0 in i = 12 \<and> (s = 5 \<or> s = 0))"

text \<open>
  The first number \<open>sscanf\<close> reads with \<open>%hhx\<close>; the octet stays 0 when there is none.
\<close>

definition first_octet :: "string \<Rightarrow> 8 word" where
  "first_octet mac = (case sscanf_x mac of None \<Rightarrow> 0 | Some v \<Rightarrow> ucast v)"

definition isUnicastMac :: "string \<Rightarrow> bool result" where
  "isUnicastMac mac =
     bindR (assertR (validateMac mac)) (\<lambda>_. Inr (and (first_octet mac) 1 = 0))"

section \<open>IP addresses\<close>

text \<open>
  \<open>inet_pton(AF_INET, s, _)\<close>: the octets that are complete, the octet being read (\<open>None\<close> when no
  digit of it was seen), and the rest of the text.
\<close>

fun inet_pton4 :: "nat list \<Rightarrow> nat option \<Rightarrow> string \<Rightarrow> nat list option" where
  "inet_pton4 os cur [] =
     (case cur of None \<Rightarrow> None | Some v \<Rightarrow> if length os = 3 then Some (os @ [v]) else None)"
| "inet_pton4 os cur (c # cs) =
     (if is_digit c then
        (case cur of
           None \<Rightarrow> if 4 \<le> length os then None else inet_pton4 os (Some (digit_val c)) cs
         | Some v \<Rightarrow>
             if v = 0 \<or> v * 10 + digit_val c > 255 then None
             else inet_pton4 os (Some (v * 10 + digit_val c)) cs)
      else if c = CHR ''.'' then
        (case cur of
           None \<Rightarrow> None
         | Some v \<Rightarrow> if length os = 3 then None else inet_pton4 (os @ [v]) None cs)
      else None)"

definition validateIpv4 :: "string \<Rightarrow> bool" where
  "validateIpv4 ipAddress = (inet_pton4 [] None ipAddress \<noteq> None)"

text \<open>
  \<open>inet_pton(AF_INET6, s, _)\<close>: the bytes written so far, where the double colon was, the
  digits seen of the current group, the text from the start of the group, and the rest.
\<close>

definition inet6_end :: "nat \<Rightarrow> bool \<Rightarrow> nat \<Rightarrow> bool" where
  "inet6_end tp colonp seen =
     (let tp' = (if seen > 0 then tp + 2 else tp)
      in tp' \<le> 16 \<and> (if colonp then tp' \<noteq> 16 else tp' = 16))"

fun inet6_scan :: "nat \<Rightarrow> bool \<Rightarrow> nat \<Rightarrow> string \<Rightarrow> string \<Rightarrow> bool" where
  "inet6_scan tp colonp seen curtok [] = inet6_end tp colonp seen"
| "inet6_scan tp colonp seen curtok (c # cs) =
     (if isxdigit c then seen \<noteq> 4 \<and> inet6_scan tp colonp (seen + 1) curtok cs
      else if c = CHR '':'' then
        (if seen = 0 then \<not> colonp \<and> inet6_scan tp True 0 cs cs
         else cs \<noteq> [] \<and> tp + 2 \<le> 16 \<and> inet6_scan (tp + 2) colonp 0 cs cs)
      else c = CHR ''.'' \<and> tp + 4 \<le> 16 \<and> inet_pton4 [] None curtok \<noteq> None \<and>
           inet6_end (tp + 4) colonp 0)"

definition inet_pton6 :: "string \<Rightarrow> bool" where
  "inet_pton6 s =
     (case s of
        [] \<Rightarrow> False
      | c # cs \<Rightarrow>
          if c = CHR '':''
          then (case cs of [] \<Rightarrow> False | c' # _ \<Rightarrow> c' = CHR '':'' \<and> inet6_scan 0 False 0 cs cs)
          else inet6_scan 0 False 0 s s)"

text \<open>
  The sixteen bytes of an IPv6 address go to a structure with room for twelve behind the address
  member; what lies behind the structure is not part of the model.
\<close>

definition validateIpv6 :: "string \<Rightarrow> bool" where
  "validateIpv6 ipAddress = inet_pton6 ipAddress"

section \<open>Masks\<close>

text \<open>
  The four numbers that \<open>sscanf\<close> reads with \<open>%d.%d.%d.%d\<close>, on the texts \<open>inet_pton\<close> accepts: digits
  and dots only.
\<close>

fun sscanf_quad :: "nat \<Rightarrow> string \<Rightarrow> int list" where
  "sscanf_quad 0 s = []"
| "sscanf_quad (Suc n) s =
     (case sscanf_d s of
        None \<Rightarrow> []
      | Some v \<Rightarrow>
          v # (case dropWhile is_digit s of
                 c # r \<Rightarrow> if c = CHR ''.'' then sscanf_quad n r else []
               | [] \<Rightarrow> []))"

fun mask_loop :: "nat \<Rightarrow> bool \<Rightarrow> 32 word \<Rightarrow> bool" where
  "mask_loop 0 zero m = True"
| "mask_loop (Suc n) zero m =
     (if and m 1 = 0 \<and> \<not> zero then False
      else mask_loop n (if and m 1 = 1 \<and> zero then False else zero) (drop_bit 1 m))"

definition quad_word :: "int list \<Rightarrow> 32 word" where
  "quad_word q =
     push_bit 24 (word_of_int (q ! 0)) + push_bit 16 (word_of_int (q ! 1)) +
     push_bit 8 (word_of_int (q ! 2)) + word_of_int (q ! 3)"

definition validateIpv4Netmask :: "string \<Rightarrow> bool result" where
  "validateIpv4Netmask netmask =
     (if \<not> validateIpv4 netmask then Inr False
      else let q = sscanf_quad 4 netmask
           in if length q = 4 then Inr (mask_loop 32 True (quad_word q)) else Inl Uninitialised)"

section \<open>MAC addresses written in the usual way\<close>

fun mac_text :: "char \<Rightarrow> (char \<times> char) list \<Rightarrow> string" where
  "mac_text sep [] = []"
| "mac_text sep [(a, b)] = [a, b]"
| "mac_text sep ((a, b) # p # ps) = a # b # sep # mac_text sep (p # ps)"

lemma separator_not_xdigit: "sep = CHR '':'' \<or> sep = CHR ''-'' \<Longrightarrow> \<not> isxdigit sep"
  by (auto simp: isxdigit_def hex_val_def)

lemma mac_scan_text:
  assumes "os \<noteq> []" "\<forall>(a, b) \<in> set os. isxdigit a \<and> isxdigit b" "sep = CHR '':'' \<or> sep = CHR ''-''"
  shows "mac_scan (mac_text sep os) (2 * int k) (int k) =
           (2 * int k + 2 * int (length os), int k + int (length os) - 1)"
  using assms
proof (induction sep os arbitrary: k rule: mac_text.induct)
  case (3 sep a b p ps)
  have "mac_scan (mac_text sep (p # ps)) (2 * int (Suc k)) (int (Suc k)) =
      (2 * int (Suc k) + 2 * int (length (p # ps)), int (Suc k) + int (length (p # ps)) - 1)"
    by (rule "3.IH") (use 3 in auto)
  moreover have "isxdigit a" "isxdigit b" using 3 by simp_all
  ultimately show ?case
    using 3(4) separator_not_xdigit[OF 3(4)] by (simp add: algebra_simps)
qed auto

lemma xdigit_start:
  "isxdigit a \<Longrightarrow> \<not> is_space a \<and> a \<noteq> CHR ''-'' \<and> a \<noteq> CHR ''+'' \<and> a \<noteq> CHR ''x'' \<and> a \<noteq> CHR ''X''"
  by (auto simp: isxdigit_def hex_val_def is_space_def)

lemma sscanf_x_pair:
  assumes "isxdigit a" "isxdigit b" "\<not> isxdigit sep"
  shows "sscanf_x (a # b # sep # r) = Some (of_nat (the (hex_val a) * 16 + the (hex_val b)))"
proof -
  have d: "the (hex_val c) < 16" if "isxdigit c" for c
    using that by (auto simp: isxdigit_def hex_val_def Let_def split: if_splits)
  have "takeWhile (\<lambda>c. hex_val c \<noteq> None) (a # b # sep # r) = [a, b]"
    using assms by (simp add: isxdigit_def)
  moreover have "min (the (hex_val a) * 16 + the (hex_val b)) (2 ^ 64 - 1) =
      the (hex_val a) * 16 + the (hex_val b)"
    using d[OF assms(1)] d[OF assms(2)] by simp
  ultimately have "scan_hex (a # b # sep # r) = Some (the (hex_val a) * 16 + the (hex_val b))"
    using xdigit_start[OF assms(2)] by (simp add: scan_hex_def Let_def)
  then show ?thesis
    using xdigit_start[OF assms(1)] by (simp add: sscanf_x_def)
qed

lemma first_octet_even:
  assumes "isxdigit a" "isxdigit b" "\<not> isxdigit sep"
  shows "and (first_octet (a # b # sep # r)) 1 = 0 \<longleftrightarrow> even (the (hex_val b))"
proof -
  let ?n = "the (hex_val a) * 16 + the (hex_val b)"
  have "first_octet (a # b # sep # r) = of_nat ?n"
    unfolding first_octet_def sscanf_x_pair[OF assms] option.case unsigned_of_nat
    by (rule bit_word_eqI) (simp add: bit_of_nat_iff bit_take_bit_iff del: of_nat_add of_nat_mult)
  moreover have "and (of_nat ?n :: 8 word) 1 = 0 \<longleftrightarrow> even ?n"
    by (simp add: and_one_eq even_word_iff mod_2_eq_odd bit_of_nat_iff bit_0 flip: bit_0
        del: of_nat_add of_nat_mult) (simp add: bit_0)
  ultimately show ?thesis by simp
qed

text \<open>
  (C33) Every MAC address written as six pairs of hexadecimal digits with colons or dashes is
  accepted, and the address counts as unicast exactly if the lowest bit of the first octet is 0.
\<close>

theorem mac_addresses_checked:
  assumes "length os = 6" "\<forall>(a, b) \<in> set os. isxdigit a \<and> isxdigit b"
    "sep = CHR '':'' \<or> sep = CHR ''-''"
  shows "validateMac (mac_text sep os) \<and>
         isUnicastMac (mac_text sep os) = Inr (even (the (hex_val (snd (hd os)))))"
proof -
  obtain a b p ps where os: "os = (a, b) # p # ps"
    using assms(1) by (cases os; cases "tl os") auto
  have "validateMac (mac_text sep os)"
    using mac_scan_text[of os sep 0] assms os by (simp add: validateMac_def)
  moreover have "mac_text sep os = a # b # sep # mac_text sep (p # ps)" by (simp add: os)
  ultimately show ?thesis
    using first_octet_even[of a b sep] assms(2) separator_not_xdigit[OF assms(3)]
    by (simp add: isUnicastMac_def os)
qed

theorem mac_addresses_checked_witness:
  "validateMac ''0a:1B:2c:3d:4e:5f'' \<and> isUnicastMac ''0a:1B:2c:3d:4e:5f'' = Inr True"
  using mac_addresses_checked[of "[(CHR ''0'', CHR ''a''), (CHR ''1'', CHR ''B''),
     (CHR ''2'', CHR ''c''), (CHR ''3'', CHR ''d''), (CHR ''4'', CHR ''e''), (CHR ''5'', CHR ''f'')]"
     "CHR '':''"]
  by (simp add: isxdigit_def hex_val_def)

section \<open>Masks are ones followed by zeros\<close>

lemma inet_pton4_octet:
  assumes "inet_pton4 acc (Some v) s = Some os" "v \<le> 255"
  shows "let w = foldl (\<lambda>acc c. acc * 10 + digit_val c) v (takeWhile is_digit s)
         in w \<le> 255 \<and>
            (dropWhile is_digit s = [] \<and> length acc = 3 \<and> os = acc @ [w] \<or>
             (\<exists>r. dropWhile is_digit s = CHR ''.'' # r \<and> length acc \<noteq> 3 \<and>
                  inet_pton4 (acc @ [w]) None r = Some os))"
  using assms
proof (induction s arbitrary: v)
  case (Cons c cs)
  then show ?case
    by (cases "is_digit c") (auto simp: Let_def split: if_splits)
qed (auto split: if_splits)

lemma inet_pton4_step:
  assumes "inet_pton4 acc None s = Some os"
  obtains w where "sscanf_d s = Some (int w)"
    "dropWhile is_digit s = [] \<and> length acc = 3 \<and> os = acc @ [w] \<or>
     (\<exists>r. dropWhile is_digit s = CHR ''.'' # r \<and> length acc \<noteq> 3 \<and>
          inet_pton4 (acc @ [w]) None r = Some os)"
proof -
  obtain c cs where s: "s = c # cs" and c: "is_digit c"
    and cur: "inet_pton4 acc (Some (digit_val c)) cs = Some os"
    using assms by (cases s) (auto split: if_splits)
  define w where "w = foldl (\<lambda>acc c. acc * 10 + digit_val c) (digit_val c) (takeWhile is_digit cs)"
  have "digit_val c \<le> 255"
    using c unfolding is_digit_def digit_val_def by linarith
  from inet_pton4_octet[OF cur this]
  have w: "w \<le> 255" and r: "dropWhile is_digit s = [] \<and> length acc = 3 \<and> os = acc @ [w] \<or>
      (\<exists>r. dropWhile is_digit s = CHR ''.'' # r \<and> length acc \<noteq> 3 \<and>
           inet_pton4 (acc @ [w]) None r = Some os)"
    using c by (simp_all add: Let_def w_def s)
  have "dec_val (takeWhile is_digit (c # cs)) = w"
    using c by (simp add: dec_val_def w_def)
  then have "scan_digits (c # cs) = Some w"
    using w c by (simp add: scan_digits_def Let_def)
  moreover have "\<not> is_space c" "c \<noteq> CHR ''-''" "c \<noteq> CHR ''+''"
    using c by (auto simp: is_space_def is_digit_def)
  moreover have "sint (word_of_int (min (int w) (2 ^ 63 - 1)) :: 32 word) = int w"
    using w by (simp add: min_def signed_take_bit_int_eq_self_iff signed_of_int
        del: of_int_of_nat_eq)
  ultimately have "sscanf_d s = Some (int w)"
    by (simp add: sscanf_d_def s Let_def)
  with r show thesis by (rule that[rotated])
qed

lemma sscanf_quad_octets:
  "inet_pton4 acc None s = Some os \<Longrightarrow> length acc + n = 4 \<Longrightarrow> 0 < n \<Longrightarrow>
     \<exists>vs. os = acc @ vs \<and> length vs = n \<and> sscanf_quad n s = map int vs"
proof (induction n arbitrary: acc s)
  case (Suc n)
  from Suc.prems(1) obtain w where w: "sscanf_d s = Some (int w)"
    and r: "dropWhile is_digit s = [] \<and> length acc = 3 \<and> os = acc @ [w] \<or>
     (\<exists>r. dropWhile is_digit s = CHR ''.'' # r \<and> length acc \<noteq> 3 \<and>
          inet_pton4 (acc @ [w]) None r = Some os)"
    by (rule inet_pton4_step)
  from r show ?case
  proof (elim disjE exE conjE)
    fix r assume r: "dropWhile is_digit s = CHR ''.'' # r" "length acc \<noteq> 3"
      "inet_pton4 (acc @ [w]) None r = Some os"
    with Suc.prems obtain vs where "os = acc @ [w] @ vs" "length vs = n" "sscanf_quad n r = map int vs"
      using Suc.IH[OF r(3)] by auto
    then show ?thesis using w r(1) by (intro exI[of _ "w # vs"]) simp
  qed (use Suc.prems w in \<open>auto split: list.split\<close>)
qed simp

lemma mask_loop_bits:
  "mask_loop n zero m \<longleftrightarrow>
     (if zero then \<exists>k \<le> n. \<forall>i < n. bit m i = (k \<le> i) else \<forall>i < n. bit m i)"
proof (induction n arbitrary: zero m)
  case (Suc n)
  have ones: "(\<forall>i < Suc n. bit m i) \<longleftrightarrow> bit m 0 \<and> (\<forall>i < n. bit m (Suc i))"
    by (auto simp: less_Suc_eq_0_disj)
  have zeros: "(\<exists>k \<le> Suc n. \<forall>i < Suc n. bit m i = (k \<le> i)) \<longleftrightarrow>
      (if bit m 0 then \<forall>i < n. bit m (Suc i) else \<exists>k \<le> n. \<forall>i < n. bit m (Suc i) = (k \<le> i))"
    (is "?l \<longleftrightarrow> ?r")
  proof
    assume ?l
    then obtain k where "k \<le> Suc n" "\<forall>i < Suc n. bit m i = (k \<le> i)" by blast
    then show ?r by (cases k) (auto simp: less_Suc_eq_0_disj)
  next
    assume r: ?r
    show ?l
    proof (cases "bit m 0")
      case False
      with r obtain k where "k \<le> n" "\<forall>i < n. bit m (Suc i) = (k \<le> i)" by auto
      with False show ?l by (intro exI[of _ "Suc k"]) (auto simp: less_Suc_eq_0_disj)
    qed (use r in \<open>auto simp: less_Suc_eq_0_disj intro!: exI[of _ 0]\<close>)
  qed
  have "and m 1 = (if bit m 0 then 1 else 0)"
    by (simp add: and_one_eq bit_0 mod_2_eq_odd)
  then show ?case
    by (auto simp: Suc ones zeros bit_drop_bit_eq)
qed auto

lemma mask_loop_iff: "mask_loop 32 True m \<longleftrightarrow> (\<exists>k \<le> 32. m = not (mask k))"
proof -
  have "(\<forall>i < 32. bit m i = (k \<le> i)) \<longleftrightarrow> m = not (mask k)" for k
    by (auto simp: bit_eq_iff bit_not_iff bit_mask_iff not_less dest: bit_imp_le_length)
  then show ?thesis by (simp add: mask_loop_bits)
qed

lemma validateIpv4Netmask_no_fault: "validateIpv4Netmask s \<noteq> Inl e"
  using sscanf_quad_octets[of "[]" s _ 4]
  by (auto simp: validateIpv4Netmask_def validateIpv4_def Let_def)

text \<open>
  (C32) A text is accepted as a mask exactly if it is an IPv4 address of which, as a 32-bit number,
  some number of the low bits are 0 and all the others are 1; the check never reads a number that
  \<open>sscanf\<close> did not store.
\<close>

theorem netmask_ones_then_zeros:
  "validateIpv4Netmask s =
     Inr (case inet_pton4 [] None s of
            None \<Rightarrow> False
          | Some os \<Rightarrow> \<exists>k \<le> 32. quad_word (map int os) = not (mask k))"
proof (cases "inet_pton4 [] None s")
  case (Some os)
  with sscanf_quad_octets[of "[]" s os 4]
  have "length os = 4" "sscanf_quad 4 s = map int os" by auto
  with Some show ?thesis
    by (simp add: validateIpv4Netmask_def validateIpv4_def mask_loop_iff)
qed (simp add: validateIpv4Netmask_def validateIpv4_def)

section \<open>What else counts as a MAC address\<close>

lemma mac_scan_digits:
  "\<forall>c \<in> set ds. isxdigit c \<Longrightarrow> mac_scan (ds @ r) i s = mac_scan r (i + int (length ds)) s"
  by (induction ds arbitrary: i) (auto simp: algebra_simps)

lemma hex_value_even:
  "ds \<noteq> [] \<Longrightarrow> even (foldl (\<lambda>acc c. acc * 16 + the (hex_val c)) n ds) = even (the (hex_val (last ds)))"
  by (induction ds rule: rev_induct) simp_all

lemma twelve_digits_below: 
  assumes "length ds \<le> 12" "\<forall>c \<in> set ds. isxdigit c"
  shows "foldl (\<lambda>acc c. acc * 16 + the (hex_val c)) 0 ds < 2 ^ 64"
proof -
  have d: "the (hex_val c) < 16" if "isxdigit c" for c
    using that by (auto simp: isxdigit_def hex_val_def Let_def split: if_splits)
  have "foldl (\<lambda>acc c. acc * 16 + the (hex_val c)) 0 ds < 16 ^ length ds"
    using assms(2)
  proof (induction ds rule: rev_induct)
    case (snoc c ds)
    with d[of c] show ?case by simp
  qed simp
  also have "(16 :: nat) ^ length ds \<le> 16 ^ 12"
    using assms(1) by (intro power_increasing) simp_all
  finally show ?thesis by simp
qed

text \<open>
  (C34) Twelve digits without separators are accepted whatever follows behind a colon, and the
  multicast test then looks at the last of the digits instead of the first octet.
\<close>

theorem mac_digits_without_separators:
  assumes "length ds = 12" "\<forall>c \<in> set ds. isxdigit c"
  shows "validateMac (ds @ CHR '':'' # r) \<and>
         isUnicastMac (ds @ CHR '':'' # r) = Inr (even (the (hex_val (last ds))))"
proof -
  let ?v = "foldl (\<lambda>acc c. acc * 16 + the (hex_val c)) 0 ds"
  obtain a b cs where ds: "ds = a # b # cs"
    using assms(1) by (cases ds; cases "tl ds") auto
  have v: "validateMac (ds @ CHR '':'' # r)"
    using assms by (simp add: validateMac_def mac_scan_digits isxdigit_def hex_val_def)
  have ab: "\<not> is_space a" "a \<noteq> CHR ''-''" "a \<noteq> CHR ''+''" "b \<noteq> CHR ''x''" "b \<noteq> CHR ''X''"
    using assms(2) xdigit_start[of a] xdigit_start[of b] by (simp_all add: ds)
  have "takeWhile (\<lambda>c. hex_val c \<noteq> None) (ds @ CHR '':'' # r) = ds"
    using assms(2) separator_not_xdigit[of "CHR '':''"]
    by (auto simp: isxdigit_def takeWhile_append)
  then have "scan_hex (ds @ CHR '':'' # r) = Some ?v"
    using ab twelve_digits_below[of ds] assms by (simp add: scan_hex_def Let_def ds)
  then have "sscanf_x (ds @ CHR '':'' # r) = Some (of_nat ?v)"
    using ab by (simp add: sscanf_x_def ds)
  then have "first_octet (ds @ CHR '':'' # r) = of_nat ?v"
    unfolding first_octet_def
    by (simp add: unsigned_of_nat) (rule bit_word_eqI, simp add: bit_of_nat_iff bit_take_bit_iff)
  then have "and (first_octet (ds @ CHR '':'' # r)) 1 = 0 \<longleftrightarrow> even ?v"
    by (simp add: and_one_eq mod_2_eq_odd bit_of_nat_iff bit_0 flip: bit_0) (simp add: bit_0)
  then show ?thesis
    using v hex_value_even[of ds 0] by (simp add: isUnicastMac_def ds)
qed

theorem mac_digits_without_separators_witness:
  "validateMac ''010000000000:not an address'' \<and>
   isUnicastMac ''010000000000:not an address'' = Inr True"
  using mac_digits_without_separators[of "''010000000000''" "''not an address''"]
  by (simp add: isxdigit_def hex_val_def)

end
