(* ===== verification/Match_Parser.thy ===== *)
theory Match_Parser
  imports High_Level_Graph Address_Validator Parse_Result
begin

text \<open>
  \<open>graph/graph-parser/match_parser.cc\<close>: from the \<open>match\<close> object of a rule to a
  \<open>highlevel::Match\<close>. The members of the object are visited in the order of their keys.

  Shown here: which member of the match comes from which key, for every accepted object; that the
  parser reaches its end unless the conditions listed are violated; and the values it stores for
  numbers, in and out of range.
\<close>

section \<open>Numbers\<close>

text \<open>
  \<open>%d\<close> and \<open>%i\<close> of \<open>sscanf\<close> as the long that is read; \<open>%hd\<close>, \<open>%d\<close> and \<open>%ld\<close> store its low bits.
  With \<open>%i\<close> the number is hexadecimal after \<open>0x\<close> and octal after another \<open>0\<close>.
\<close>

definition scan_oct :: "string \<Rightarrow> nat option" where
  "scan_oct s =
     (let ds = takeWhile (\<lambda>c. is_digit c \<and> digit_val c < 8) s
      in if ds = [] then None
         else Some (min (foldl (\<lambda>acc c. acc * 8 + digit_val c) 0 ds) (2 ^ 64 - 1)))"

definition scan_any_base :: "string \<Rightarrow> nat option" where
  "scan_any_base s =
     (case s of
        z # x # _ \<Rightarrow>
          if z = CHR ''0'' \<and> (x = CHR ''x'' \<or> x = CHR ''X'') then scan_hex s
          else if z = CHR ''0'' then scan_oct s else scan_digits s
      | _ \<Rightarrow> scan_digits s)"

definition scan_signed :: "(string \<Rightarrow> nat option) \<Rightarrow> string \<Rightarrow> int option" where
  "scan_signed scan s =
     (case dropWhile is_space s of
        [] \<Rightarrow> None
      | c # r \<Rightarrow>
          if c = CHR ''-'' then map_option (\<lambda>n. max (- int n) (- (2 ^ 63))) (scan r)
          else if c = CHR ''+'' then map_option (\<lambda>n. min (int n) (2 ^ 63 - 1)) (scan r)
          else map_option (\<lambda>n. min (int n) (2 ^ 63 - 1)) (scan (c # r)))"

definition sscanf_ld :: "string \<Rightarrow> int option" where
  "sscanf_ld = scan_signed scan_digits"

definition sscanf_li :: "string \<Rightarrow> int option" where
  "sscanf_li = scan_signed scan_any_base"

section \<open>Names of ports\<close>

text \<open>The names are copied to buffers of \<open>BUFFER_SIZE\<close> bytes before they are taken apart.\<close>

definition BUFFER_SIZE :: nat where
  "BUFFER_SIZE = 20480"

definition strcpy :: "string \<Rightarrow> string result" where
  "strcpy s = (if length s < BUFFER_SIZE then Inr s else Inl OutOfBounds)"

definition nfId :: "string \<Rightarrow> string result" where
  "nfId id_port =
     bindR (strcpy id_port) (\<lambda>tmp. Inr (case strtok CHR '':'' tmp of pnt # _ \<Rightarrow> pnt | [] \<Rightarrow> ''''))"

definition graphID :: "string \<Rightarrow> string result" where
  "graphID name_port = nfId name_port"

definition nfPort :: "string \<Rightarrow> (32 word) result" where
  "nfPort name_port =
     bindR (strcpy name_port) (\<lambda>tmp. Inr (case strtok CHR '':'' tmp of
       _ # pnt # _ \<Rightarrow> (case sscanf_u pnt of None \<Rightarrow> 0 | Some port \<Rightarrow> port)
     | _ \<Rightarrow> 0))"

definition nfIsPort :: "string \<Rightarrow> bool result" where
  "nfIsPort name_port =
     bindR (strcpy name_port) (\<lambda>tmp. Inr (case strtok CHR '':'' tmp of
       _ # pnt # _ \<Rightarrow> True
     | _ \<Rightarrow> False))"

definition epName :: "string \<Rightarrow> string result" where
  "epName name_port =
     bindR (strcpy name_port) (\<lambda>tmp. Inr (case strtok CHR '':'' tmp of
       _ # pnt # _ \<Rightarrow> pnt
     | _ \<Rightarrow> ''''))"

definition epPort :: "string \<Rightarrow> (32 word) result" where
  "epPort name_port = nfPort name_port"

datatype port_type = VNF_PORT_TYPE | EP_PORT_TYPE

definition port_type_of :: "string list \<Rightarrow> port_type" where
  "port_type_of ps =
     (case ps of pnt # _ \<Rightarrow> if pnt = ''endpoint'' then EP_PORT_TYPE else VNF_PORT_TYPE
      | [] \<Rightarrow> VNF_PORT_TYPE)"

text \<open>
  The buffer \<open>vnf_id_tmp\<close> after the loop over the pieces: the second piece, a colon, and the fourth
  piece if there is one. With fewer than two pieces nothing was stored.
\<close>

definition vnf_id_tmp :: "string list \<Rightarrow> string option" where
  "vnf_id_tmp ps =
     (case ps of
        _ # a # rest \<Rightarrow> Some (a @ '':'' @ (case rest of _ # d # _ \<Rightarrow> d | _ \<Rightarrow> ''''))
      | _ \<Rightarrow> None)"

definition vnf_and_port :: "string list \<Rightarrow> (string \<times> 32 word) parsed" where
  "vnf_and_port ps =
     (case vnf_id_tmp ps of
        None \<Rightarrow> Inl Uninitialised
      | Some vn \<Rightarrow>
          bindP (sureP (nfId vn)) (\<lambda>nf_name.
          bindP (sureP (nfPort vn)) (\<lambda>port.
          bindP (sureP (nfIsPort vn)) (\<lambda>is_port.
            if nf_name = '''' \<or> \<not> is_port then reject else accept (nf_name, port + 1)))))"

text \<open>What the endpoints of the graph, parsed before, say about an identifier.\<close>

record endpoint_ids =
  iface_id :: "(string, string) omap"
  internal_id :: "(string, string) omap"
  vlan_id :: "(string, string \<times> string) omap"
  gre_id :: "(string, string) omap"

datatype endpoint_found =
    Iface string
  | Internal string
  | Vlan string string
  | Gre
  | NotFound

definition find_endpoint :: "endpoint_ids \<Rightarrow> string \<Rightarrow> endpoint_found" where
  "find_endpoint ids eP =
     (if eP = '''' then NotFound
      else case map_of (iface_id ids) eP of
        Some realName \<Rightarrow> Iface realName
      | None \<Rightarrow> (case map_of (internal_id ids) eP of
          Some internal_group \<Rightarrow> Internal internal_group
        | None \<Rightarrow> (case map_of (vlan_id ids) eP of
            Some (v_id, interface) \<Rightarrow> Vlan v_id interface
          | None \<Rightarrow> (case map_of (gre_id ids) eP of Some _ \<Rightarrow> Gre | None \<Rightarrow> NotFound))))"

section \<open>The place where the traffic enters\<close>

definition add_to_action :: "GenericAction \<Rightarrow> HLAction option \<Rightarrow> HLAction option result" where
  "add_to_action ga act =
     (case act of None \<Rightarrow> Inl NullPointer | Some a \<Rightarrow> Inr (Some (addGenericAction ga a)))"

text \<open>
  The label of a VLAN endpoint starts from 0, so the test for a bad number, which asks for a failed
  conversion and a number above 4094, never succeeds.
\<close>

definition vlan_label_of :: "string \<Rightarrow> 32 word" where
  "vlan_label_of v_id = (case sscanf_ld v_id of None \<Rightarrow> 0 | Some v \<Rightarrow> word_of_int v)"

definition match_on_endpoint ::
    "endpoint_found \<Rightarrow> string \<Rightarrow> HLMatch \<Rightarrow> HLAction option \<Rightarrow> (HLMatch \<times> HLAction option) parsed" where
  "match_on_endpoint ep eP m act =
     (case ep of
        Iface realName \<Rightarrow> accept (snd (setInputPort realName m), act)
      | Internal grp \<Rightarrow>
          if grp = '''' then reject else accept (snd (setEndPointInternal grp m), act)
      | Vlan v_id interface \<Rightarrow>
          let vlan = vlan_label_of v_id;
              m = setEndpointVlanID (ucast vlan) m;
              m = snd (setInputPort interface m)
          in bindP (sureP (add_to_action (VlanAction ACTION_ENDPOINT_VLAN_POP '''' (ucast vlan)) act))
               (\<lambda>act. accept (m, act))
      | Gre \<Rightarrow> accept (snd (setEndPointGre eP m), act)
      | NotFound \<Rightarrow> accept (m, act))"

definition name_the_entry :: "string list \<Rightarrow> string \<Rightarrow> HLMatch \<Rightarrow> HLMatch" where
  "name_the_entry ps s m =
     (case ps of
        pnt # _ \<Rightarrow>
          if pnt = ''vnf'' then snd (setNFEndpointPort s m)
          else if pnt = ''endpoint'' then snd (setInputEndpoint s m) else m
      | [] \<Rightarrow> m)"

definition parse_port_in ::
    "endpoint_ids \<Rightarrow> string \<Rightarrow> HLMatch \<Rightarrow> HLAction option \<Rightarrow> (HLMatch \<times> HLAction option) parsed" where
  "parse_port_in ids s m act =
     bindP (sureP (strcpy s)) (\<lambda>tmp.
       let ps = strtok CHR '':'' tmp; m = name_the_entry ps s m
       in case port_type_of ps of
            VNF_PORT_TYPE \<Rightarrow>
              bindP (vnf_and_port ps) (\<lambda>(nf_name, port). accept (snd (setNFport nf_name port m), act))
          | EP_PORT_TYPE \<Rightarrow>
              bindP (sureP (epName s)) (\<lambda>eP. match_on_endpoint (find_endpoint ids eP) eP m act))"

section \<open>The fields of the packet\<close>

definition mac_value :: "string \<Rightarrow> (string \<Rightarrow> HLMatch \<Rightarrow> HLMatch) \<Rightarrow> HLMatch \<Rightarrow> HLMatch parsed" where
  "mac_value s setter m = (if validateMac s then accept (setter s m) else reject)"

definition ipv4_value :: "string \<Rightarrow> (string \<Rightarrow> HLMatch \<Rightarrow> HLMatch) \<Rightarrow> HLMatch \<Rightarrow> HLMatch parsed" where
  "ipv4_value s setter m = (if validateIpv4 s then accept (setter s m) else reject)"

definition ipv6_value :: "string \<Rightarrow> (string \<Rightarrow> HLMatch \<Rightarrow> HLMatch) \<Rightarrow> HLMatch \<Rightarrow> HLMatch parsed" where
  "ipv6_value s setter m = (if validateIpv6 s then accept (setter s m) else reject)"

definition mask_value :: "string \<Rightarrow> (string \<Rightarrow> HLMatch \<Rightarrow> HLMatch) \<Rightarrow> HLMatch \<Rightarrow> HLMatch parsed" where
  "mask_value s setter m =
     bindP (sureP (validateIpv4Netmask s)) (\<lambda>ok. if ok then accept (setter s m) else reject)"

text \<open>An octet, read with \<open>%hd\<close> into 16 bits; a short, read into 32 bits; a number of 64 bits.\<close>

definition octet_value :: "string \<Rightarrow> (8 word \<Rightarrow> HLMatch \<Rightarrow> HLMatch) \<Rightarrow> HLMatch \<Rightarrow> HLMatch parsed" where
  "octet_value s setter m =
     (case sscanf_ld s of
        None \<Rightarrow> reject
      | Some v \<Rightarrow>
          let w = word_of_int v :: 16 word
          in if 255 < w then reject else accept (setter (ucast w) m))"

definition short_value ::
    "int option \<Rightarrow> (16 word \<Rightarrow> HLMatch \<Rightarrow> HLMatch) \<Rightarrow> HLMatch \<Rightarrow> HLMatch parsed" where
  "short_value r setter m =
     (case r of
        None \<Rightarrow> reject
      | Some v \<Rightarrow>
          let w = word_of_int v :: 32 word
          in if 65535 < w then reject else accept (setter (ucast w) m))"

definition long_value ::
    "64 word \<Rightarrow> string \<Rightarrow> (32 word \<Rightarrow> HLMatch \<Rightarrow> HLMatch) \<Rightarrow> HLMatch \<Rightarrow> HLMatch parsed" where
  "long_value limit s setter m =
     (case sscanf_ld s of
        None \<Rightarrow> reject
      | Some v \<Rightarrow>
          let w = word_of_int v :: 64 word
          in if limit < w then reject else accept (setter (ucast w) m))"

text \<open>
  The identifier of a VLAN: the test for a bad number joins its two parts with \<open>&&\<close>, so a number
  is never rejected, and a text that is no number makes the test read a variable without a value.
\<close>

definition vlan_value :: "string \<Rightarrow> HLMatch \<Rightarrow> HLMatch parsed" where
  "vlan_value s m =
     (if s = ''ANY'' then accept (setVlanIDAnyVlan m)
      else if s = ''NO_VLAN'' then accept (setVlanIDNoVlan m)
      else case sscanf_li s of
        None \<Rightarrow> Inl Uninitialised
      | Some v \<Rightarrow> accept (setVlanID (ucast (word_of_int v :: 32 word)) m))"

text \<open>
  The chain of the keys, in the order of the code; the last argument of a part is what its last
  \<open>else\<close> leads to.
\<close>

definition parse_link :: "string \<Rightarrow> string \<Rightarrow> HLMatch \<Rightarrow> HLMatch parsed \<Rightarrow> HLMatch parsed" where
  "parse_link name s m other =
     (if name = ''hard_timeout'' then accept m
      else if name = ''ether_type'' then short_value (sscanf_li s) setEthType m
      else if name = ''vlan_id'' then vlan_value s m
      else if name = ''vlan_priority'' then accept m
      else if name = ''source_mac'' then mac_value s setEthSrc m
      else if name = ''eth_src_mask'' then mac_value s setEthSrcMask m
      else if name = ''dest_mac'' then mac_value s setEthDst m
      else if name = ''eth_dst_mask'' then mac_value s setEthDstMask m
      else if name = ''vlan_pcp'' then octet_value s setVlanPCP m
      else other)"

definition parse_ip :: "string \<Rightarrow> string \<Rightarrow> HLMatch \<Rightarrow> HLMatch parsed \<Rightarrow> HLMatch parsed" where
  "parse_ip name s m other =
     (if name = ''ip_dscp'' then octet_value s setIpDSCP m
      else if name = ''ip_ecn'' then octet_value s setIpECN m
      else if name = ''source_ip'' then
        (if CHR '':'' \<in> set s then ipv6_value s setIpv6Src m else ipv4_value s setIpv4Src m)
      else if name = ''ipv4_src_mask'' then mask_value s setIpv4SrcMask m
      else if name = ''dest_ip'' then
        (if CHR '':'' \<in> set s then ipv6_value s setIpv6Dst m else ipv4_value s setIpv4Dst m)
      else if name = ''ipv4_dst_mask'' then mask_value s setIpv4DstMask m
      else if name = ''tos_bits'' then accept m
      else other)"

definition parse_transport :: "string \<Rightarrow> string \<Rightarrow> HLMatch \<Rightarrow> HLMatch parsed \<Rightarrow> HLMatch parsed" where
  "parse_transport name s m other =
     (if name = ''source_port'' then short_value (sscanf_ld s) setTransportSrcPort m
      else if name = ''sctp_src'' then short_value (sscanf_ld s) setTransportSrcPort m
      else if name = ''dest_port'' then short_value (sscanf_ld s) setTransportDstPort m
      else if name = ''sctp_dst'' then short_value (sscanf_ld s) setTransportDstPort m
      else if name = ''icmpv4_type'' then octet_value s setIcmpv4Type m
      else if name = ''icmpv4_code'' then octet_value s setIcmpv4Code m
      else other)"

definition parse_arp :: "string \<Rightarrow> string \<Rightarrow> HLMatch \<Rightarrow> HLMatch parsed \<Rightarrow> HLMatch parsed" where
  "parse_arp name s m other =
     (if name = ''arp_opcode'' then short_value (sscanf_ld s) setArpOpCode m
      else if name = ''arp_spa'' then ipv4_value s setArpSpa m
      else if name = ''arp_spa_mask'' then mask_value s setArpSpaMask m
      else if name = ''arp_tpa'' then ipv4_value s setArpTpa m
      else if name = ''arp_tpa_mask'' then mask_value s setArpTpaMask m
      else if name = ''arp_sha'' then mac_value s setArpSha m
      else if name = ''arp_tha'' then mac_value s setArpTha m
      else other)"

definition parse_ipv6 :: "string \<Rightarrow> string \<Rightarrow> HLMatch \<Rightarrow> HLMatch parsed \<Rightarrow> HLMatch parsed" where
  "parse_ipv6 name s m other =
     (if name = ''ipv6_src_mask'' then ipv6_value s setIpv6SrcMask m
      else if name = ''ipv6_dst_mask'' then ipv6_value s setIpv6DstMask m
      else if name = ''ipv6_flabel'' then long_value 4294967295 s setIpv6Flabel m
      else if name = ''ipv6_nd_target'' then accept (setIpv6NdTarget s m)
      else if name = ''ipv6_nd_sll'' then accept (setIpv6NdSll s m)
      else if name = ''ipv6_nd_tll'' then accept (setIpv6NdTll s m)
      else if name = ''icmpv6_type'' then octet_value s setIcmpv6Type m
      else if name = ''icmpv6_code'' then octet_value s setIcmpv6Code m
      else other)"

definition parse_mpls :: "string \<Rightarrow> string \<Rightarrow> HLMatch \<Rightarrow> HLMatch parsed \<Rightarrow> HLMatch parsed" where
  "parse_mpls name s m other =
     (if name = ''mpls_label'' then long_value 1048575 s setMplsLabel m
      else if name = ''mpls_tc'' then octet_value s setMplsTC m
      else if name = ''protocol'' then octet_value s setIpProto m
      else other)"

definition parse_field :: "string \<Rightarrow> string \<Rightarrow> HLMatch \<Rightarrow> HLMatch parsed" where
  "parse_field name s m =
     parse_link name s m
    (parse_ip name s m
    (parse_transport name s m
    (parse_arp name s m
    (parse_ipv6 name s m
    (parse_mpls name s m reject)))))"

lemmas parse_field_parts = parse_link_def parse_ip_def parse_transport_def parse_arp_def
  parse_ipv6_def parse_mpls_def

section \<open>The whole match\<close>

text \<open>
  \<open>foundEndPointID\<close> and \<open>definedInCurrentGraph\<close> are never set, so the test behind the loop that
  needs them never succeeds.
\<close>

record match_vars =
  foundOne :: bool
  foundProtocolField :: bool
  pm_match :: HLMatch
  pm_action :: "HLAction option"

definition parse_member :: "endpoint_ids \<Rightarrow> string \<times> jvalue \<Rightarrow> match_vars \<Rightarrow> match_vars parsed" where
  "parse_member ids = (\<lambda>(name, value) st.
     bindP (needP (jstr value)) (\<lambda>s.
       if name = ''port_in'' then
         (if foundOne st then reject
          else bindP (parse_port_in ids s (pm_match st) (pm_action st)) (\<lambda>(m, act).
                 accept (st\<lparr>foundOne := True, pm_match := m, pm_action := act\<rparr>)))
       else bindP (parse_field name s (pm_match st)) (\<lambda>m.
              accept (st\<lparr>pm_match := m, foundProtocolField := foundProtocolField st \<or>
                name \<notin> {''hard_timeout'', ''vlan_priority'', ''ip_dscp'', ''tos_bits''}\<rparr>))))"

definition parseMatch ::
    "endpoint_ids \<Rightarrow> jobject \<Rightarrow> HLMatch \<Rightarrow> HLAction option \<Rightarrow> (HLMatch \<times> HLAction option) parsed" where
  "parseMatch ids obj m act =
     bindP (foldP (parse_member ids) obj
              \<lparr>foundOne = False, foundProtocolField = False, pm_match = m, pm_action = act\<rparr>) (\<lambda>st.
     let foundEndPointID = False; definedInCurrentGraph = False
     in if \<not> foundOne st then reject
        else if foundProtocolField st \<and> foundEndPointID \<and> definedInCurrentGraph then reject
        else accept (pm_match st, pm_action st))"

section \<open>Which member comes from which key\<close>

definition text_of :: "jobject \<Rightarrow> string \<Rightarrow> string option" where
  "text_of obj key = Option.bind (map_of obj key) jstr"

text \<open>
  A quantity of the state that one key alone changes depends on the value of that key only.
\<close>

lemma foldP_key:
  assumes "foldP f obj st = accept st'" "distinct (map fst obj)"
    and other: "\<And>name v st st'. f (name, v) st = accept st' \<Longrightarrow> name \<noteq> key \<Longrightarrow> q st' = q st"
    and own: "\<And>v st st'. f (key, v) st = accept st' \<Longrightarrow> q st' = g v (q st)"
  shows "q st' = (case map_of obj key of None \<Rightarrow> q st | Some v \<Rightarrow> g v (q st))"
  using assms(1,2)
proof (induction obj arbitrary: st)
  case (Cons p obj)
  obtain name v where p: "p = (name, v)" by force
  from Cons.prems(1) obtain st1 where st1: "f (name, v) st = accept st1" "foldP f obj st1 = accept st'"
    by (auto simp: p)
  have IH: "q st' = (case map_of obj key of None \<Rightarrow> q st1 | Some v \<Rightarrow> g v (q st1))"
    using Cons.IH[OF st1(2)] Cons.prems(2) by simp
  show ?case
  proof (cases "name = key")
    case True
    then have "map_of obj key = None"
      using Cons.prems(2) by (simp add: p map_of_eq_None_iff image_iff)
    with IH own st1(1) True show ?thesis by (simp add: p)
  qed (use IH other[OF st1(1)] in \<open>simp add: p split: option.splits\<close>)
qed simp

lemmas value_defs = mac_value_def ipv4_value_def ipv6_value_def mask_value_def octet_value_def
  short_value_def long_value_def vlan_value_def

text \<open>The cases of an accepted field, one for each key.\<close>

lemma if_acceptE:
  assumes "(if b then x else y) = accept r"
  obtains b "x = accept r" | "y = accept r"
  using assms by (cases b) auto

lemma if_acceptE':
  assumes "(if b then x else y) = accept r"
  obtains b "x = accept r" | "\<not> b" "y = accept r"
  using assms by (cases b) auto

lemma ucast_word_of_int:
  "LENGTH('b) \<le> LENGTH('a) \<Longrightarrow> ucast (word_of_int v :: 'a::len word) = (word_of_int v :: 'b::len word)"
  by (rule bit_word_eqI) (simp add: bit_ucast_iff bit_word_of_int_iff)

lemma setIpProto_eq:
  "setIpProto v m = m\<lparr>ipProto := v, isIpProto := True, isTcpProtocol := isTcpProtocol m \<or> v = 6,
     isUdpProtocol := isUdpProtocol m \<or> v = 17, isSctpProtocol := isSctpProtocol m \<or> v = 132\<rparr>"
  by (simp add: setIpProto_def Let_def)

lemma vlan_value_accepted:
  "vlan_value s m = accept m' \<Longrightarrow>
     \<exists>v b n a. m' = m\<lparr>isVlanID := b, vlanID := v, isNoVlan := n, isAnyVlan := a\<rparr>"
proof -
  assume "vlan_value s m = accept m'"
  then consider "m' = setVlanIDAnyVlan m" | "m' = setVlanIDNoVlan m" | v where "m' = setVlanID v m"
    by (auto simp: vlan_value_def split: if_splits option.splits)
  then show ?thesis
  proof cases
    case 1
    then have "m' = m\<lparr>isVlanID := False, vlanID := vlanID m, isNoVlan := False, isAnyVlan := True\<rparr>"
      by (simp add: setVlanIDAnyVlan_def)
    then show ?thesis by blast
  next
    case 2
    then have "m' = m\<lparr>isVlanID := False, vlanID := vlanID m, isNoVlan := True, isAnyVlan := False\<rparr>"
      by (simp add: setVlanIDNoVlan_def)
    then show ?thesis by blast
  next
    case (3 v)
    then have "m' = m\<lparr>isVlanID := True, vlanID := v, isNoVlan := isNoVlan m, isAnyVlan := isAnyVlan m\<rparr>"
      by (simp add: setVlanID_def)
    then show ?thesis by blast
  qed
qed

lemma value_accepted:
  "mac_value s f m = accept m' \<Longrightarrow> m' = f s m"
  "ipv4_value s f m = accept m' \<Longrightarrow> m' = f s m"
  "ipv6_value s f m = accept m' \<Longrightarrow> m' = f s m"
  "mask_value s f m = accept m' \<Longrightarrow> m' = f s m"
  "octet_value s g m = accept m' \<Longrightarrow> m' = g (word_of_int (the (sscanf_ld s))) m"
  "short_value r h m = accept m' \<Longrightarrow> m' = h (word_of_int (the r)) m"
  "long_value l s k m = accept m' \<Longrightarrow> m' = k (word_of_int (the (sscanf_ld s))) m"
  "accept x = accept m' \<Longrightarrow> m' = (x :: HLMatch)"
  unfolding mac_value_def ipv4_value_def ipv6_value_def mask_value_def octet_value_def
    short_value_def long_value_def
  by (auto simp: Let_def ucast_word_of_int split: if_splits option.splits)


lemma field_texts:
  "parse_field name s m = accept m' \<Longrightarrow>
     eth_src m' = (if name = ''source_mac'' then Some s else eth_src m) \<and>
     eth_src_mask m' = (if name = ''eth_src_mask'' then Some s else eth_src_mask m) \<and>
     eth_dst m' = (if name = ''dest_mac'' then Some s else eth_dst m) \<and>
     eth_dst_mask m' = (if name = ''eth_dst_mask'' then Some s else eth_dst_mask m) \<and>
     ipv4_src_mask m' = (if name = ''ipv4_src_mask'' then Some s else ipv4_src_mask m) \<and>
     ipv4_dst_mask m' = (if name = ''ipv4_dst_mask'' then Some s else ipv4_dst_mask m) \<and>
     arp_spa m' = (if name = ''arp_spa'' then Some s else arp_spa m) \<and>
     arp_spa_mask m' = (if name = ''arp_spa_mask'' then Some s else arp_spa_mask m) \<and>
     arp_tpa m' = (if name = ''arp_tpa'' then Some s else arp_tpa m) \<and>
     arp_tpa_mask m' = (if name = ''arp_tpa_mask'' then Some s else arp_tpa_mask m) \<and>
     arp_sha m' = (if name = ''arp_sha'' then Some s else arp_sha m) \<and>
     arp_tha m' = (if name = ''arp_tha'' then Some s else arp_tha m) \<and>
     ipv6_src_mask m' = (if name = ''ipv6_src_mask'' then Some s else ipv6_src_mask m) \<and>
     ipv6_dst_mask m' = (if name = ''ipv6_dst_mask'' then Some s else ipv6_dst_mask m) \<and>
     ipv6_nd_target m' = (if name = ''ipv6_nd_target'' then Some s else ipv6_nd_target m) \<and>
     ipv6_nd_sll m' = (if name = ''ipv6_nd_sll'' then Some s else ipv6_nd_sll m) \<and>
     ipv6_nd_tll m' = (if name = ''ipv6_nd_tll'' then Some s else ipv6_nd_tll m)"
  unfolding parse_field_def parse_field_parts
  by (elim if_acceptE; (drule value_accepted | (drule vlan_value_accepted, elim exE))?)
     (simp_all add: setIpProto_eq match_setters)

lemma field_numbers:
  "parse_field name s m = accept m' \<Longrightarrow>
     (isEthType m' = (name = ''ether_type'' \<or> isEthType m)) \<and> ethType m' = (if name = ''ether_type'' then word_of_int (the (sscanf_li s)) else ethType m) \<and>
     (isVlanPCP m' = (name = ''vlan_pcp'' \<or> isVlanPCP m)) \<and> vlanPCP m' = (if name = ''vlan_pcp'' then word_of_int (the (sscanf_ld s)) else vlanPCP m) \<and>
     (isIpDSCP m' = (name = ''ip_dscp'' \<or> isIpDSCP m)) \<and> ipDSCP m' = (if name = ''ip_dscp'' then word_of_int (the (sscanf_ld s)) else ipDSCP m) \<and>
     (isIpECN m' = (name = ''ip_ecn'' \<or> isIpECN m)) \<and> ipECN m' = (if name = ''ip_ecn'' then word_of_int (the (sscanf_ld s)) else ipECN m) \<and>
     (isIpProto m' = (name = ''protocol'' \<or> isIpProto m)) \<and> ipProto m' = (if name = ''protocol'' then word_of_int (the (sscanf_ld s)) else ipProto m) \<and>
     (isIcmpv4Type m' = (name = ''icmpv4_type'' \<or> isIcmpv4Type m)) \<and> icmpv4Type m' = (if name = ''icmpv4_type'' then word_of_int (the (sscanf_ld s)) else icmpv4Type m) \<and>
     (isIcmpv4Code m' = (name = ''icmpv4_code'' \<or> isIcmpv4Code m)) \<and> icmpv4Code m' = (if name = ''icmpv4_code'' then word_of_int (the (sscanf_ld s)) else icmpv4Code m) \<and>
     (isArpOpcode m' = (name = ''arp_opcode'' \<or> isArpOpcode m)) \<and> arpOpcode m' = (if name = ''arp_opcode'' then word_of_int (the (sscanf_ld s)) else arpOpcode m) \<and>
     (isIpv6Flabel m' = (name = ''ipv6_flabel'' \<or> isIpv6Flabel m)) \<and> ipv6_flabel m' = (if name = ''ipv6_flabel'' then word_of_int (the (sscanf_ld s)) else ipv6_flabel m) \<and>
     (isIcmpv6Type m' = (name = ''icmpv6_type'' \<or> isIcmpv6Type m)) \<and> icmpv6Type m' = (if name = ''icmpv6_type'' then word_of_int (the (sscanf_ld s)) else icmpv6Type m) \<and>
     (isIcmpv6Code m' = (name = ''icmpv6_code'' \<or> isIcmpv6Code m)) \<and> icmpv6Code m' = (if name = ''icmpv6_code'' then word_of_int (the (sscanf_ld s)) else icmpv6Code m) \<and>
     (isMplsLabel m' = (name = ''mpls_label'' \<or> isMplsLabel m)) \<and> mplsLabel m' = (if name = ''mpls_label'' then word_of_int (the (sscanf_ld s)) else mplsLabel m) \<and>
     (isMplsTC m' = (name = ''mpls_tc'' \<or> isMplsTC m)) \<and> mplsTC m' = (if name = ''mpls_tc'' then word_of_int (the (sscanf_ld s)) else mplsTC m)"
  unfolding parse_field_def parse_field_parts
  by (elim if_acceptE; (drule value_accepted | (drule vlan_value_accepted, elim exE))?)
     (simp_all add: setIpProto_eq match_setters)

lemma field_addresses:
  "parse_field name s m = accept m' \<Longrightarrow>
     (ipv4_src m' = (if name = ''source_ip'' \<and> CHR '':'' \<notin> set s then Some s else ipv4_src m)) \<and>
     (ipv6_src m' = (if name = ''source_ip'' \<and> CHR '':'' \<in> set s then Some s else ipv6_src m)) \<and>
     (ipv4_dst m' = (if name = ''dest_ip'' \<and> CHR '':'' \<notin> set s then Some s else ipv4_dst m)) \<and>
     (ipv6_dst m' = (if name = ''dest_ip'' \<and> CHR '':'' \<in> set s then Some s else ipv6_dst m))"
  unfolding parse_field_def parse_field_parts
  by (elim if_acceptE'; (drule value_accepted | (drule vlan_value_accepted, elim exE))?)
     (simp_all add: setIpProto_eq match_setters)


text \<open>The same, by keys: the texts that are stored as they are, the numbers, the addresses.\<close>

definition text_keys :: "string list" where
  "text_keys =
     [''source_mac'', ''eth_src_mask'', ''dest_mac'', ''eth_dst_mask'', ''ipv4_src_mask'',
      ''ipv4_dst_mask'', ''arp_spa'', ''arp_spa_mask'', ''arp_tpa'', ''arp_tpa_mask'', ''arp_sha'',
      ''arp_tha'', ''ipv6_src_mask'', ''ipv6_dst_mask'', ''ipv6_nd_target'', ''ipv6_nd_sll'',
      ''ipv6_nd_tll'']"

definition texts :: "HLMatch \<Rightarrow> string \<Rightarrow> string option" where
  "texts m key =
     (if key = ''source_mac'' then eth_src m else if key = ''eth_src_mask'' then eth_src_mask m
      else if key = ''dest_mac'' then eth_dst m else if key = ''eth_dst_mask'' then eth_dst_mask m
      else if key = ''ipv4_src_mask'' then ipv4_src_mask m
      else if key = ''ipv4_dst_mask'' then ipv4_dst_mask m
      else if key = ''arp_spa'' then arp_spa m else if key = ''arp_spa_mask'' then arp_spa_mask m
      else if key = ''arp_tpa'' then arp_tpa m else if key = ''arp_tpa_mask'' then arp_tpa_mask m
      else if key = ''arp_sha'' then arp_sha m else if key = ''arp_tha'' then arp_tha m
      else if key = ''ipv6_src_mask'' then ipv6_src_mask m
      else if key = ''ipv6_dst_mask'' then ipv6_dst_mask m
      else if key = ''ipv6_nd_target'' then ipv6_nd_target m
      else if key = ''ipv6_nd_sll'' then ipv6_nd_sll m
      else if key = ''ipv6_nd_tll'' then ipv6_nd_tll m
      else None)"

definition number_keys :: "string list" where
  "number_keys =
     [''ether_type'', ''vlan_pcp'', ''ip_dscp'', ''ip_ecn'', ''protocol'', ''icmpv4_type'',
      ''icmpv4_code'', ''arp_opcode'', ''ipv6_flabel'', ''icmpv6_type'', ''icmpv6_code'',
      ''mpls_label'', ''mpls_tc'']"

definition flagged :: "bool \<Rightarrow> 'a::len word \<Rightarrow> nat option" where
  "flagged b w = (if b then Some (unat w) else None)"

definition numbers :: "HLMatch \<Rightarrow> string \<Rightarrow> nat option" where
  "numbers m key =
     (if key = ''ether_type'' then flagged (isEthType m) (ethType m)
      else if key = ''vlan_pcp'' then flagged (isVlanPCP m) (vlanPCP m)
      else if key = ''ip_dscp'' then flagged (isIpDSCP m) (ipDSCP m)
      else if key = ''ip_ecn'' then flagged (isIpECN m) (ipECN m)
      else if key = ''protocol'' then flagged (isIpProto m) (ipProto m)
      else if key = ''icmpv4_type'' then flagged (isIcmpv4Type m) (icmpv4Type m)
      else if key = ''icmpv4_code'' then flagged (isIcmpv4Code m) (icmpv4Code m)
      else if key = ''arp_opcode'' then flagged (isArpOpcode m) (arpOpcode m)
      else if key = ''ipv6_flabel'' then flagged (isIpv6Flabel m) (ipv6_flabel m)
      else if key = ''icmpv6_type'' then flagged (isIcmpv6Type m) (icmpv6Type m)
      else if key = ''icmpv6_code'' then flagged (isIcmpv6Code m) (icmpv6Code m)
      else if key = ''mpls_label'' then flagged (isMplsLabel m) (mplsLabel m)
      else if key = ''mpls_tc'' then flagged (isMplsTC m) (mplsTC m)
      else None)"

text \<open>The number a text stands for, cut to the width of the member.\<close>

definition stored_number :: "string \<Rightarrow> string \<Rightarrow> nat" where
  "stored_number key s =
     (if key = ''ether_type'' then unat (word_of_int (the (sscanf_li s)) :: 16 word)
      else if key = ''arp_opcode'' then unat (word_of_int (the (sscanf_ld s)) :: 16 word)
      else if key = ''ipv6_flabel'' \<or> key = ''mpls_label''
      then unat (word_of_int (the (sscanf_ld s)) :: 32 word)
      else unat (word_of_int (the (sscanf_ld s)) :: 8 word))"

definition addresses :: "HLMatch \<Rightarrow> string \<Rightarrow> string option \<times> string option" where
  "addresses m key =
     (if key = ''source_ip'' then (ipv4_src m, ipv6_src m)
      else if key = ''dest_ip'' then (ipv4_dst m, ipv6_dst m) else (None, None))"

lemma texts_other:
  "parse_field name s m = accept m' \<Longrightarrow> name \<noteq> key \<Longrightarrow> texts m' key = texts m key"
  unfolding texts_def by (drule field_texts, elim conjE, intro if_cong refl; simp)

lemma numbers_other:
  "parse_field name s m = accept m' \<Longrightarrow> name \<noteq> key \<Longrightarrow> numbers m' key = numbers m key"
  unfolding numbers_def by (drule field_numbers, elim conjE, intro if_cong refl; simp)

lemma addresses_other:
  "parse_field name s m = accept m' \<Longrightarrow> name \<noteq> key \<Longrightarrow> addresses m' key = addresses m key"
  unfolding addresses_def by (drule field_addresses, elim conjE, intro if_cong refl; simp)

lemma texts_own:
  "parse_field key s m = accept m' \<Longrightarrow> key \<in> set text_keys \<Longrightarrow> texts m' key = Some s"
  unfolding text_keys_def list.set insert_iff
  by (drule field_texts, elim disjE emptyE; simp add: texts_def)

lemma numbers_own:
  "parse_field key s m = accept m' \<Longrightarrow> key \<in> set number_keys \<Longrightarrow>
     numbers m' key = Some (stored_number key s)"
  unfolding number_keys_def list.set insert_iff
  by (drule field_numbers, elim disjE emptyE; simp add: numbers_def stored_number_def flagged_def)

lemma addresses_own:
  "parse_field key s m = accept m' \<Longrightarrow> key \<in> {''source_ip'', ''dest_ip''} \<Longrightarrow>
     addresses m' key = (if CHR '':'' \<in> set s then (fst (addresses m key), Some s)
                         else (Some s, snd (addresses m key)))"
  by (drule field_addresses, elim insertE emptyE; simp add: addresses_def)

text \<open>The entry point is kept in other members.\<close>

definition same_fields :: "HLMatch \<Rightarrow> HLMatch \<Rightarrow> bool" where
  "same_fields m' m = (texts m' = texts m \<and> numbers m' = numbers m \<and> addresses m' = addresses m)"

lemma same_fields_refl: "same_fields m m"
  by (simp add: same_fields_def)

lemma same_fields_trans: "same_fields a b \<Longrightarrow> same_fields b c \<Longrightarrow> same_fields a c"
  by (simp add: same_fields_def)

lemma same_fields_sets:
  "same_fields (snd (setNFport nf p m)) m" "same_fields (snd (setInputPort i m)) m"
  "same_fields (snd (setEndPointInternal g m)) m" "same_fields (snd (setEndPointGre e m)) m"
  "same_fields (setEndpointVlanID v m) m" "same_fields (snd (setNFEndpointPort e m)) m"
  "same_fields (snd (setInputEndpoint e m)) m"
  unfolding same_fields_def fun_eq_iff texts_def numbers_def addresses_def
  by (simp_all add: setNFport_def setInputPort_def setEndPointInternal_def setEndPointGre_def setEndpointVlanID_def
      setNFEndpointPort_def setInputEndpoint_def split: option.split)

lemma same_fields_entry: "same_fields (name_the_entry ps s m) m"
  by (cases ps) (simp_all add: name_the_entry_def same_fields_refl same_fields_sets)

lemma match_on_endpoint_fields:
  "match_on_endpoint ep eP m act = accept (m', act') \<Longrightarrow> same_fields m' m"
  by (cases ep)
     (auto simp: match_on_endpoint_def Let_def same_fields_refl same_fields_sets
       intro: same_fields_trans[OF same_fields_sets(2) same_fields_sets(5)] split: if_splits)

lemma parse_port_in_fields:
  assumes "parse_port_in ids s m act = accept (m', act')"
  shows "same_fields m' m"
proof -
  define ps where "ps = strtok CHR '':'' s"
  have "same_fields m' (name_the_entry ps s m)"
  proof (cases "port_type_of ps")
    case VNF_PORT_TYPE
    then show ?thesis
      using assms by (auto simp: parse_port_in_def strcpy_def ps_def Let_def same_fields_sets split: if_splits)
  next
    case EP_PORT_TYPE
    then show ?thesis
      using assms
      by (auto simp: parse_port_in_def strcpy_def ps_def Let_def split: if_splits
          dest: match_on_endpoint_fields)
  qed
  then show ?thesis by (rule same_fields_trans[OF _ same_fields_entry])
qed

lemma parse_member_cases:
  assumes "parse_member ids (name, v) st = accept st'"
  obtains s m act where "v = JStr s" "name = ''port_in''" "\<not> foundOne st"
      "parse_port_in ids s (pm_match st) (pm_action st) = accept (m, act)"
      "st' = st\<lparr>foundOne := True, pm_match := m, pm_action := act\<rparr>"
  | s m b where "v = JStr s" "name \<noteq> ''port_in''" "parse_field name s (pm_match st) = accept m"
      "st' = st\<lparr>pm_match := m, foundProtocolField := b\<rparr>"
  using assms by (cases v) (auto simp: parse_member_def split: if_splits)

lemma member_field:
  assumes "parse_member ids (key, v) st = accept st'" "key \<noteq> ''port_in''"
  obtains s where "v = JStr s" "parse_field key s (pm_match st) = accept (pm_match st')"
  by (rule parse_member_cases[OF assms(1)]) (use assms(2) that in simp_all)

lemma member_other:
  assumes "parse_member ids (name, v) st = accept st'" "name \<noteq> key"
  shows "texts (pm_match st') key = texts (pm_match st) key \<and>
    numbers (pm_match st') key = numbers (pm_match st) key \<and>
    addresses (pm_match st') key = addresses (pm_match st) key"
proof (rule parse_member_cases[OF assms(1)])
  fix s m act
  assume "parse_port_in ids s (pm_match st) (pm_action st) = accept (m, act)"
    "st' = st\<lparr>foundOne := True, pm_match := m, pm_action := act\<rparr>"
  then show ?thesis using parse_port_in_fields by (fastforce simp: same_fields_def)
next
  fix s m b
  assume "parse_field name s (pm_match st) = accept m"
    "st' = st\<lparr>pm_match := m, foundProtocolField := b\<rparr>"
  then show ?thesis using assms(2) texts_other numbers_other addresses_other by simp
qed

lemma member_own:
  assumes m: "parse_member ids (key, v) st = accept st'"
  shows "key \<in> set text_keys \<Longrightarrow> texts (pm_match st') key = jstr v"
    "key \<in> set number_keys \<Longrightarrow>
       numbers (pm_match st') key = map_option (stored_number key) (jstr v)"
    "key \<in> {''source_ip'', ''dest_ip''} \<Longrightarrow>
       addresses (pm_match st') key =
         (if CHR '':'' \<in> set (the (jstr v)) then (fst (addresses (pm_match st) key), jstr v)
          else (jstr v, snd (addresses (pm_match st) key)))"
proof -
  assume "key \<in> set text_keys"
  moreover from this have "key \<noteq> ''port_in''" by (auto simp: text_keys_def)
  ultimately show "texts (pm_match st') key = jstr v"
    by (elim member_field[OF m]) (simp add: texts_own)
next
  assume "key \<in> set number_keys"
  moreover from this have "key \<noteq> ''port_in''" by (auto simp: number_keys_def)
  ultimately show "numbers (pm_match st') key = map_option (stored_number key) (jstr v)"
    by (elim member_field[OF m]) (simp add: numbers_own)
next
  assume k: "key \<in> {''source_ip'', ''dest_ip''}"
  then have "key \<noteq> ''port_in''" by auto
  then obtain s where "v = JStr s" "parse_field key s (pm_match st) = accept (pm_match st')"
    by (rule member_field[OF m])
  with addresses_own[OF this(2) k]
  show "addresses (pm_match st') key =
      (if CHR '':'' \<in> set (the (jstr v)) then (fst (addresses (pm_match st) key), jstr v)
       else (jstr v, snd (addresses (pm_match st) key)))" by simp
qed

lemma new_match_fields:
  "texts (HLMatch_new mem) key = None" "numbers (HLMatch_new mem) key = None"
  "addresses (HLMatch_new mem) key = (None, None)"
  by (simp_all add: texts_def numbers_def addresses_def flagged_def HLMatch_new_def Match_new_def)

lemma parseMatch_accept:
  assumes "parseMatch ids obj m act = accept (m', act')"
  obtains st where
    "foldP (parse_member ids) obj
       \<lparr>foundOne = False, foundProtocolField = False, pm_match = m, pm_action = act\<rparr> = accept st"
    "foundOne st" "m' = pm_match st" "act' = pm_action st"
  using assms by (auto simp: parseMatch_def split: if_splits)


section \<open>Pieces of names\<close>

lemma strtok_pieces: "p \<in> set (strtok d s) \<Longrightarrow> p \<noteq> [] \<and> d \<notin> set p"
proof (induction d s rule: strtok.induct)
  case (1 d s)
  show ?case
  proof (cases "dropWhile (\<lambda>c. c = d) s")
    case Nil
    with "1.prems" show ?thesis by (simp add: strtok.simps[of d s])
  next
    case (Cons c r)
    have "c \<noteq> d" using Cons hd_dropWhile[of "\<lambda>c. c = d" s] by auto
    with Cons 1 show ?thesis
      by (auto simp: strtok.simps[of d s] dest: set_takeWhileD)
  qed
qed

lemma strtok_separator: "strtok d (d # s) = strtok d s"
  by (simp add: strtok.simps[of d "d # s"] strtok.simps[of d s])

lemma strtok_length: "sum_list (map (\<lambda>p. Suc (length p)) (strtok d s)) \<le> Suc (length s)"
proof (induction s rule: length_induct)
  case (1 s)
  show ?case
  proof (cases "dropWhile (\<lambda>c. c = d) s")
    case (Cons c r)
    let ?rest = "dropWhile (\<lambda>x. x \<noteq> d) r"
    have l: "Suc (length r) \<le> length s" "length ?rest \<le> length r"
      using Cons length_dropWhile_le[of "\<lambda>c. c = d" s] length_dropWhile_le[of "\<lambda>x. x \<noteq> d" r]
      by simp_all
    have "sum_list (map (\<lambda>p. Suc (length p)) (strtok d ?rest)) \<le> length ?rest"
    proof (cases ?rest)
      case Nil
      show ?thesis unfolding Nil by (simp add: strtok.simps[of d "[]"])
    next
      case (Cons c' r')
      then have "c' = d" using hd_dropWhile[of "\<lambda>x. x \<noteq> d" r] by auto
      with Cons l "1.IH" show ?thesis by (simp add: strtok_separator)
    qed
    moreover have "length (takeWhile (\<lambda>x. x \<noteq> d) r) + length ?rest = length r"
      by (metis length_append takeWhile_dropWhile_id)
    ultimately show ?thesis using l by (simp add: strtok.simps[of d s] Cons)
  next
    case Nil
    show ?thesis unfolding strtok.simps[of d s] Nil by simp
  qed
qed

lemma strtok_single:
  assumes "a \<noteq> []" "d \<notin> set a"
  shows "strtok d a = [a]"
proof -
  obtain c r where a: "a = c # r" "c \<noteq> d" "d \<notin> set r" using assms by (cases a) auto
  have t: "takeWhile (\<lambda>x. x \<noteq> d) r = r" "dropWhile (\<lambda>x. x \<noteq> d) r = []"
    using a(3) by (auto simp: takeWhile_eq_all_conv)
  have "strtok d (c # r) = (c # takeWhile (\<lambda>x. x \<noteq> d) r) # strtok d (dropWhile (\<lambda>x. x \<noteq> d) r)"
    using a(2) by (subst strtok.simps) simp
  then show ?thesis unfolding a t by (simp add: strtok.simps[of d "[]"])
qed

lemma strtok_first:
  assumes "a \<noteq> []" "d \<notin> set a"
  shows "strtok d (a @ d # s) = a # strtok d s"
proof -
  obtain c r where a: "a = c # r" "c \<noteq> d" "d \<notin> set r" using assms by (cases a) auto
  have "takeWhile (\<lambda>x. x \<noteq> d) (r @ d # s) = r" "dropWhile (\<lambda>x. x \<noteq> d) (r @ d # s) = d # s"
    using a(3) by (auto simp: takeWhile_append dropWhile_append)
  moreover have "strtok d (c # r @ d # s) =
      (c # takeWhile (\<lambda>x. x \<noteq> d) (r @ d # s)) # strtok d (dropWhile (\<lambda>x. x \<noteq> d) (r @ d # s))"
    using a(2) by (subst strtok.simps) simp
  ultimately show ?thesis by (simp add: a strtok_separator)
qed

text \<open>
  What an accepted name of a VNF's port gives: it has at least four pieces, of which the second is
  the VNF and the fourth is read as the port; ports count from one.
\<close>

lemma vnf_id_tmp_length:
  assumes "vnf_id_tmp (strtok CHR '':'' s) = Some vn"
  shows "length vn < length s"
proof -
  obtain p a rest where ps: "strtok CHR '':'' s = p # a # rest"
    using assms by (auto simp: vnf_id_tmp_def split: list.splits)
  moreover have "p \<noteq> []" using strtok_pieces[of p "CHR '':''" s] ps by simp
  ultimately show ?thesis
    using assms strtok_length[of "CHR '':''" s]
    by (cases p; cases rest; cases "tl rest") (auto simp: vnf_id_tmp_def)
qed

lemma vnf_and_port_accept:
  assumes "vnf_and_port (strtok CHR '':'' s) = accept (nf, port)"
  obtains p b d rest where "strtok CHR '':'' s = p # nf # b # d # rest"
    "port = (case sscanf_u d of None \<Rightarrow> 0 | Some v \<Rightarrow> v) + 1"
proof -
  obtain vn where vn: "vnf_id_tmp (strtok CHR '':'' s) = Some vn"
    using assms by (auto simp: vnf_and_port_def split: option.splits)
  then obtain p a rest where ps: "strtok CHR '':'' s = p # a # rest"
    by (auto simp: vnf_id_tmp_def split: list.splits)
  have a: "a \<noteq> []" "CHR '':'' \<notin> set a" using strtok_pieces[of a "CHR '':''" s] ps by auto
  show thesis
  proof (cases rest)
    case Nil
    then have "strtok CHR '':'' vn = [a]"
      using vn ps strtok_first[OF a, of "[]"] by (simp add: vnf_id_tmp_def strtok.simps[of _ "[]"])
    with assms vn show thesis
      by (auto simp: vnf_and_port_def nfId_def nfPort_def nfIsPort_def strcpy_def split: if_splits)
  next
    case (Cons b rest')
    show thesis
    proof (cases rest')
      case Nil
      then have "strtok CHR '':'' vn = [a]" using vn ps \<open>rest = b # rest'\<close> strtok_first[OF a, of "[]"]
        by (simp add: vnf_id_tmp_def strtok.simps[of _ "[]"])
      with assms vn show thesis
        by (auto simp: vnf_and_port_def nfId_def nfPort_def nfIsPort_def strcpy_def split: if_splits)
    next
      case (Cons d rest'')
      have "d \<noteq> []" "CHR '':'' \<notin> set d"
        using strtok_pieces[of d "CHR '':''" s] ps \<open>rest = b # rest'\<close> Cons by auto
      then have "strtok CHR '':'' vn = [a, d]"
        using vn ps Cons \<open>rest = b # rest'\<close> strtok_first[OF a] strtok_single
        by (auto simp: vnf_id_tmp_def)
      with assms vn have "nf = a" "port = (case sscanf_u d of None \<Rightarrow> 0 | Some v \<Rightarrow> v) + 1"
        by (auto simp: vnf_and_port_def nfId_def nfPort_def nfIsPort_def strcpy_def split: if_splits)
      with ps \<open>rest = b # rest'\<close> Cons that show thesis by blast
    qed
  qed
qed

section \<open>The place where the traffic enters\<close>

text \<open>
  What the name of an entry says: a name of an endpoint gives a match on what the endpoint is,
  another name the port of a VNF. An endpoint that does not exist gives a match on any place.
\<close>

definition entry_ok :: "endpoint_ids \<Rightarrow> string \<Rightarrow> HLMatch \<Rightarrow> bool" where
  "entry_ok ids s m =
     (case strtok CHR '':'' s of
        [] \<Rightarrow> False
      | p # ps \<Rightarrow>
          if p = ''endpoint'' then
            input_endpoint m = Some s \<and>
            (case find_endpoint ids (colon_piece 1 s) of
               Iface i \<Rightarrow> match_type m = MATCH_PORT \<and> input m = Some i
             | Internal g \<Rightarrow> match_type m = MATCH_ENDPOINT_INTERNAL \<and> g \<noteq> '''' \<and>
                 (\<forall>v. sscanf_u g = Some v \<longrightarrow> endpointInternalGroup m = v)
             | Vlan v i \<Rightarrow> match_type m = MATCH_PORT \<and> input m = Some i \<and> isEndpointVlanID m
             | Gre \<Rightarrow> match_type m = MATCH_ENDPOINT_GRE \<and> endpointGreID m = colon_piece 1 s
             | NotFound \<Rightarrow> match_type m = MATCH_GENERIC)
          else
            (p = ''vnf'' \<longrightarrow> nf_endpoint_port m = Some s) \<and> match_type m = MATCH_NF \<and>
            (\<exists>a b d rest. ps = a # b # d # rest \<and> input m = Some a \<and>
               nf_port m = (case sscanf_u d of None \<Rightarrow> 0 | Some v \<Rightarrow> v) + 1))"

lemma epName_piece: "length s < BUFFER_SIZE \<Longrightarrow> epName s = Inr (colon_piece 1 s)"
  by (simp add: epName_def strcpy_def colon_piece_def Let_def split: list.split)

lemma match_on_endpoint_ok:
  assumes "match_on_endpoint (find_endpoint ids (colon_piece 1 s)) (colon_piece 1 s) m act = accept (m', act')"
    "strtok CHR '':'' s = ''endpoint'' # ps" "match_type m = MATCH_GENERIC" "input_endpoint m = Some s"
  shows "entry_ok ids s m'"
  using assms
  by (cases "find_endpoint ids (colon_piece 1 s)")
     (auto simp: match_on_endpoint_def entry_ok_def Let_def setInputPort_def setEndPointInternal_def
       setEndPointGre_def setEndpointVlanID_def split: if_splits option.splits)

lemma parse_port_in_entry:
  assumes acc: "parse_port_in ids s m act = accept (m', act')" and "match_type m = MATCH_GENERIC"
  shows "entry_ok ids s m'"
proof -
  define ps where "ps = strtok CHR '':'' s"
  have len: "length s < BUFFER_SIZE"
    using acc by (auto simp: parse_port_in_def strcpy_def split: if_splits)
  have gen: "match_type (name_the_entry ps s m) = MATCH_GENERIC"
    using assms(2) by (simp add: name_the_entry_def setNFEndpointPort_def setInputEndpoint_def split: list.split)
  show ?thesis
  proof (cases "port_type_of ps")
    case VNF_PORT_TYPE
    then obtain nf port where np: "vnf_and_port ps = accept (nf, port)"
      and m': "m' = snd (setNFport nf port (name_the_entry ps s m))"
      using acc len by (auto simp: parse_port_in_def strcpy_def ps_def Let_def)
    from np obtain p b d rest where "ps = p # nf # b # d # rest"
      "port = (case sscanf_u d of None \<Rightarrow> 0 | Some v \<Rightarrow> v) + 1"
      unfolding ps_def by (rule vnf_and_port_accept)
    with VNF_PORT_TYPE gen show ?thesis
      by (auto simp: entry_ok_def m' ps_def[symmetric] port_type_of_def setNFport_def
          name_the_entry_def setNFEndpointPort_def split: if_splits)
  next
    case EP_PORT_TYPE
    then obtain r where "ps = ''endpoint'' # r"
      by (auto simp: port_type_of_def split: list.splits if_splits)
    moreover from this have "input_endpoint (name_the_entry ps s m) = Some s"
      by (simp add: name_the_entry_def setInputEndpoint_def)
    ultimately show ?thesis
      using acc len gen EP_PORT_TYPE match_on_endpoint_ok
      by (auto simp: parse_port_in_def strcpy_def ps_def Let_def epName_piece)
  qed
qed

lemma field_entry:
  "parse_field name s m = accept m' \<Longrightarrow>
     match_type m' = match_type m \<and> input m' = input m \<and> nf_port m' = nf_port m \<and>
     endpointInternalGroup m' = endpointInternalGroup m \<and> endpointGreID m' = endpointGreID m \<and>
     input_endpoint m' = input_endpoint m \<and> nf_endpoint_port m' = nf_endpoint_port m \<and>
     isEndpointVlanID m' = isEndpointVlanID m"
  unfolding parse_field_def parse_field_parts
  by (elim if_acceptE; (drule value_accepted | (drule vlan_value_accepted, elim exE))?)
     (simp_all add: setIpProto_eq match_setters)

lemma entry_ok_field: "parse_field name s m = accept m' \<Longrightarrow> entry_ok ids t m' = entry_ok ids t m"
  by (drule field_entry)
     (simp add: entry_ok_def cong: list.case_cong endpoint_found.case_cong conj_cong)


section \<open>When the parser cannot fail\<close>

lemma vnf_and_port_no_fault:
  assumes "length s < BUFFER_SIZE" "2 \<le> length (strtok CHR '':'' s)"
  shows "vnf_and_port (strtok CHR '':'' s) \<noteq> Inl e"
proof -
  obtain vn where vn: "vnf_id_tmp (strtok CHR '':'' s) = Some vn"
    using assms(2) by (cases "strtok CHR '':'' s"; cases "tl (strtok CHR '':'' s)") (auto simp: vnf_id_tmp_def)
  with vnf_id_tmp_length[OF vn] assms(1) show ?thesis
    by (simp add: vnf_and_port_def nfId_def nfPort_def nfIsPort_def strcpy_def)
qed

lemma match_on_endpoint_no_fault:
  "match_on_endpoint ep eP m (Some a) \<noteq> Inl e"
  "match_on_endpoint ep eP m (Some a) = accept (m', act') \<Longrightarrow> \<exists>a'. act' = Some a'"
  by (cases ep; auto simp: match_on_endpoint_def add_to_action_def Let_def split: if_splits)+

lemma parse_port_in_no_fault:
  assumes "act \<noteq> None" "length s < BUFFER_SIZE" "2 \<le> length (strtok CHR '':'' s)"
  shows "parse_port_in ids s m act \<noteq> Inl e"
    "parse_port_in ids s m act = accept (m', act') \<Longrightarrow> act' \<noteq> None"
  using assms vnf_and_port_no_fault[OF assms(2,3)]
  by (auto simp: parse_port_in_def strcpy_def Let_def epName_piece bindP_Inl match_on_endpoint_no_fault
      split: port_type.splits dest: match_on_endpoint_no_fault(2))

lemma value_no_fault:
  "mac_value s f m \<noteq> Inl e" "ipv4_value s f m \<noteq> Inl e" "ipv6_value s f m \<noteq> Inl e"
  "mask_value s f m \<noteq> Inl e" "octet_value s g m \<noteq> Inl e" "short_value r h m \<noteq> Inl e"
  "long_value l s k m \<noteq> Inl e"
  unfolding mac_value_def ipv4_value_def ipv6_value_def mask_value_def octet_value_def
    short_value_def long_value_def Let_def
  by (simp_all add: bindP_Inl validateIpv4Netmask_no_fault split: option.split)

lemma parse_field_no_fault:
  assumes "name = ''vlan_id'' \<Longrightarrow> s = ''ANY'' \<or> s = ''NO_VLAN'' \<or> sscanf_li s \<noteq> None"
  shows "parse_field name s m \<noteq> Inl e"
proof -
  have "vlan_value s m \<noteq> Inl e" if "name = ''vlan_id''"
    using assms[OF that] by (auto simp: vlan_value_def)
  then show ?thesis
    unfolding parse_field_def parse_field_parts
    by (simp add: value_no_fault if_distrib[of "\<lambda>x. x = Inl e"] del: if_split) 
qed


section \<open>Numbers in and out of range\<close>

lemma dec_first_nonzero: "0 < n \<Longrightarrow> hd (dec n) \<noteq> CHR ''0''"
proof (induction n rule: dec.induct)
  case (1 n)
  show ?case
  proof (cases "n < 10")
    case True
    have "digit_val CHR ''0'' = 0" by (simp add: digit_val_def)
    with True "1.prems" have "digit_val (digit n) \<noteq> digit_val CHR ''0''" by simp
    with True show ?thesis by (subst dec.simps) (auto dest: arg_cong[of _ _ digit_val])
  next
    case False
    with 1 show ?thesis by (subst dec.simps) simp
  qed
qed

lemma dec_Cons:
  obtains c r where "dec n = c # r" "is_digit c" "\<not> is_space c" "c \<noteq> CHR ''-''" "c \<noteq> CHR ''+''"
    "c \<noteq> CHR ''A''" "c \<noteq> CHR ''N''"
proof -
  obtain c r where cr: "dec n = c # r" by (cases "dec n") auto
  moreover have "is_digit c" using dec_digits[of n] cr by simp
  ultimately show thesis by (intro that) (auto simp: is_space_def is_digit_def)
qed

lemma scan_digits_dec: "n < 2 ^ 64 \<Longrightarrow> scan_digits (dec n) = Some n"
proof -
  assume n: "n < 2 ^ 64"
  have t: "takeWhile is_digit (dec n) = dec n"
    using dec_digits[of n] by (simp add: takeWhile_eq_all_conv)
  show ?thesis unfolding scan_digits_def Let_def t using n by simp
qed

lemma scan_any_base_dec:
  assumes "n < 2 ^ 64"
  shows "scan_any_base (dec n) = Some n"
proof (cases "0 < n")
  case True
  then show ?thesis
    using scan_digits_dec[OF assms] dec_first_nonzero[OF True]
    by (auto simp: scan_any_base_def split: list.splits)
next
  case False
  have "dec 0 = [digit 0]" by (simp add: dec.simps)
  with False scan_digits_dec[OF assms] show ?thesis by (simp add: scan_any_base_def)
qed

lemma scan_signed_dec:
  assumes "n < 2 ^ 63" "scan (dec n) = Some n"
  shows "scan_signed scan (dec n) = Some (int n)"
proof -
  obtain c r where "dec n = c # r" "\<not> is_space c" "c \<noteq> CHR ''-''" "c \<noteq> CHR ''+''"
    by (rule dec_Cons[of n])
  moreover have "min (int n) (2 ^ 63 - 1) = int n" using assms(1) by simp
  ultimately show ?thesis using assms(2) by (simp add: scan_signed_def)
qed

lemma sscanf_l_dec:
  "n < 2 ^ 63 \<Longrightarrow> sscanf_ld (dec n) = Some (int n)" "n < 2 ^ 63 \<Longrightarrow> sscanf_li (dec n) = Some (int n)"
  by (simp_all add: sscanf_ld_def sscanf_li_def scan_signed_dec scan_digits_dec scan_any_base_dec)

lemma octet_value_dec:
  assumes "n < 2 ^ 63"
  shows "octet_value (dec n) f m = (if n mod 2 ^ 16 \<le> 255 then accept (f (of_nat n) m) else reject)"
proof -
  have "(255 < (word_of_nat n :: 16 word)) = (255 < n mod 2 ^ 16)"
    by (simp add: word_less_nat_alt unat_of_nat)
  then show ?thesis
    using ucast_word_of_int[where 'a = 16 and 'b = 8, of "int n"]
    by (simp add: octet_value_def sscanf_l_dec[OF assms] Let_def not_less)
qed

lemma short_value_dec:
  assumes "r = Some (int n)"
  shows "short_value r f m = (if n mod 2 ^ 32 \<le> 65535 then accept (f (of_nat n) m) else reject)"
proof -
  have "(65535 < (word_of_nat n :: 32 word)) = (65535 < n mod 2 ^ 32)"
    by (simp add: word_less_nat_alt unat_of_nat)
  then show ?thesis
    using ucast_word_of_int[where 'a = 32 and 'b = 16, of "int n"]
    by (simp add: short_value_def assms Let_def not_less)
qed



section \<open>An example\<close>

definition ex_ids :: endpoint_ids where
  "ex_ids = \<lparr>iface_id = [(''ep1'', ''eth0'')], internal_id = [], vlan_id = [], gre_id = []\<rparr>"

definition ex_match_obj :: jobject where
  "ex_match_obj =
     [(''dest_mac'', JStr ''0a:00:00:00:00:01''), (''ether_type'', JStr ''0x0800''),
      (''port_in'', JStr ''endpoint:ep1''), (''protocol'', JStr ''6''),
      (''source_ip'', JStr ''10.0.0.1'')]"

definition ex_parsed :: HLMatch where
  "ex_parsed =
     setIpv4Src ''10.0.0.1'' (setIpProto 6 (snd (setInputPort ''eth0''
       (snd (setInputEndpoint ''endpoint:ep1'' (setEthType 2048
         (setEthDst ''0a:00:00:00:00:01'' (HLMatch_new zero_HLMatch))))))))"

lemmas run_scan = sscanf_ld_def sscanf_li_def scan_signed_def scan_any_base_def scan_hex_def
  scan_oct_def scan_digits_def is_space_def is_digit_def digit_val_def hex_val_def dec_val_def
  sscanf_u_def isxdigit_def

lemma ex_match_parsed:
  "parseMatch ex_ids ex_match_obj (HLMatch_new zero_HLMatch) act = accept (ex_parsed, act)"
proof -
  have d: "parse_field ''dest_mac'' ''0a:00:00:00:00:01'' m = accept (setEthDst ''0a:00:00:00:00:01'' m)" for m
    by (simp add: parse_field_def parse_field_parts mac_value_def validateMac_def run_scan)
  have e: "parse_field ''ether_type'' ''0x0800'' m = accept (setEthType 2048 m)" for m
    by (simp add: parse_field_def parse_field_parts short_value_def run_scan)
  have p: "parse_field ''protocol'' ''6'' m = accept (setIpProto 6 m)" for m
    by (simp add: parse_field_def parse_field_parts octet_value_def run_scan)
  have s: "parse_field ''source_ip'' ''10.0.0.1'' m = accept (setIpv4Src ''10.0.0.1'' m)" for m
    by (simp add: parse_field_def parse_field_parts ipv4_value_def validateIpv4_def run_scan)
  have i: "parse_port_in ex_ids ''endpoint:ep1'' m act =
      accept (snd (setInputPort ''eth0'' (snd (setInputEndpoint ''endpoint:ep1'' m))), act)" for m
    by (simp add: parse_port_in_def strcpy_def BUFFER_SIZE_def strtok.simps port_type_of_def
        name_the_entry_def epName_def find_endpoint_def ex_ids_def match_on_endpoint_def)
  show ?thesis
    by (simp add: parseMatch_def ex_match_obj_def parse_member_def d e p s i ex_parsed_def)
qed

lemma ex_match_wf: "om_wf ex_match_obj"
  by (simp add: ex_match_obj_def)




end
