(* ===== verification/Graph_Parser.thy ===== *)
theory Graph_Parser
  imports Match_Parser
begin

text \<open>
  \<open>graph/graph-parser/graph_parser.cc\<close>: from the JSON description of a forwarding graph to a
  \<open>highlevel::Graph\<close>, without the options for the configuration of ports and for monitoring. The
  members of an object are visited in the order of their keys; the argument \<open>mem\<close> is the storage
  the matches of the rules are built in.

  Shown here: what holds of every accepted graph; that printing a graph and parsing the text gives
  the graph back, for the graphs for which it does; and inputs on which the program dies.
\<close>

fun jbool :: "jvalue \<Rightarrow> bool option" where
  "jbool (JBool b) = Some b"
| "jbool _ = None"

section \<open>Network functions\<close>

definition new_port :: vnf_port where
  "new_port = \<lparr>vp_id = '''', vp_name = '''', vp_configuration = \<lparr>mac_address = ''''\<rparr>\<rparr>"

definition parse_port_member :: "string \<times> jvalue \<Rightarrow> vnf_port \<Rightarrow> vnf_port parsed" where
  "parse_port_member = (\<lambda>(p_name, p_value) p.
     if p_name = ''id'' then bindP (needP (jstr p_value)) (\<lambda>s. accept (p\<lparr>vp_id := s\<rparr>))
     else if p_name = ''name'' then bindP (needP (jstr p_value)) (\<lambda>s. accept (p\<lparr>vp_name := s\<rparr>))
     else if p_name = ''mac'' then
       bindP (needP (jstr p_value)) (\<lambda>s.
         if \<not> validateMac s then reject
         else bindP (sureP (isUnicastMac s)) (\<lambda>u.
                if \<not> u then reject
                else accept (p\<lparr>vp_configuration := (vp_configuration p)\<lparr>mac_address := s\<rparr>\<rparr>)))
     else if p_name = ''unify-ip'' then accept p
     else reject)"

definition parse_vnf_port :: "jvalue \<Rightarrow> vnf_port list \<Rightarrow> vnf_port list parsed" where
  "parse_vnf_port v portS =
     bindP (needP (jobj v)) (\<lambda>port.
     bindP (foldP parse_port_member port new_port) (\<lambda>p. accept (portS @ [p])))"

record vnf_vars =
  usedVNFID :: "string oset"
  foundName :: bool
  cur_vnf :: VNFs

definition parse_vnf_member :: "string \<times> jvalue \<Rightarrow> vnf_vars \<Rightarrow> vnf_vars parsed" where
  "parse_vnf_member = (\<lambda>(nf_name, nf_value) st.
     let put = (\<lambda>f. accept (st\<lparr>cur_vnf := f (cur_vnf st)\<rparr>))
     in if nf_name = ''name'' then
          bindP (needP (jstr nf_value)) (\<lambda>s.
            accept (st\<lparr>foundName := True, cur_vnf := (cur_vnf st)\<lparr>vnf_name := s\<rparr>\<rparr>))
        else if nf_name = ''vnf_template'' then
          bindP (needP (jstr nf_value)) (\<lambda>s. put (\<lambda>v. v\<lparr>vnf_template := s\<rparr>))
        else if nf_name = ''id'' then
          bindP (needP (jstr nf_value)) (\<lambda>s.
            if s \<in> set (usedVNFID st) then reject
            else accept (st\<lparr>usedVNFID := os_insert s (usedVNFID st),
                            cur_vnf := (cur_vnf st)\<lparr>vnf_id := s\<rparr>\<rparr>))
        else if nf_name = ''unify-control'' then accept st
        else if nf_name = ''unify-env-variables'' then accept st
        else if nf_name = ''ports'' then
          bindP (needP (jarr nf_value)) (\<lambda>ports_array.
          bindP (foldP parse_vnf_port ports_array (vnf_ports (cur_vnf st))) (\<lambda>ps.
            put (\<lambda>v. v\<lparr>vnf_ports := ps\<rparr>)))
        else if nf_name = ''groups'' then
          bindP (needP (jarr nf_value)) (\<lambda>groups_array.
          bindP (foldP (\<lambda>g gs. bindP (needP (jstr g)) (\<lambda>s. accept (gs @ [s]))) groups_array
                   (vnf_groups (cur_vnf st))) (\<lambda>gs.
            put (\<lambda>v. v\<lparr>vnf_groups := gs\<rparr>)))
        else reject)"

definition new_vnf :: VNFs where
  "new_vnf =
     \<lparr>vnf_id = '''', vnf_name = '''', vnf_groups = [], vnf_template = '''', vnf_ports = []\<rparr>"

definition parse_vnf :: "jvalue \<Rightarrow> string oset \<times> HLGraph \<Rightarrow> (string oset \<times> HLGraph) parsed" where
  "parse_vnf v = (\<lambda>(used, graph).
     bindP (needP (jobj v)) (\<lambda>network_function.
     bindP (foldP parse_vnf_member network_function
              \<lparr>usedVNFID = used, foundName = False, cur_vnf = new_vnf\<rparr>) (\<lambda>st.
       if \<not> foundName st then reject
       else accept (usedVNFID st, addVNF (cur_vnf st) graph))))"

definition parse_vnfs :: "jvalue \<Rightarrow> HLGraph \<Rightarrow> HLGraph parsed" where
  "parse_vnfs fg_value graph =
     bindP (needP (jarr fg_value)) (\<lambda>vnfs_array.
     bindP (foldP parse_vnf vnfs_array ([], graph)) (\<lambda>(used, graph). accept graph))"

section \<open>Endpoints\<close>

text \<open>
  The variables of the loop over the endpoints. They are declared outside of it and not reset, so an
  endpoint starts with what the one before it left.
\<close>

record ep_vars =
  usedEndpointID :: "string oset"
  cur_id :: string
  cur_name :: string
  cur_v_id :: string
  cur_interface :: string
  cur_group :: string
  e_if :: bool
  e_internal :: bool
  e_vlan :: bool
  ep_ids :: endpoint_ids
  ep_graph :: HLGraph

definition parse_ep_interface :: "string \<times> jvalue \<Rightarrow> ep_vars \<Rightarrow> ep_vars parsed" where
  "parse_ep_interface = (\<lambda>(epi_name, epi_value) st.
     if epi_name = ''node-id'' then bindP (needP (jstr epi_value)) (\<lambda>_. accept st)
     else if epi_name = ''if-name'' then
       bindP (needP (jstr epi_value)) (\<lambda>s.
         accept (st\<lparr>cur_interface := s,
                    ep_ids := (ep_ids st)\<lparr>iface_id := om_put (cur_id st) s (iface_id (ep_ids st))\<rparr>\<rparr>))
     else reject)"

definition parse_ep_internal :: "string \<times> jvalue \<Rightarrow> ep_vars \<Rightarrow> ep_vars parsed" where
  "parse_ep_internal = (\<lambda>(epi_name, epi_value) st.
     if epi_name = ''internal-group'' then
       bindP (needP (jstr epi_value)) (\<lambda>s. accept (st\<lparr>cur_group := s\<rparr>))
     else accept st)"

definition parse_ep_vlan :: "string \<times> jvalue \<Rightarrow> ep_vars \<Rightarrow> ep_vars parsed" where
  "parse_ep_vlan = (\<lambda>(epi_name, epi_value) st.
     if epi_name = ''vlan-id'' then
       bindP (needP (jstr epi_value)) (\<lambda>s. accept (st\<lparr>cur_v_id := s\<rparr>))
     else if epi_name = ''if-name'' then
       bindP (needP (jstr epi_value)) (\<lambda>s. accept (st\<lparr>cur_interface := s\<rparr>))
     else if epi_name = ''node-id'' then bindP (needP (jstr epi_value)) (\<lambda>_. accept st)
     else accept st)"

record gre_vars =
  found_local_ip :: bool
  found_remote_ip :: bool
  found_key :: bool
  cur_gre :: EndPointGre

definition parse_gre_member :: "string \<times> jvalue \<Rightarrow> gre_vars \<Rightarrow> gre_vars parsed" where
  "parse_gre_member = (\<lambda>(epi_name, epi_value) st.
     if epi_name = ''local-ip'' then
       bindP (needP (jstr epi_value)) (\<lambda>s.
         accept (st\<lparr>found_local_ip := True, cur_gre := (cur_gre st)\<lparr>eg_local_ip := s\<rparr>\<rparr>))
     else if epi_name = ''remote-ip'' then
       bindP (needP (jstr epi_value)) (\<lambda>s.
         accept (st\<lparr>found_remote_ip := True, cur_gre := (cur_gre st)\<lparr>eg_remote_ip := s\<rparr>\<rparr>))
     else if epi_name = ''ttl'' then
       bindP (needP (jstr epi_value)) (\<lambda>s. accept (st\<lparr>cur_gre := (cur_gre st)\<lparr>eg_ttl := s\<rparr>\<rparr>))
     else if epi_name = ''gre-key'' then
       bindP (needP (jstr epi_value)) (\<lambda>s.
         accept (st\<lparr>found_key := True, cur_gre := (cur_gre st)\<lparr>eg_gre_key := s\<rparr>\<rparr>))
     else if epi_name = ''secure'' then
       bindP (needP (jbool epi_value)) (\<lambda>b. accept (st\<lparr>cur_gre := (cur_gre st)\<lparr>eg_is_safe := b\<rparr>\<rparr>))
     else reject)"

text \<open>
  The identifier comes behind the tunnel in the order of the keys, so it is looked up ahead; the
  name, which comes later still, is not.
\<close>

definition gre_id_ahead :: "jobject \<Rightarrow> ep_vars \<Rightarrow> ep_vars parsed" where
  "gre_id_ahead rest st =
     (case map_of rest ''id'' of
        None \<Rightarrow> accept st
      | Some v \<Rightarrow> bindP (needP (jstr v)) (\<lambda>s. accept (st\<lparr>cur_id := s\<rparr>)))"

definition parse_ep_gre :: "jobject \<Rightarrow> ep_vars \<Rightarrow> ep_vars parsed" where
  "parse_ep_gre ep_gre st =
     bindP (foldP parse_gre_member ep_gre
              \<lparr>found_local_ip = False, found_remote_ip = False, found_key = False,
               cur_gre = \<lparr>eg_id = cur_id st, eg_name = cur_name st, eg_local_ip = '''',
                 eg_remote_ip = '''', eg_gre_key = '''', eg_ttl = '''', eg_is_safe = False\<rparr>\<rparr>) (\<lambda>gv.
       if \<not> found_local_ip gv \<or> \<not> found_remote_ip gv \<or> \<not> found_key gv then reject
       else accept (st\<lparr>ep_ids := (ep_ids st)\<lparr>gre_id :=
                         om_put (cur_id st) (eg_local_ip (cur_gre gv)) (gre_id (ep_ids st))\<rparr>,
                       ep_graph := snd (addEndPointGre (cur_gre gv) (ep_graph st))\<rparr>))"

definition parse_ep_member :: "string \<Rightarrow> jvalue \<Rightarrow> jobject \<Rightarrow> ep_vars \<Rightarrow> ep_vars parsed" where
  "parse_ep_member ep_name ep_value rest st =
     (if ep_name = ''id'' then
        bindP (needP (jstr ep_value)) (\<lambda>s.
          if s \<in> set (usedEndpointID st) then reject
          else accept (st\<lparr>cur_id := s, usedEndpointID := os_insert s (usedEndpointID st)\<rparr>))
      else if ep_name = ''name'' then
        bindP (needP (jstr ep_value)) (\<lambda>s. accept (st\<lparr>cur_name := s\<rparr>))
      else if ep_name = ''type'' then bindP (needP (jstr ep_value)) (\<lambda>_. accept st)
      else if ep_name = ''interface'' then
        bindP (needP (jobj ep_value)) (\<lambda>ep_iface.
          foldP parse_ep_interface ep_iface (st\<lparr>e_if := True\<rparr>))
      else if ep_name = ''internal'' then
        bindP (needP (jobj ep_value)) (\<lambda>ep_internal.
        bindP (foldP parse_ep_internal ep_internal (st\<lparr>e_internal := True\<rparr>)) (\<lambda>st.
          accept (st\<lparr>ep_ids := (ep_ids st)\<lparr>internal_id :=
                       om_put (cur_id st) (cur_group st) (internal_id (ep_ids st))\<rparr>\<rparr>)))
      else if ep_name = ''interface-out'' then accept st
      else if ep_name = ''vlan'' then
        bindP (needP (jobj ep_value)) (\<lambda>ep_vlan.
        bindP (foldP parse_ep_vlan ep_vlan (st\<lparr>e_vlan := True\<rparr>)) (\<lambda>st.
          accept (st\<lparr>ep_ids := (ep_ids st)\<lparr>vlan_id :=
                       om_put (cur_id st) (cur_v_id st, cur_interface st) (vlan_id (ep_ids st))\<rparr>\<rparr>)))
      else if ep_name = ''gre-tunnel'' then
        bindP (needP (jobj ep_value)) (\<lambda>ep_gre.
        bindP (gre_id_ahead rest st) (\<lambda>st. parse_ep_gre ep_gre st))
      else bindP (needP (jstr ep_value)) (\<lambda>_. accept st))"

fun parse_ep_members :: "jobject \<Rightarrow> ep_vars \<Rightarrow> ep_vars parsed" where
  "parse_ep_members [] st = accept st"
| "parse_ep_members ((ep_name, ep_value) # rest) st =
     bindP (parse_ep_member ep_name ep_value rest st) (parse_ep_members rest)"

definition add_endpoint :: "ep_vars \<Rightarrow> ep_vars" where
  "add_endpoint st =
     (if e_if st then
        st\<lparr>ep_graph := snd (addEndPointInterface
               \<lparr>ei_id = cur_id st, ei_name = cur_name st, ei_interface = cur_interface st\<rparr> (ep_graph st)),
           e_if := False\<rparr>
      else if e_internal st then
        st\<lparr>ep_graph := snd (addEndPointInternal
               \<lparr>en_id = cur_id st, en_name = cur_name st, en_group = cur_group st\<rparr> (ep_graph st)),
           e_internal := False\<rparr>
      else if e_vlan st then
        st\<lparr>ep_graph := snd (addEndPointVlan
               \<lparr>ev_id = cur_id st, ev_name = cur_name st, ev_vlan_id = cur_v_id st,
                ev_interface = cur_interface st\<rparr> (ep_graph st)),
           e_vlan := False\<rparr>
      else st)"

definition parse_endpoint :: "jvalue \<Rightarrow> ep_vars \<Rightarrow> ep_vars parsed" where
  "parse_endpoint v st =
     bindP (needP (jobj v)) (\<lambda>end_points.
     bindP (parse_ep_members end_points st) (\<lambda>st. accept (add_endpoint st)))"

definition parse_endpoints ::
    "jvalue \<Rightarrow> endpoint_ids \<times> HLGraph \<Rightarrow> (endpoint_ids \<times> HLGraph) parsed" where
  "parse_endpoints fg_value = (\<lambda>(ids, graph).
     bindP (needP (jarr fg_value)) (\<lambda>end_points_array.
     bindP (foldP parse_endpoint end_points_array
              \<lparr>usedEndpointID = [], cur_id = '''', cur_name = '''', cur_v_id = '''',
               cur_interface = '''', cur_group = '''', e_if = False, e_internal = False,
               e_vlan = False, ep_ids = ids, ep_graph = graph\<rparr>) (\<lambda>st.
       accept (ep_ids st, ep_graph st))))"

section \<open>Actions\<close>

text \<open>
  The output action a name stands for; \<open>None\<close> for an endpoint that does not exist, in which case the
  pointer to the action is left alone.
\<close>

definition output_action :: "endpoint_ids \<Rightarrow> string \<Rightarrow> HLAction option parsed" where
  "output_action ids s =
     (let ps = strtok CHR '':'' s;
          out = (\<lambda>a gas. accept (Some \<lparr>hl_out = a, genericActions = gas\<rparr>))
      in case port_type_of ps of
           VNF_PORT_TYPE \<Rightarrow>
             bindP (vnf_and_port ps) (\<lambda>(nf, port). out (ActionNetworkFunction nf s port) [])
         | EP_PORT_TYPE \<Rightarrow>
             bindP (sureP (epName s)) (\<lambda>epID.
               case find_endpoint ids epID of
                 Iface realName \<Rightarrow> out (ActionPort realName s) []
               | Internal grp \<Rightarrow> if grp = '''' then reject else out (ActionEndPointInternal grp s) []
               | Vlan v_id interface \<Rightarrow>
                   out (ActionPort interface s)
                     [VlanAction ACTION_ENDPOINT_VLAN_PUSH s
                        (ucast (case sscanf_u v_id of None \<Rightarrow> 0 | Some v \<Rightarrow> v))]
               | Gre \<Rightarrow> out (ActionEndPointGre epID s) []
               | NotFound \<Rightarrow> accept None))"

record action_vars =
  the_action :: "HLAction option"
  generic :: "GenericAction list"
  foundOneOutputToPort :: bool

definition strtol :: "string \<Rightarrow> int" where
  "strtol s = (case sscanf_li s of None \<Rightarrow> 0 | Some v \<Rightarrow> v)"

definition ignored_actions :: "string list" where
  "ignored_actions =
     [''set_vlan_id'', ''set_vlan_priority'', ''set_ethernet_src_address'',
      ''set_ethernet_dst_address'', ''set_ip_src_address'', ''set_ip_dst_address'', ''set_ip_tos'',
      ''set_l4_src_port'', ''set_l4_dst_port'', ''output_to_queue'', ''drop'',
      ''output_to_controller'']"

definition parse_keyword ::
    "endpoint_ids \<Rightarrow> string \<times> jvalue \<Rightarrow> action_vars \<Rightarrow> action_vars parsed" where
  "parse_keyword ids = (\<lambda>(a_name, a_value) st.
     if a_name = ''output_to_port'' then
       bindP (needP (jstr a_value)) (\<lambda>s.
       bindP (sureP (strcpy s)) (\<lambda>_.
         if foundOneOutputToPort st then reject
         else bindP (output_action ids s) (\<lambda>a.
                accept (st\<lparr>foundOneOutputToPort := True,
                           the_action := (case a of None \<Rightarrow> the_action st | Some a \<Rightarrow> Some a)\<rparr>))))
     else if a_name \<in> set ignored_actions then bindP (needP (jstr a_value)) (\<lambda>_. accept st)
     else if a_name = ''push_vlan'' then
       bindP (needP (jstr a_value)) (\<lambda>s.
         accept (st\<lparr>generic := generic st @
           [VlanAction ACTION_VLAN_PUSH '''' (ucast (word_of_int (strtol s) :: 32 word))]\<rparr>))
     else if a_name = ''pop_vlan'' then
       bindP (needP (jbool a_value)) (\<lambda>b.
         accept (if b then st\<lparr>generic := generic st @ [VlanAction ACTION_VLAN_POP '''' 0]\<rparr> else st))
     else reject)"

definition parse_action :: "endpoint_ids \<Rightarrow> jvalue \<Rightarrow> action_vars \<Rightarrow> action_vars parsed" where
  "parse_action ids v st =
     bindP (needP (jobj v)) (\<lambda>theAction.
     bindP (sureP (assertR (length theAction = 1))) (\<lambda>_.
       foldP (parse_keyword ids) theAction st))"

definition parse_actions :: "endpoint_ids \<Rightarrow> jvalue \<Rightarrow> action_vars \<Rightarrow> action_vars parsed" where
  "parse_actions ids fr_value st =
     bindP (needP (jarr fr_value)) (\<lambda>actions_array.
     bindP (foldP (parse_action ids) actions_array (st\<lparr>foundOneOutputToPort := False\<rparr>)) (\<lambda>st.
       if \<not> foundOneOutputToPort st then reject
       else bindP (sureP (optionR AssertFailure (the_action st))) (\<lambda>a.
              accept (st\<lparr>the_action := Some (fold addGenericAction (generic st) a)\<rparr>))))"

section \<open>Rules\<close>

record rule_vars =
  rv_action :: action_vars
  rv_match :: HLMatch
  ruleID :: string
  rv_priority :: "64 word"
  foundAction :: bool
  foundMatch :: bool
  foundID :: bool

definition parse_rule_member ::
    "endpoint_ids \<Rightarrow> string \<times> jvalue \<Rightarrow> rule_vars \<Rightarrow> rule_vars parsed" where
  "parse_rule_member ids = (\<lambda>(fr_name, fr_value) st.
     if fr_name = ''id'' then
       bindP (needP (jstr fr_value)) (\<lambda>s. accept (st\<lparr>foundID := True, ruleID := s\<rparr>))
     else if fr_name = ''description'' then bindP (needP (jstr fr_value)) (\<lambda>_. accept st)
     else if fr_name = ''priority'' then
       bindP (needP (jint fr_value)) (\<lambda>i. accept (st\<lparr>rv_priority := word_of_int i\<rparr>))
     else if fr_name = ''match'' then
       bindP (needP (jobj fr_value)) (\<lambda>obj.
       bindP (parseMatch ids obj (rv_match st) (the_action (rv_action st))) (\<lambda>(m, act).
         accept (st\<lparr>foundMatch := True, rv_match := m,
                    rv_action := (rv_action st)\<lparr>the_action := act\<rparr>\<rparr>)))
     else if fr_name = ''actions'' then
       bindP (parse_actions ids fr_value (rv_action st)) (\<lambda>av.
         accept (st\<lparr>rv_action := av, foundAction := foundAction st \<or> jarr fr_value \<noteq> Some []\<rparr>))
     else reject)"

definition pops_vlan :: "GenericAction \<Rightarrow> bool" where
  "pops_vlan ga = (vlan_type ga = ACTION_VLAN_POP)"

definition new_rule_vars :: "HLMatch \<Rightarrow> rule_vars" where
  "new_rule_vars mem =
     \<lparr>rv_action = \<lparr>the_action = None, generic = [], foundOneOutputToPort = False\<rparr>,
      rv_match = HLMatch_new mem, ruleID = '''', rv_priority = 0, foundAction = False,
      foundMatch = False, foundID = False\<rparr>"

definition parse_rule ::
    "(nat \<Rightarrow> HLMatch) \<Rightarrow> endpoint_ids \<Rightarrow> jvalue \<Rightarrow> HLGraph \<Rightarrow> HLGraph parsed" where
  "parse_rule mem ids v graph =
     bindP (needP (jobj v)) (\<lambda>flow_rule.
     bindP (foldP (parse_rule_member ids) flow_rule (new_rule_vars (mem (length (rules graph))))) (\<lambda>st.
       if \<not> foundAction st \<or> \<not> foundMatch st \<or> \<not> foundID st then reject
       else bindP (sureP (optionR NullPointer (the_action (rv_action st)))) (\<lambda>action.
         let (added, graph) = addRule \<lparr>hr_match = rv_match st, hr_action = action,
               hr_priority = rv_priority st, hr_ruleID = ruleID st\<rparr> graph
         in if \<not> added then reject
            else if list_ex pops_vlan (genericActions action) \<and> \<not> checkVlanPresence (rv_match st)
            then reject
            else accept graph)))"

section \<open>The whole graph\<close>

record fg_vars =
  fg_ids :: endpoint_ids
  fg_graph :: HLGraph
  foundBigSwitch :: bool
  big_switch :: jobject

definition parse_fg_member :: "string \<times> jvalue \<Rightarrow> fg_vars \<Rightarrow> fg_vars parsed" where
  "parse_fg_member = (\<lambda>(fg_name, fg_value) st.
     if fg_name = ''id'' then bindP (needP (jstr fg_value)) (\<lambda>_. accept st)
     else if fg_name = ''name'' then
       bindP (needP (jstr fg_value)) (\<lambda>s. accept (st\<lparr>fg_graph := (fg_graph st)\<lparr>graph_name := s\<rparr>\<rparr>))
     else if fg_name = ''description'' then bindP (needP (jstr fg_value)) (\<lambda>_. accept st)
     else if fg_name = ''unify-monitoring'' then accept st
     else if fg_name = ''VNFs'' then
       bindP (parse_vnfs fg_value (fg_graph st)) (\<lambda>g. accept (st\<lparr>fg_graph := g\<rparr>))
     else if fg_name = ''end-points'' then
       bindP (parse_endpoints fg_value (fg_ids st, fg_graph st)) (\<lambda>(ids, g).
         accept (st\<lparr>fg_ids := ids, fg_graph := g\<rparr>))
     else if fg_name = ''big-switch'' then
       bindP (needP (jobj fg_value)) (\<lambda>bs. accept (st\<lparr>foundBigSwitch := True, big_switch := bs\<rparr>))
     else reject)"

definition parse_big_switch ::
    "(nat \<Rightarrow> HLMatch) \<Rightarrow> endpoint_ids \<Rightarrow> string \<times> jvalue \<Rightarrow> bool \<times> HLGraph \<Rightarrow> (bool \<times> HLGraph) parsed" where
  "parse_big_switch mem ids = (\<lambda>(bs_name, bs_value) (foundFlowRules, graph).
     if bs_name = ''flow-rules'' then
       bindP (needP (jarr bs_value)) (\<lambda>flow_rules_array.
       bindP (foldP (parse_rule mem ids) flow_rules_array graph) (\<lambda>graph. accept (True, graph)))
     else reject)"

definition parse_forwarding_graph :: "(nat \<Rightarrow> HLMatch) \<Rightarrow> jvalue \<Rightarrow> fg_vars \<Rightarrow> fg_vars parsed" where
  "parse_forwarding_graph mem v st =
     bindP (needP (jobj v)) (\<lambda>forwarding_graph.
     bindP (foldP parse_fg_member forwarding_graph st) (\<lambda>st.
     bindP (foldP (parse_big_switch mem (fg_ids st)) (big_switch st) (False, fg_graph st))
       (\<lambda>(foundFlowRules, graph).
         if foundBigSwitch st \<and> \<not> foundFlowRules then reject
         else accept (st\<lparr>fg_graph := graph\<rparr>))))"

definition no_ids :: endpoint_ids where
  "no_ids = \<lparr>iface_id = [], internal_id = [], vlan_id = [], gre_id = []\<rparr>"

definition parseGraph :: "(nat \<Rightarrow> HLMatch) \<Rightarrow> jvalue \<Rightarrow> HLGraph \<Rightarrow> HLGraph parsed" where
  "parseGraph mem v graph =
     bindP (needP (jobj v)) (\<lambda>obj.
     bindP (foldP (\<lambda>(name, value) (found, st).
                     if name = ''forwarding-graph'' then
                       bindP (parse_forwarding_graph mem value st) (\<lambda>st. accept (True, st))
                     else reject) obj
              (False, \<lparr>fg_ids = no_ids, fg_graph = graph, foundBigSwitch = False, big_switch = []\<rparr>))
       (\<lambda>(foundFlowGraph, st).
         if \<not> foundFlowGraph then reject else accept (fg_graph st)))"

section \<open>What holds of every accepted graph\<close>

definition lists_inv :: "HLGraph \<Rightarrow> bool" where
  "lists_inv g =
     (uniq_by HLRule_eq (rules g) \<and> uniq_by EndPointInterface_eq (endPointsInterface g) \<and>
      uniq_by EndPointInternal_eq (endPointsInternal g) \<and> uniq_by EndPointGre_eq (endPointsGre g) \<and>
      uniq_by EndPointVlan_eq (endPointsVlan g) \<and> uniq_by VNFs_eq (vnfs g))"

lemma lists_inv_add:
  assumes "lists_inv g"
  shows "lists_inv (snd (addRule r g))" "lists_inv (snd (addEndPointInterface ei g))"
    "lists_inv (snd (addEndPointGre eg g))" "lists_inv (snd (addEndPointVlan ev g))"
    "lists_inv (snd (addEndPointInternal en g))" "lists_inv (addVNF v g)"
    "lists_inv (g\<lparr>graph_name := n\<rparr>)"
  using assms
  by (simp_all add: lists_inv_def add_list_ops addEndPointInternal_frame hl_rules.uniq_add_unique
      hl_interfaces.uniq_add_unique hl_gres.uniq_add_unique hl_vlans.uniq_add_unique
      hl_internals.uniq_add_unique add_vnf_keys)

text \<open>Every identifier that the parser knows as one of a tunnel is the one of a tunnel of the graph.\<close>

definition gre_ids :: "endpoint_ids \<Rightarrow> string set" where
  "gre_ids ids = fst ` set (gre_id ids)"

definition gre_known :: "endpoint_ids \<Rightarrow> HLGraph \<Rightarrow> bool" where
  "gre_known ids g = (gre_ids ids \<subseteq> eg_id ` set (endPointsGre g))"

definition ep_inv :: "string \<Rightarrow> endpoint_ids \<Rightarrow> HLGraph \<Rightarrow> bool" where
  "ep_inv i ids g = (lists_inv g \<and> gre_known ids g \<and> rules g = [] \<and> graph_ID g = i)"

lemma addVNF_ID: "graph_ID (addVNF v g) = graph_ID g"
  by (simp add: addVNF_def)

lemma parse_vnfs_inv:
  assumes "parse_vnfs v g = accept g'" "ep_inv i ids g"
  shows "ep_inv i ids g'"
proof -
  obtain vs used where "foldP parse_vnf vs ([], g) = accept (used, g')"
    using assms(1) by (auto simp: parse_vnfs_def)
  then have "ep_inv i ids (snd (used, g'))"
  proof (rule foldP_invariant)
    show "ep_inv i ids (snd ([] :: string oset, g))" using assms(2) by simp
    show "ep_inv i ids (snd s')" if "ep_inv i ids (snd s)" "parse_vnf x s = accept s'" for x s s'
      using that by (cases s) (auto simp: parse_vnf_def ep_inv_def gre_known_def lists_inv_add addVNF_ID
          split: if_splits)
  qed
  then show ?thesis by simp
qed

lemma parse_gre_member_id: "parse_gre_member x gv = accept gv' \<Longrightarrow> eg_id (cur_gre gv') = eg_id (cur_gre gv)"
  by (cases x) (auto simp: parse_gre_member_def split: if_splits)

lemma addEndPointGre_ids:
  "eg_id ` set (endPointsGre (snd (addEndPointGre e g))) = insert (eg_id e) (eg_id ` set (endPointsGre g))"
proof (cases "present EndPointGre_eq e (endPointsGre g)")
  case True
  then have "eg_id e \<in> eg_id ` set (endPointsGre g)"
    unfolding present_def EndPointGre_eq_def by (auto intro: rev_image_eqI)
  with True show ?thesis by (auto simp: addEndPointGre_def add_unique_def)
qed (simp add: addEndPointGre_def add_unique_def)

lemma addEndPoint_frames:
  "rules (snd (addEndPointGre eg g)) = rules g" "graph_ID (snd (addEndPointGre eg g)) = graph_ID g"
  "rules (snd (addEndPointInterface ei g)) = rules g"
  "graph_ID (snd (addEndPointInterface ei g)) = graph_ID g"
  "endPointsGre (snd (addEndPointInterface ei g)) = endPointsGre g"
  "rules (snd (addEndPointVlan ev g)) = rules g" "graph_ID (snd (addEndPointVlan ev g)) = graph_ID g"
  "endPointsGre (snd (addEndPointVlan ev g)) = endPointsGre g"
  by (simp_all add: add_list_ops)

lemma gre_ids_put: "gre_ids (ids\<lparr>gre_id := om_put k v (gre_id ids)\<rparr>) = insert k (gre_ids ids)"
  by (simp add: gre_ids_def map_of_om_put flip: dom_map_of_conv_image_fst)

lemma parse_ep_gre_inv:
  assumes "parse_ep_gre obj st = accept st'" "ep_inv i (ep_ids st) (ep_graph st)"
  shows "ep_inv i (ep_ids st') (ep_graph st')"
proof -
  obtain gv where gv: "foldP parse_gre_member obj
      \<lparr>found_local_ip = False, found_remote_ip = False, found_key = False,
       cur_gre = \<lparr>eg_id = cur_id st, eg_name = cur_name st, eg_local_ip = '''',
         eg_remote_ip = '''', eg_gre_key = '''', eg_ttl = '''', eg_is_safe = False\<rparr>\<rparr> = accept gv"
    and st': "st' = st\<lparr>ep_ids := (ep_ids st)\<lparr>gre_id :=
        om_put (cur_id st) (eg_local_ip (cur_gre gv)) (gre_id (ep_ids st))\<rparr>,
      ep_graph := snd (addEndPointGre (cur_gre gv) (ep_graph st))\<rparr>"
    using assms(1) by (auto simp: parse_ep_gre_def split: if_splits)
  have "eg_id (cur_gre gv) = cur_id st"
    by (rule foldP_invariant[OF gv]) (simp_all add: parse_gre_member_id)
  then show ?thesis
    using assms(2) by (auto simp: st' ep_inv_def gre_known_def gre_ids_put addEndPointGre_ids
        lists_inv_add addEndPoint_frames)
qed

text \<open>The other members of an endpoint leave the graph and the tunnels alone.\<close>

lemma ep_member_keeps:
  "parse_ep_interface x st = accept st' \<Longrightarrow>
     ep_graph st' = ep_graph st \<and> gre_id (ep_ids st') = gre_id (ep_ids st)"
  "parse_ep_internal x st = accept st' \<Longrightarrow>
     ep_graph st' = ep_graph st \<and> gre_id (ep_ids st') = gre_id (ep_ids st)"
  "parse_ep_vlan x st = accept st' \<Longrightarrow>
     ep_graph st' = ep_graph st \<and> gre_id (ep_ids st') = gre_id (ep_ids st)"
  by (cases x; auto simp: parse_ep_interface_def parse_ep_internal_def parse_ep_vlan_def split: if_splits)+

lemma ep_fold_keeps:
  assumes "foldP f xs st = accept st'" "f \<in> {parse_ep_interface, parse_ep_internal, parse_ep_vlan}"
  shows "ep_graph st' = ep_graph st \<and> gre_id (ep_ids st') = gre_id (ep_ids st)"
  by (rule foldP_invariant[OF assms(1)]) (use assms(2) ep_member_keeps in auto)

lemma ep_inv_same:
  assumes "ep_inv i (ep_ids st) (ep_graph st)" "ep_graph st' = ep_graph st"
    "gre_id (ep_ids st') = gre_id (ep_ids st)"
  shows "ep_inv i (ep_ids st') (ep_graph st')"
  using assms by (simp add: ep_inv_def gre_known_def gre_ids_def)

lemma parse_ep_member_inv:
  assumes acc: "parse_ep_member name v rest st = accept st'" and "ep_inv i (ep_ids st) (ep_graph st)"
  shows "ep_inv i (ep_ids st') (ep_graph st')"
proof -
  have gre: ?thesis if "gre_id_ahead rest st = accept st1" "parse_ep_gre obj st1 = accept st'" for st1 obj
  proof -
    have "ep_ids st1 = ep_ids st" "ep_graph st1 = ep_graph st"
      using that(1) by (auto simp: gre_id_ahead_def split: option.splits)
    with parse_ep_gre_inv[OF that(2)] assms(2) show ?thesis by simp
  qed
  show ?thesis
    using acc unfolding parse_ep_member_def
    by (elim if_acceptE)
       (auto intro: ep_inv_same[OF assms(2)] gre dest!: ep_fold_keeps split: if_splits)
qed

lemma parse_endpoint_inv:
  assumes "parse_endpoint v st = accept st'" "ep_inv i (ep_ids st) (ep_graph st)"
  shows "ep_inv i (ep_ids st') (ep_graph st')"
proof -
  have members: "ep_inv i (ep_ids t) (ep_graph t)"
    if "parse_ep_members obj s = accept t" "ep_inv i (ep_ids s) (ep_graph s)" for obj s t
    using that
  proof (induction obj s rule: parse_ep_members.induct)
    case (2 name v rest st)
    then show ?case using parse_ep_member_inv by auto
  qed simp
  obtain obj st1 where "parse_ep_members obj st = accept st1" "st' = add_endpoint st1"
    using assms(1) by (auto simp: parse_endpoint_def)
  with members[OF this(1) assms(2)] show ?thesis
    by (auto simp: add_endpoint_def ep_inv_def gre_known_def lists_inv_add addEndPoint_frames
        addEndPointInternal_frame)
qed

lemma parse_endpoints_inv:
  assumes "parse_endpoints v (ids, g) = accept (ids', g')" "ep_inv i ids g"
  shows "ep_inv i ids' g'"
proof -
  obtain eps st where st: "foldP parse_endpoint eps
      \<lparr>usedEndpointID = [], cur_id = '''', cur_name = '''', cur_v_id = '''',
       cur_interface = '''', cur_group = '''', e_if = False, e_internal = False,
       e_vlan = False, ep_ids = ids, ep_graph = g\<rparr> = accept st" "ids' = ep_ids st" "g' = ep_graph st"
    using assms(1) by (auto simp: parse_endpoints_def)
  have "ep_inv i (ep_ids st) (ep_graph st)"
    by (rule foldP_invariant[OF st(1)]) (use assms(2) parse_endpoint_inv in auto)
  with st show ?thesis by simp
qed

definition entry_inv :: "endpoint_ids \<Rightarrow> HLMatch \<Rightarrow> bool" where
  "entry_inv ids m =
     ((match_type m = MATCH_PORT \<or> match_type m = MATCH_NF \<longrightarrow> input m \<noteq> None) \<and>
      (match_type m = MATCH_ENDPOINT_GRE \<longrightarrow> endpointGreID m \<in> gre_ids ids))"

definition out_inv :: "endpoint_ids \<Rightarrow> hl_output \<Rightarrow> bool" where
  "out_inv ids out = (\<forall>e s. out = ActionEndPointGre e s \<longrightarrow> e \<in> gre_ids ids)"

lemma find_endpoint_Gre: "find_endpoint ids e = Gre \<Longrightarrow> e \<in> gre_ids ids"
  by (auto simp: find_endpoint_def gre_ids_def split: if_splits option.splits prod.splits intro: rev_image_eqI
      dest: map_of_SomeD)

lemma entry_inv_sets:
  assumes "entry_inv ids m"
  shows "entry_inv ids (snd (setNFport nf p m))" "entry_inv ids (snd (setInputPort i m))"
    "entry_inv ids (snd (setEndPointInternal g m))" "entry_inv ids (setEndpointVlanID v m)"
    "entry_inv ids (name_the_entry ps s m)"
    "e \<in> gre_ids ids \<Longrightarrow> entry_inv ids (snd (setEndPointGre e m))"
  using assms
  by (auto simp: entry_inv_def setNFport_def setInputPort_def setEndPointInternal_def
      setEndPointGre_def setEndpointVlanID_def name_the_entry_def setNFEndpointPort_def
      setInputEndpoint_def split: option.splits list.splits)

lemma parse_port_in_inv:
  assumes "parse_port_in ids s m act = accept (m', act')" "entry_inv ids m"
  shows "entry_inv ids m' \<and> map_option hl_out act' = map_option hl_out act"
proof -
  have "entry_inv ids m' \<and> map_option hl_out act' = map_option hl_out act"
    if "match_on_endpoint (find_endpoint ids e) e m act = accept (m', act')" "entry_inv ids m" for e m
    using that find_endpoint_Gre[of ids e]
    by (cases "find_endpoint ids e"; cases act)
       (auto simp: match_on_endpoint_def add_to_action_def addGenericAction_def entry_inv_sets Let_def
         split: if_splits)
  moreover have "entry_inv ids (name_the_entry ps s m)" for ps
    using assms(2) by (rule entry_inv_sets)
  ultimately show ?thesis
    using assms(1)
    by (cases "port_type_of (strtok CHR '':'' s)")
       (auto simp: parse_port_in_def strcpy_def Let_def entry_inv_sets split: if_splits)
qed

lemma parseMatch_inv:
  assumes "parseMatch ids obj m act = accept (m', act')" "entry_inv ids m"
  shows "entry_inv ids m' \<and> map_option hl_out act' = map_option hl_out act"
proof -
  let ?P = "\<lambda>st. entry_inv ids (pm_match st) \<and> map_option hl_out (pm_action st) = map_option hl_out act"
  from assms(1) obtain st where st: "foldP (parse_member ids) obj
      \<lparr>foundOne = False, foundProtocolField = False, pm_match = m, pm_action = act\<rparr> = accept st"
    "m' = pm_match st" "act' = pm_action st" by (rule parseMatch_accept)
  have "?P st"
  proof (rule foldP_invariant[OF st(1), of ?P])
    fix x st st' assume P: "?P st" "parse_member ids x st = accept st'"
    obtain name v where p: "x = (name, v)" by force
    show "?P st'"
    proof (rule parse_member_cases[OF P(2)[unfolded p]], goal_cases)
      case (1 s m act)
      with P(1) show ?case using parse_port_in_inv[OF 1(4)] by simp
    next
      case (2 s m b)
      with P(1) show ?case using field_entry[OF 2(3)] by (simp add: entry_inv_def)
    qed
  qed (use assms(2) in simp)
  with st show ?thesis by simp
qed

lemma output_action_inv:
  assumes "output_action ids s = accept (Some a)"
  shows "out_inv ids (hl_out a)"
proof (cases "port_type_of (strtok CHR '':'' s)")
  case VNF_PORT_TYPE
  with assms show ?thesis by (auto simp: output_action_def out_inv_def)
next
  case EP_PORT_TYPE
  with assms obtain e where "epName s = Inr e" by (auto simp: output_action_def)
  with EP_PORT_TYPE assms show ?thesis
    using find_endpoint_Gre[of ids e]
    by (cases "find_endpoint ids e") (auto simp: output_action_def out_inv_def split: if_splits)
qed

definition act_inv :: "endpoint_ids \<Rightarrow> HLAction option \<Rightarrow> bool" where
  "act_inv ids act = (\<forall>out. map_option hl_out act = Some out \<longrightarrow> out_inv ids out)"

lemma parse_keyword_inv:
  "parse_keyword ids x st = accept st' \<Longrightarrow> act_inv ids (the_action st) \<Longrightarrow> act_inv ids (the_action st')"
  by (cases x) (auto simp: parse_keyword_def act_inv_def output_action_inv split: if_splits option.splits)

lemma parse_action_inv:
  "parse_action ids v st = accept st' \<Longrightarrow> act_inv ids (the_action st) \<Longrightarrow> act_inv ids (the_action st')"
  using foldP_invariant[where P = "\<lambda>st. act_inv ids (the_action st)" and f = "parse_keyword ids"]
    parse_keyword_inv by (auto simp: parse_action_def)

lemma fold_addGenericAction:
  "fold addGenericAction gas a = a\<lparr>genericActions := genericActions a @ gas\<rparr>"
  by (induction gas arbitrary: a) (simp_all add: addGenericAction_def)

lemma parse_actions_inv:
  assumes "parse_actions ids v st = accept st'" "act_inv ids (the_action st)"
  shows "act_inv ids (the_action st')"
proof -
  obtain vs st1 a where st1: "foldP (parse_action ids) vs (st\<lparr>foundOneOutputToPort := False\<rparr>) = accept st1"
    and a: "the_action st1 = Some a" "the_action st' = Some (fold addGenericAction (generic st1) a)"
    using assms(1) by (auto simp: parse_actions_def optionR_def split: if_splits option.splits)
  have "act_inv ids (the_action st1)"
    by (rule foldP_invariant[OF st1]) (use assms(2) parse_action_inv in auto)
  with a show ?thesis by (simp add: act_inv_def fold_addGenericAction)
qed

definition rule_vars_inv :: "endpoint_ids \<Rightarrow> rule_vars \<Rightarrow> bool" where
  "rule_vars_inv ids st = (entry_inv ids (rv_match st) \<and> act_inv ids (the_action (rv_action st)))"

lemma parse_rule_member_inv:
  assumes "parse_rule_member ids x st = accept st'" "rule_vars_inv ids st"
  shows "rule_vars_inv ids st'"
proof -
  obtain name v where x: "x = (name, v)" by force
  from assms(1) show ?thesis
    unfolding x parse_rule_member_def prod.case
  proof (elim if_acceptE, goal_cases)
    case 4
    then obtain obj m act where m: "parseMatch ids obj (rv_match st) (the_action (rv_action st)) = accept (m, act)"
      and "st' = st\<lparr>foundMatch := True, rv_match := m, rv_action := (rv_action st)\<lparr>the_action := act\<rparr>\<rparr>"
      by auto
    with parseMatch_inv[OF m] assms(2) show ?case by (simp add: rule_vars_inv_def act_inv_def)
  next
    case 5
    then obtain av b where av: "parse_actions ids v (rv_action st) = accept av"
      and "st' = st\<lparr>rv_action := av, foundAction := b\<rparr>" by auto
    with parse_actions_inv[OF av] assms(2) show ?case by (simp add: rule_vars_inv_def)
  qed (use assms(2) in \<open>auto simp: rule_vars_inv_def\<close>)
qed

definition rule_ok :: "endpoint_ids \<Rightarrow> HLRule \<Rightarrow> bool" where
  "rule_ok ids r =
     (entry_inv ids (hr_match r) \<and> out_inv ids (hl_out (hr_action r)) \<and>
      (list_ex pops_vlan (genericActions (hr_action r)) \<longrightarrow> checkVlanPresence (hr_match r)))"

lemma parse_rule_accept:
  assumes "parse_rule mem ids v g = accept g'"
  obtains r where "rule_ok ids r" "\<not> present HLRule_eq r (rules g)" "g' = g\<lparr>rules := rules g @ [r]\<rparr>"
proof -
  obtain obj st a where st: "foldP (parse_rule_member ids) obj (new_rule_vars (mem (length (rules g)))) = accept st"
    and a: "the_action (rv_action st) = Some a"
    and g': "addRule \<lparr>hr_match = rv_match st, hr_action = a, hr_priority = rv_priority st,
      hr_ruleID = ruleID st\<rparr> g = (True, g')"
    and pop: "list_ex pops_vlan (genericActions a) \<longrightarrow> checkVlanPresence (rv_match st)"
    using assms by (auto simp: parse_rule_def optionR_def Let_def split: if_splits option.splits prod.splits)
  have "rule_vars_inv ids st"
    by (rule foldP_invariant[OF st])
       (auto simp: rule_vars_inv_def new_rule_vars_def entry_inv_def act_inv_def HLMatch_new_def
         dest: parse_rule_member_inv)
  with a g' pop show thesis
    by (intro that) (auto simp: rule_vars_inv_def act_inv_def rule_ok_def addRule_def add_unique_def
        split: if_splits)
qed

lemma parse_fg_member_inv:
  assumes "parse_fg_member x st = accept st'" "ep_inv i (fg_ids st) (fg_graph st)"
  shows "ep_inv i (fg_ids st') (fg_graph st')"
proof -
  obtain name v where x: "x = (name, v)" by force
  from assms(1) show ?thesis
    unfolding x parse_fg_member_def prod.case
  proof (elim if_acceptE, goal_cases)
    case 2
    with assms(2) show ?case by (auto simp: ep_inv_def gre_known_def lists_inv_add)
  next
    case 5
    with assms(2) show ?case using parse_vnfs_inv by auto
  next
    case 6
    with assms(2) show ?case using parse_endpoints_inv by auto
  qed (use assms(2) in auto)
qed

lemma parse_rules_inv:
  assumes "foldP (parse_rule mem ids) rs g = accept g'" "lists_inv g" "\<forall>r \<in> set (rules g). rule_ok ids r"
  shows "lists_inv g' \<and> (\<forall>r \<in> set (rules g'). rule_ok ids r) \<and> endPointsGre g' = endPointsGre g \<and>
         graph_ID g' = graph_ID g"
proof (rule foldP_invariant[OF assms(1)])
  fix v h h'
  assume h: "lists_inv h \<and> (\<forall>r \<in> set (rules h). rule_ok ids r) \<and> endPointsGre h = endPointsGre g \<and>
      graph_ID h = graph_ID g" and "parse_rule mem ids v h = accept h'"
  from this(2) obtain r where r: "rule_ok ids r" "\<not> present HLRule_eq r (rules h)"
    "h' = h\<lparr>rules := rules h @ [r]\<rparr>" by (rule parse_rule_accept)
  then have "h' = snd (addRule r h)" by (simp add: addRule_def add_unique_def)
  then have "lists_inv h'" using h lists_inv_add(1) by simp
  with h r show "lists_inv h' \<and> (\<forall>r \<in> set (rules h'). rule_ok ids r) \<and>
      endPointsGre h' = endPointsGre g \<and> graph_ID h' = graph_ID g" by auto
qed (use assms in simp)

lemma parse_big_switch_inv:
  assumes "foldP (parse_big_switch mem ids) bs (b, g) = accept (b', g')" "lists_inv g"
    "\<forall>r \<in> set (rules g). rule_ok ids r"
  shows "lists_inv g' \<and> (\<forall>r \<in> set (rules g'). rule_ok ids r) \<and> endPointsGre g' = endPointsGre g \<and>
         graph_ID g' = graph_ID g"
proof -
  let ?P = "\<lambda>h. lists_inv h \<and> (\<forall>r \<in> set (rules h). rule_ok ids r) \<and>
      endPointsGre h = endPointsGre g \<and> graph_ID h = graph_ID g"
  have "?P (snd (b', g'))"
  proof (rule foldP_invariant[OF assms(1), of "\<lambda>p. ?P (snd p)"])
    fix x p p' assume p: "?P (snd p)" "parse_big_switch mem ids x p = accept p'"
    obtain name v where x: "x = (name, v)" by force
    obtain rs where "foldP (parse_rule mem ids) rs (snd p) = accept (snd p')"
      using p(2) by (cases p) (auto simp: x parse_big_switch_def split: if_splits)
    with p(1) show "?P (snd p')" using parse_rules_inv by fastforce
  qed (use assms in simp)
  then show ?thesis by simp
qed

lemma parseGraph_accept:
  assumes "parseGraph mem (JObj obj) g = accept g'" "distinct (map fst obj)"
  obtains fg st b where "obj = [(''forwarding-graph'', JObj fg)]"
    "foldP parse_fg_member fg
       \<lparr>fg_ids = no_ids, fg_graph = g, foundBigSwitch = False, big_switch = []\<rparr> = accept st"
    "foldP (parse_big_switch mem (fg_ids st)) (big_switch st) (False, fg_graph st) = accept (b, g')"
    "foundBigSwitch st \<longrightarrow> b"
proof -
  let ?f = "\<lambda>(name, value) (found, st).
         if name = ''forwarding-graph'' then
           bindP (parse_forwarding_graph mem value st) (\<lambda>st. accept (True, st))
         else reject"
  have keys: "\<forall>p \<in> set xs. fst p = ''forwarding-graph''" if "foldP ?f xs s = accept t" for xs s t
    using that by (induction xs arbitrary: s) (auto split: if_splits)
  obtain b st where f: "foldP ?f obj
      (False, \<lparr>fg_ids = no_ids, fg_graph = g, foundBigSwitch = False, big_switch = []\<rparr>) = accept (b, st)"
    and b: "b" "g' = fg_graph st"
    using assms(1) by (auto simp: parseGraph_def split: if_splits)
  have "obj \<noteq> []" using f b by auto
  moreover have "length obj \<le> 1"
    using keys[OF f] assms(2) by (cases obj; cases "tl obj") auto
  ultimately obtain v where obj: "obj = [(''forwarding-graph'', v)]"
    using keys[OF f] by (cases obj) auto
  with f have "parse_forwarding_graph mem v
      \<lparr>fg_ids = no_ids, fg_graph = g, foundBigSwitch = False, big_switch = []\<rparr> = accept st"
    by (simp split: if_splits)
  then obtain fg st1 b1 where "v = JObj fg"
    "foldP parse_fg_member fg
       \<lparr>fg_ids = no_ids, fg_graph = g, foundBigSwitch = False, big_switch = []\<rparr> = accept st1"
    "foldP (parse_big_switch mem (fg_ids st1)) (big_switch st1) (False, fg_graph st1) = accept (b1, g')"
    "foundBigSwitch st1 \<longrightarrow> b1"
    using b by (cases v) (auto simp: parse_forwarding_graph_def split: if_splits)
  with obj show thesis by (intro that) simp_all
qed

lemma rule_ok_reads:
  assumes "rule_ok ids r" "gre_ids ids \<subseteq> E"
  shows "(matchOnPort (hr_match r) \<longrightarrow> (\<exists>p. getPhysicalPort (hr_match r) = Inr p)) \<and>
    (matchOnNF (hr_match r) \<longrightarrow> (\<exists>nf. getNF (hr_match r) = Inr nf)) \<and>
    (matchOnEndPointGre (hr_match r) \<longrightarrow> endpointGreID (hr_match r) \<in> E) \<and>
    (\<forall>e s. hl_out (hr_action r) = ActionEndPointGre e s \<longrightarrow> e \<in> E) \<and>
    (list_ex pops_vlan (genericActions (hr_action r)) \<longrightarrow> checkVlanPresence (hr_match r))"
  using assms
  by (auto simp: rule_ok_def entry_inv_def out_inv_def matchOn_defs getPhysicalPort_def getNF_def)


section \<open>An example\<close>

definition ex_fg :: jobject where
  "ex_fg =
     [(''big-switch'', JObj [(''flow-rules'', JArr [JObj
         [(''actions'', JArr [JObj [(''output_to_port'', JStr ''endpoint:g1'')]]),
          (''id'', JStr ''r1''), (''match'', JObj [(''port_in'', JStr ''endpoint:e1'')])]])]),
      (''end-points'', JArr
        [JObj [(''gre-tunnel'', JObj [(''gre-key'', JStr ''1''), (''local-ip'', JStr ''10.0.0.1''),
                 (''remote-ip'', JStr ''10.0.0.2'')]), (''id'', JStr ''g1'')],
         JObj [(''id'', JStr ''e1''), (''interface'', JObj [(''if-name'', JStr ''eth0'')])]])]"

definition ex_fg_ids :: endpoint_ids where
  "ex_fg_ids = \<lparr>iface_id = [(''e1'', ''eth0'')], internal_id = [], vlan_id = [],
     gre_id = [(''g1'', ''10.0.0.1'')]\<rparr>"

definition ex_fg_graph :: HLGraph where
  "ex_fg_graph = (HLGraph_new ''g'')\<lparr>
     endPointsInterface := [\<lparr>ei_id = ''e1'', ei_name = '''', ei_interface = ''eth0''\<rparr>],
     endPointsGre := [\<lparr>eg_id = ''g1'', eg_name = '''', eg_local_ip = ''10.0.0.1'',
       eg_remote_ip = ''10.0.0.2'', eg_gre_key = ''1'', eg_ttl = '''', eg_is_safe = False\<rparr>]\<rparr>"

definition ex_fg_rule :: HLRule where
  "ex_fg_rule =
     \<lparr>hr_match = (HLMatch_new zero_HLMatch)\<lparr>input := Some ''eth0'',
        input_endpoint := Some ''endpoint:e1'', match_type := MATCH_PORT\<rparr>,
      hr_action = \<lparr>hl_out = ActionEndPointGre ''g1'' ''endpoint:g1'', genericActions = []\<rparr>,
      hr_priority = 0, hr_ruleID = ''r1''\<rparr>"

lemma ex_fg_endpoints:
  "parse_endpoints (JArr
        [JObj [(''gre-tunnel'', JObj [(''gre-key'', JStr ''1''), (''local-ip'', JStr ''10.0.0.1''),
                 (''remote-ip'', JStr ''10.0.0.2'')]), (''id'', JStr ''g1'')],
         JObj [(''id'', JStr ''e1''), (''interface'', JObj [(''if-name'', JStr ''eth0'')])]])
      (no_ids, HLGraph_new ''g'') = accept (ex_fg_ids, ex_fg_graph)"
  by (simp add: parse_endpoints_def parse_endpoint_def parse_ep_member_def gre_id_ahead_def
      parse_ep_gre_def parse_gre_member_def add_endpoint_def parse_ep_interface_def no_ids_def
      ex_fg_ids_def ex_fg_graph_def add_list_ops add_unique_def present_def HLGraph_new_def
      os_insert_def insort_insert_key_def del: bindP_accept)

lemma ex_fg_match:
  "parseMatch ex_fg_ids [(''port_in'', JStr ''endpoint:e1'')] (HLMatch_new zero_HLMatch) act =
   accept (hr_match ex_fg_rule, act)"
  by (simp add: parseMatch_def parse_member_def parse_port_in_def strcpy_def BUFFER_SIZE_def strtok.simps
      port_type_of_def name_the_entry_def epName_def find_endpoint_def ex_fg_ids_def match_on_endpoint_def
      setInputPort_def setInputEndpoint_def ex_fg_rule_def HLMatch_new_def del: bindP_accept)

lemma ex_fg_actions:
  "parse_actions ex_fg_ids (JArr [JObj [(''output_to_port'', JStr ''endpoint:g1'')]])
     \<lparr>the_action = None, generic = [], foundOneOutputToPort = False\<rparr> =
   accept \<lparr>the_action = Some (hr_action ex_fg_rule), generic = [], foundOneOutputToPort = True\<rparr>"
  by (simp add: parse_actions_def parse_action_def assertR_def parse_keyword_def strcpy_def BUFFER_SIZE_def
      output_action_def strtok.simps port_type_of_def epName_def find_endpoint_def ex_fg_ids_def
      optionR_def ex_fg_rule_def del: bindP_accept)

lemma ex_fg_parsed:
  "parseGraph (\<lambda>_. zero_HLMatch) (JObj [(''forwarding-graph'', JObj ex_fg)]) (HLGraph_new ''g'') =
   accept (ex_fg_graph\<lparr>rules := [ex_fg_rule]\<rparr>)"
proof -
  have "parse_rule (\<lambda>_. zero_HLMatch) ex_fg_ids (JObj
         [(''actions'', JArr [JObj [(''output_to_port'', JStr ''endpoint:g1'')]]),
          (''id'', JStr ''r1''), (''match'', JObj [(''port_in'', JStr ''endpoint:e1'')])]) ex_fg_graph =
      accept (ex_fg_graph\<lparr>rules := [ex_fg_rule]\<rparr>)"
    by (simp add: parse_rule_def parse_rule_member_def new_rule_vars_def ex_fg_match ex_fg_actions
        optionR_def addRule_def add_unique_def present_def del: bindP_accept)
       (simp add: ex_fg_rule_def ex_fg_graph_def HLGraph_new_def)
  then show ?thesis
    by (simp add: parseGraph_def parse_forwarding_graph_def ex_fg_def parse_fg_member_def ex_fg_endpoints
        parse_big_switch_def del: bindP_accept)
qed


end
