(* ===== verification/Parse_Print.thy ===== *)
theory Parse_Print
  imports Graph_Parser
begin

text \<open>
  The parser of graphs on what the orchestrator itself prints, the \<open>toJSON\<close> methods of
  \<open>graph/high_level_graph\<close> and \<open>graph/match.cc\<close>: a graph whose rules lead from ports and functions to ports
  and functions is read back as it was; a rule with a VLAN action, or a match on the protocol, is
  not, and a tunnel loses its name.
\<close>

section \<open>What is not read back\<close>

lemma fold_VlanAction_length:
  "length obj \<le> length (fold VlanAction_toJSON gas obj)"
proof (induction gas arbitrary: obj)
  case (Cons ga gas)
  have "length m \<le> length (om_put k v m)" for k and v :: jvalue and m :: jobject
    by (induction m) auto
  then have "length obj \<le> length (VlanAction_toJSON ga obj)"
    by (auto simp: VlanAction_toJSON_def split: vlan_action_t.split)
  also have "\<dots> \<le> length (fold VlanAction_toJSON gas (VlanAction_toJSON ga obj))" by (rule Cons)
  finally show ?case by simp
qed simp

lemma om_put_length:
  "k \<notin> fst ` set m \<Longrightarrow> length (om_put k v m) = Suc (length m)"
  by (induction m) auto

lemma fold_VlanAction_two:
  assumes "\<exists>ga \<in> set gas. vlan_type ga \<in> {ACTION_VLAN_PUSH, ACTION_VLAN_POP}"
    "fst ` set obj \<inter> {''push_vlan'', ''pop_vlan''} = {}"
  shows "length obj < length (fold VlanAction_toJSON gas obj)"
  using assms
proof (induction gas arbitrary: obj)
  case (Cons ga gas)
  show ?case
  proof (cases "vlan_type ga \<in> {ACTION_VLAN_PUSH, ACTION_VLAN_POP}")
    case True
    then have "length (VlanAction_toJSON ga obj) = Suc (length obj)"
      using Cons.prems(2) by (auto simp: VlanAction_toJSON_def om_put_length)
    with fold_VlanAction_length[of "VlanAction_toJSON ga obj" gas] show ?thesis by simp
  next
    case False
    then have "VlanAction_toJSON ga obj = obj"
      by (cases "vlan_type ga") (auto simp: VlanAction_toJSON_def)
    with False Cons show ?thesis by auto
  qed
qed simp

text \<open>
  (C35) The text of a rule that pushes or pops a VLAN tag, as the orchestrator prints it, makes the
  parser fail its assertion that an element of the list of actions has one keyword: the printed
  text has all the actions of the rule in one element.
\<close>

theorem printed_vlan_action_aborts:
  assumes "HLRule_toJSON r = Inr j"
    "\<exists>ga \<in> set (genericActions (hr_action r)). vlan_type ga \<in> {ACTION_VLAN_PUSH, ACTION_VLAN_POP}"
  shows "parse_rule mem ids (JObj j) g = Inl AssertFailure"
proof -
  let ?a = "HLAction_toJSON (hr_action r)"
  have "1 < length ?a"
    using fold_VlanAction_two[OF assms(2), of "[(''output_to_port'', JStr l)]" for l]
    by (simp add: HLAction_toJSON_def)
  then have "parse_actions ids (JArr [JObj ?a]) st = Inl AssertFailure" for st
    by (simp add: parse_actions_def parse_action_def assertR_def)
  moreover obtain rest where "j = (''actions'', JArr [JObj ?a]) # rest"
    using assms(1) by (auto simp: HLRule_toJSON_def bindR_def split: sum.splits)
  ultimately show ?thesis
    by (simp add: parse_rule_def parse_rule_member_def)
qed

lemma foldP_rejects:
  "x \<in> set xs \<Longrightarrow> (\<And>s s'. f x s \<noteq> accept s') \<Longrightarrow> foldP f xs s \<noteq> accept t"
  by (induction xs arbitrary: s) auto

lemma ip_proto_unknown: "parse_field ''ip_proto'' s m = reject"
  by (simp add: parse_field_def parse_field_parts)

lemma put_other:
  "key \<noteq> k \<Longrightarrow> map_of (put_if b k s obj) key = map_of obj key"
  "key \<noteq> k \<Longrightarrow> map_of (put_str k p obj) key = map_of obj key"
  "key \<noteq> k \<Longrightarrow> map_of (om_put k v obj) key = map_of obj key"
  by (simp_all add: put_if_def put_str_def map_of_om_put split: option.split)

lemma put_own: "map_of (put_if True k s obj) k = Some (JStr s)"
  by (simp add: put_if_def map_of_om_put)

lemma toJSON_transport_other:
  "map_of (toJSON_tcp_udp m obj) ''ip_proto'' = map_of obj ''ip_proto''"
  "map_of (toJSON_sctp m obj) ''ip_proto'' = map_of obj ''ip_proto''"
  by (simp_all add: toJSON_tcp_udp_def toJSON_sctp_def map_of_om_put)

lemma toJSON_protocol:
  "isIpProto m \<Longrightarrow> map_of (Match_toJSON m obj) ''ip_proto'' = Some (JStr (dec (unat (ipProto m))))"
  unfolding Match_toJSON_def Let_def
  by (simp add: toJSON_transport_other toJSON_gre_def toJSON_mpls_def toJSON_icmpv6_def toJSON_ipv6_def
      toJSON_arp_def toJSON_icmpv4_def toJSON_ipv4_def put_other put_own)

text \<open>
  (C36) The text of a match on the protocol of IP, as the orchestrator prints it, is never accepted:
  the printed key is \<open>ip_proto\<close>, the parser knows \<open>protocol\<close>.
\<close>

theorem printed_protocol_not_read:
  assumes "isIpProto m" "HLMatch_toJSON m = Inr j"
  shows "parseMatch ids j m' act \<noteq> accept r"
proof -
  obtain obj where "j = Match_toJSON m obj"
    using assms(2) by (auto simp: HLMatch_toJSON_def bindR_def split: sum.splits)
  then have "(''ip_proto'', JStr (dec (unat (ipProto m)))) \<in> set j"
    using toJSON_protocol[OF assms(1)] by (simp add: map_of_SomeD)
  then have "foldP (parse_member ids) j st \<noteq> accept st'" for st st'
    by (rule foldP_rejects) (simp add: parse_member_def ip_proto_unknown)
  then show ?thesis by (auto simp: parseMatch_def)
qed

text \<open>
  (C38) A tunnel that is printed and parsed gets the name of the endpoint parsed before it, or the
  empty one, instead of its own: the name comes behind the tunnel in the order of the keys.
\<close>

theorem gre_takes_previous_name:
  assumes "eg_id e \<notin> set (usedEndpointID st)" "\<not> e_if st" "\<not> e_internal st" "\<not> e_vlan st"
  shows "\<exists>st'. parse_endpoint (JObj (EndPointGre_toJSON e)) st = accept st' \<and>
    ep_graph st' = snd (addEndPointGre (e\<lparr>eg_name := cur_name st\<rparr>) (ep_graph st)) \<and>
    cur_name st' = eg_name e"
  using assms
  by (cases e; cases "eg_ttl e = ''''")
     (simp_all add: EndPointGre_toJSON_def put_if_def parse_endpoint_def parse_ep_member_def
       gre_id_ahead_def parse_ep_gre_def parse_gre_member_def add_endpoint_def)

text \<open>
  (C37) A rule whose output names an endpoint the graph does not have makes the parser fail its
  assertion that the action is not null, whatever else the rule says.
\<close>

lemma output_unknown:
  assumes "length s < BUFFER_SIZE" "strtok CHR '':'' s = ''endpoint'' # ps"
    "find_endpoint ids (colon_piece 1 s) = NotFound"
  shows "output_action ids s = accept None"
  using assms by (simp add: output_action_def port_type_of_def epName_piece)

theorem unknown_output_aborts:
  assumes "length s < BUFFER_SIZE" "strtok CHR '':'' s = ''endpoint'' # ps"
    "find_endpoint ids (colon_piece 1 s) = NotFound"
  shows "parse_rule mem ids
           (JObj ((''actions'', JArr [JObj [(''output_to_port'', JStr s)]]) # rest)) g = Inl AssertFailure"
  using output_unknown[OF assms] assms(1)
  by (simp add: parse_rule_def parse_rule_member_def new_rule_vars_def parse_actions_def
      parse_action_def assertR_def parse_keyword_def strcpy_def optionR_def)

section \<open>What is read back\<close>

text \<open>The places that rules lead from and to: the port of an interface, and the port of a function.\<close>

datatype place =
    At_port string string
  | At_nf string string nat

fun place_name :: "place \<Rightarrow> string" where
  "place_name (At_port e p) = ''endpoint:'' @ e"
| "place_name (At_nf nf x n) = ''vnf:'' @ nf @ '':'' @ x @ '':'' @ dec n"

definition piece :: "string \<Rightarrow> bool" where
  "piece s = (s \<noteq> [] \<and> CHR '':'' \<notin> set s)"

fun place_ok :: "endpoint_ids \<Rightarrow> place \<Rightarrow> bool" where
  "place_ok ids (At_port e p) =
     (piece e \<and> map_of (iface_id ids) e = Some p \<and> length (place_name (At_port e p)) < BUFFER_SIZE)"
| "place_ok ids (At_nf nf x n) =
     (piece nf \<and> piece x \<and> n < 2 ^ 32 \<and> length (place_name (At_nf nf x n)) < BUFFER_SIZE)"

fun place_match :: "HLMatch \<Rightarrow> place \<Rightarrow> HLMatch" where
  "place_match m0 (At_port e p) =
     (HLMatch_new m0)\<lparr>input := Some p, input_endpoint := Some (place_name (At_port e p)),
       match_type := MATCH_PORT\<rparr>"
| "place_match m0 (At_nf nf x n) =
     (HLMatch_new m0)\<lparr>input := Some nf, nf_port := of_nat n + 1,
       nf_endpoint_port := Some (place_name (At_nf nf x n)), match_type := MATCH_NF\<rparr>"

fun place_out :: "place \<Rightarrow> hl_output" where
  "place_out (At_port e p) = ActionPort p (place_name (At_port e p))"
| "place_out (At_nf nf x n) = ActionNetworkFunction nf (place_name (At_nf nf x n)) (of_nat n + 1)"

lemma strtok_place:
  "place_ok ids (At_port e p) \<Longrightarrow> strtok CHR '':'' (place_name (At_port e p)) = [''endpoint'', e]"
  "place_ok ids (At_nf nf x n) \<Longrightarrow>
     strtok CHR '':'' (place_name (At_nf nf x n)) = [''vnf'', nf, x, dec n]"
proof -
  assume "place_ok ids (At_port e p)"
  then show "strtok CHR '':'' (place_name (At_port e p)) = [''endpoint'', e]"
    using strtok_first[of "''endpoint''" "CHR '':''" e] strtok_single[of e]
    by (simp add: piece_def)
next
  assume "place_ok ids (At_nf nf x n)"
  moreover have "CHR '':'' \<notin> set (dec n)"
    using dec_digits[of n] by (auto simp: is_digit_def)
  ultimately show "strtok CHR '':'' (place_name (At_nf nf x n)) = [''vnf'', nf, x, dec n]"
    using strtok_first[of "''vnf''" "CHR '':''" "nf @ '':'' @ x @ '':'' @ dec n"]
      strtok_first[of nf "CHR '':''" "x @ '':'' @ dec n"] strtok_first[of x "CHR '':''" "dec n"]
      strtok_single[of "dec n"]
    by (simp add: piece_def)
qed

lemma vnf_and_port_place:
  assumes "place_ok ids (At_nf nf x n)"
  shows "vnf_and_port [''vnf'', nf, x, dec n] = accept (nf, of_nat n + 1)"
proof -
  have "CHR '':'' \<notin> set (dec n)"
    using dec_digits[of n] by (auto simp: is_digit_def)
  then have "strtok CHR '':'' (nf @ '':'' @ dec n) = [nf, dec n]"
    using assms strtok_first[of nf "CHR '':''" "dec n"] strtok_single[of "dec n"] by (simp add: piece_def)
  moreover have "length (nf @ '':'' @ dec n) < BUFFER_SIZE" using assms by simp
  moreover have "sscanf_u (dec n) = Some (of_nat n)" using assms by (intro sscanf_u_dec) simp
  ultimately show ?thesis
    using assms by (simp add: vnf_and_port_def vnf_id_tmp_def nfId_def nfPort_def nfIsPort_def strcpy_def piece_def)
qed

lemma place_parsed:
  assumes "place_ok ids pl"
  shows "parse_port_in ids (place_name pl) (HLMatch_new m0) act = accept (place_match m0 pl, act)"
    "output_action ids (place_name pl) = accept (Some \<lparr>hl_out = place_out pl, genericActions = []\<rparr>)"
    "length (place_name pl) < BUFFER_SIZE"
proof -
  show len: "length (place_name pl) < BUFFER_SIZE" using assms by (cases pl) simp_all
  have "parse_port_in ids (place_name pl) (HLMatch_new m0) act = accept (place_match m0 pl, act) \<and>
    output_action ids (place_name pl) = accept (Some \<lparr>hl_out = place_out pl, genericActions = []\<rparr>)"
  proof (cases pl)
    case (At_port e p)
    have tok: "strtok CHR '':'' (place_name pl) = [''endpoint'', e]"
      using assms unfolding At_port by (rule strtok_place)
    then have "colon_piece 1 (place_name pl) = e" by (simp add: colon_piece_def)
    moreover have "find_endpoint ids e = Iface p"
      using assms by (simp add: At_port find_endpoint_def piece_def)
    ultimately show ?thesis
      using len tok
      by (simp add: At_port parse_port_in_def output_action_def strcpy_def port_type_of_def epName_piece
          name_the_entry_def match_on_endpoint_def setInputPort_def setInputEndpoint_def HLMatch_new_def
          del: place_name.simps)
  next
    case (At_nf nf x n)
    then show ?thesis
      using assms len strtok_place(2)[of ids nf x n] vnf_and_port_place[of ids nf x n]
      by (simp add: parse_port_in_def output_action_def strcpy_def port_type_of_def
          name_the_entry_def setNFport_def setNFEndpointPort_def HLMatch_new_def
          del: place_name.simps place_ok.simps)
  qed
  then show "parse_port_in ids (place_name pl) (HLMatch_new m0) act = accept (place_match m0 pl, act)"
    "output_action ids (place_name pl) = accept (Some \<lparr>hl_out = place_out pl, genericActions = []\<rparr>)"
    by simp_all
qed

lemma place_printed:
  "HLMatch_toJSON (place_match m0 pl) = Inr [(''port_in'', JStr (place_name pl))]"
  "out_label (place_out pl) = place_name pl"
  by (cases pl; simp add: HLMatch_toJSON_def Match_toJSON_def toJSON_sections put_str_def put_if_def
      HLMatch_new_def Match_new_def)+

definition plain_rule :: "endpoint_ids \<Rightarrow> HLMatch \<Rightarrow> HLRule \<Rightarrow> bool" where
  "plain_rule ids m0 r =
     (\<exists>src dst. place_ok ids src \<and> place_ok ids dst \<and> hr_match r = place_match m0 src \<and>
        hr_action r = \<lparr>hl_out = place_out dst, genericActions = []\<rparr> \<and> uint (hr_priority r) < 2 ^ 31)"

lemma parse_printed_rule:
  assumes "plain_rule ids (mem (length (rules g))) r" "\<not> present HLRule_eq r (rules g)"
  shows "\<exists>j. HLRule_toJSON r = Inr j \<and>
    parse_rule mem ids (JObj j) g = accept (g\<lparr>rules := rules g @ [r]\<rparr>)"
proof -
  from assms(1) obtain src dst where p: "place_ok ids src" "place_ok ids dst"
    "hr_match r = place_match (mem (length (rules g))) src"
    "hr_action r = \<lparr>hl_out = place_out dst, genericActions = []\<rparr>" "uint (hr_priority r) < 2 ^ 31"
    by (auto simp: plain_rule_def)
  have "0 \<le> uint (hr_priority r)" by simp
  then have "- 2147483648 \<le> uint (hr_priority r)" by linarith
  then have prio: "jint (JInt (uint (hr_priority r))) = Some (uint (hr_priority r))"
    using p(5) by (simp add: signed_of_int signed_take_bit_int_eq_self_iff del: of_int_uint)
  have r_eq: "\<lparr>hr_match = hr_match r, hr_action = \<lparr>hl_out = place_out dst, genericActions = []\<rparr>,
      hr_priority = hr_priority r, hr_ruleID = hr_ruleID r\<rparr> = r"
    using p(4) by (cases r) simp
  have j: "HLRule_toJSON r = Inr [(''actions'', JArr [JObj [(''output_to_port'', JStr (place_name dst))]]),
      (''id'', JStr (hr_ruleID r)), (''match'', JObj [(''port_in'', JStr (place_name src))]),
      (''priority'', JInt (uint (hr_priority r)))]"
    by (simp add: HLRule_toJSON_def p(3,4) place_printed HLAction_toJSON_def)
  have m: "parseMatch ids [(''port_in'', JStr (place_name src))] (HLMatch_new (mem (length (rules g)))) act =
      accept (hr_match r, act)" for act
    by (simp add: parseMatch_def parse_member_def place_parsed[OF p(1)] p(3))
  have a: "parse_actions ids (JArr [JObj [(''output_to_port'', JStr (place_name dst))]])
      \<lparr>the_action = None, generic = [], foundOneOutputToPort = False\<rparr> =
      accept \<lparr>the_action = Some (hr_action r), generic = [], foundOneOutputToPort = True\<rparr>"
    by (simp add: parse_actions_def parse_action_def assertR_def parse_keyword_def strcpy_def
        place_parsed[OF p(2)] p(4) optionR_def)
  have "parse_rule mem ids (JObj [(''actions'', JArr [JObj [(''output_to_port'', JStr (place_name dst))]]),
      (''id'', JStr (hr_ruleID r)), (''match'', JObj [(''port_in'', JStr (place_name src))]),
      (''priority'', JInt (uint (hr_priority r)))]) g = accept (g\<lparr>rules := rules g @ [r]\<rparr>)"
    using assms(2) p(4)
    by (simp add: parse_rule_def parse_rule_member_def new_rule_vars_def a m prio optionR_def addRule_def
        add_unique_def r_eq del: jint.simps bindP_accept)
  with j show ?thesis by blast
qed

text \<open>Network functions and endpoints are read back one after the other.\<close>

definition mac_ok :: "vnf_port \<Rightarrow> bool" where
  "mac_ok p = (let mac = mac_address (vp_configuration p)
               in mac = '''' \<or> validateMac mac \<and> isUnicastMac mac = Inr True)"

lemma parse_printed_port:
  assumes "mac_ok p"
  shows "parse_vnf_port (JObj (vnf_port_toJSON p)) ps = accept (ps @ [p])"
proof (cases "mac_address (vp_configuration p) = ''''")
  case True
  have "p = \<lparr>vp_id = vp_id p, vp_name = vp_name p, vp_configuration = \<lparr>mac_address = ''''\<rparr>\<rparr>"
    using True by (cases p; cases "vp_configuration p") simp
  then show ?thesis
    by (simp add: vnf_port_toJSON_def parse_vnf_port_def parse_port_member_def new_port_def put_if_def
        True Let_def del: bindP_accept)
next
  case False
  have "p = \<lparr>vp_id = vp_id p, vp_name = vp_name p,
      vp_configuration = \<lparr>mac_address = mac_address (vp_configuration p)\<rparr>\<rparr>"
    by (cases p; cases "vp_configuration p") simp
  with False assms show ?thesis
    by (simp add: vnf_port_toJSON_def parse_vnf_port_def parse_port_member_def new_port_def put_if_def
        mac_ok_def Let_def del: bindP_accept)
qed

lemma parse_printed_ports:
  "\<forall>p \<in> set qs. mac_ok p \<Longrightarrow>
     foldP parse_vnf_port (map (\<lambda>p. JObj (vnf_port_toJSON p)) qs) ps = accept (ps @ qs)"
  by (induction qs arbitrary: ps) (simp_all add: parse_printed_port del: bindP_accept)

lemma parse_printed_groups:
  "foldP (\<lambda>g gs. bindP (needP (jstr g)) (\<lambda>s. accept (gs @ [s]))) (map JStr xs) gs = accept (gs @ xs)"
  by (induction xs arbitrary: gs) (simp_all del: bindP_accept)

lemma parse_printed_vnf:
  assumes "\<forall>p \<in> set (vnf_ports v). mac_ok p" "vnf_id v \<notin> set used"
  shows "parse_vnf (JObj (VNFs_toJSON v)) (used, g) = accept (os_insert (vnf_id v) used, addVNF v g)"
proof -
  note run = VNFs_toJSON_def parse_vnf_def parse_vnf_member_def new_vnf_def
    parse_printed_ports[OF assms(1)] parse_printed_groups
  show ?thesis
  proof (cases "vnf_groups v = []")
    case True
    have v: "addVNF \<lparr>vnf_id = vnf_id v, vnf_name = vnf_name v, vnf_groups = [],
      vnf_template = vnf_template v, vnf_ports = vnf_ports v\<rparr> g = addVNF v g" using True by (cases v) simp
    from True show ?thesis using assms(2) by (simp add: run v Let_def del: bindP_accept)
  next
    case False
    have v: "addVNF \<lparr>vnf_id = vnf_id v, vnf_name = vnf_name v, vnf_groups = vnf_groups v,
      vnf_template = vnf_template v, vnf_ports = vnf_ports v\<rparr> g = addVNF v g" by (cases v) simp
    from False show ?thesis using assms(2) by (simp add: run v Let_def del: bindP_accept)
  qed
qed

lemma parse_printed_vnfs:
  assumes "\<forall>v \<in> set vs. \<forall>p \<in> set (vnf_ports v). mac_ok p" "distinct (map vnf_id vs)"
    "set (map vnf_id vs) \<inter> set used = {}"
  shows "\<exists>used'. foldP parse_vnf (map (\<lambda>v. JObj (VNFs_toJSON v)) vs) (used, g) =
    accept (used', fold addVNF vs g)"
  using assms
proof (induction vs arbitrary: used g)
  case (Cons v vs)
  then show ?case by (simp add: parse_printed_vnf del: bindP_accept)
qed simp

definition between :: "ep_vars \<Rightarrow> string set \<Rightarrow> endpoint_ids \<Rightarrow> HLGraph \<Rightarrow> bool" where
  "between st used ids g =
     (\<not> e_if st \<and> \<not> e_internal st \<and> \<not> e_vlan st \<and> set (usedEndpointID st) = used \<and>
      ep_ids st = ids \<and> ep_graph st = g)"

definition put_interface :: "EndPointInterface \<Rightarrow> endpoint_ids \<Rightarrow> endpoint_ids" where
  "put_interface e ids = ids\<lparr>iface_id := om_put (ei_id e) (ei_interface e) (iface_id ids)\<rparr>"

definition put_internal_group :: "EndPointInternal \<Rightarrow> endpoint_ids \<Rightarrow> endpoint_ids" where
  "put_internal_group e ids = ids\<lparr>internal_id := om_put (en_id e) (en_group e) (internal_id ids)\<rparr>"

definition put_vlan :: "EndPointVlan \<Rightarrow> endpoint_ids \<Rightarrow> endpoint_ids" where
  "put_vlan e ids = ids\<lparr>vlan_id := om_put (ev_id e) (ev_vlan_id e, ev_interface e) (vlan_id ids)\<rparr>"

lemma parse_printed_interface:
  assumes "between st used ids g" "ei_id e \<notin> used"
  shows "\<exists>st'. parse_endpoint (JObj (EndPointInterface_toJSON e)) st = accept st' \<and>
    between st' (insert (ei_id e) used)
      (put_interface e ids) (snd (addEndPointInterface e g))"
  using assms
  by (cases e) (auto simp: between_def EndPointInterface_toJSON_def parse_endpoint_def parse_ep_member_def
      parse_ep_interface_def add_endpoint_def put_interface_def)

lemma parse_printed_internal:
  assumes "between st used ids g" "en_id e \<notin> used"
  shows "\<exists>st'. parse_endpoint (JObj (EndPointInternal_toJSON e)) st = accept st' \<and>
    between st' (insert (en_id e) used)
      (put_internal_group e ids) (snd (addEndPointInternal e g))"
  using assms
  by (cases e) (auto simp: between_def EndPointInternal_toJSON_def parse_endpoint_def parse_ep_member_def
      parse_ep_internal_def add_endpoint_def put_internal_group_def)

lemma parse_printed_vlan:
  assumes "between st used ids g" "ev_id e \<notin> used"
  shows "\<exists>st'. parse_endpoint (JObj (EndPointVlan_toJSON e)) st = accept st' \<and>
    between st' (insert (ev_id e) used)
      (put_vlan e ids) (snd (addEndPointVlan e g))"
  using assms
  by (cases e) (auto simp: between_def EndPointVlan_toJSON_def parse_endpoint_def parse_ep_member_def
      parse_ep_vlan_def add_endpoint_def put_vlan_def)

lemma foldP_between:
  assumes step: "\<And>e st used ids g. between st used ids g \<Longrightarrow> key e \<notin> used \<Longrightarrow>
      \<exists>st'. parse_endpoint (print e) st = accept st' \<and> between st' (insert (key e) used) (put e ids) (add e g)"
    and "between st used ids g" "distinct (map key es)" "set (map key es) \<inter> used = {}"
  shows "\<exists>st'. foldP parse_endpoint (map print es) st = accept st' \<and>
    between st' (set (map key es) \<union> used) (fold put es ids) (fold add es g)"
  using assms(2-)
proof (induction es arbitrary: st used ids g)
  case (Cons e es)
  then obtain st1 where st1: "parse_endpoint (print e) st = accept st1"
    "between st1 (insert (key e) used) (put e ids) (add e g)"
    using step by (metis disjoint_iff insertI1 list.set(2) list.simps(9))
  moreover have "distinct (map key es)" "set (map key es) \<inter> insert (key e) used = {}"
    using Cons.prems by auto
  ultimately show ?case
    using Cons.IH[OF st1(2)] by (simp del: bindP_accept)
qed simp

lemmas parse_printed_interfaces = foldP_between[where key = ei_id and put = put_interface
    and print = "\<lambda>e. JObj (EndPointInterface_toJSON e)" and add = "\<lambda>e h. snd (addEndPointInterface e h)",
    OF parse_printed_interface, simplified]

lemmas parse_printed_internals = foldP_between[where key = en_id and put = put_internal_group
    and print = "\<lambda>e. JObj (EndPointInternal_toJSON e)" and add = "\<lambda>e h. snd (addEndPointInternal e h)",
    OF parse_printed_internal, simplified]

lemmas parse_printed_vlans = foldP_between[where key = ev_id and put = put_vlan
    and print = "\<lambda>e. JObj (EndPointVlan_toJSON e)" and add = "\<lambda>e h. snd (addEndPointVlan e h)",
    OF parse_printed_vlan, simplified]

text \<open>What the parser knows of the endpoints of a graph, and the graph with its endpoints alone.\<close>

definition ids_of :: "HLGraph \<Rightarrow> endpoint_ids" where
  "ids_of g = fold put_vlan (endPointsVlan g) (fold put_internal_group (endPointsInternal g)
     (fold put_interface (endPointsInterface g) no_ids))"

definition with_endpoints :: "HLGraph \<Rightarrow> HLGraph \<Rightarrow> HLGraph" where
  "with_endpoints g h =
     fold (\<lambda>e h. snd (addEndPointVlan e h)) (endPointsVlan g)
    (fold (\<lambda>e h. snd (addEndPointInternal e h)) (endPointsInternal g)
    (fold (\<lambda>e h. snd (addEndPointInterface e h)) (endPointsInterface g) h))"

lemma parse_printed_endpoints:
  assumes "distinct (map ei_id (endPointsInterface g) @ map en_id (endPointsInternal g) @
             map ev_id (endPointsVlan g))" "endPointsGre g = []"
  shows "parse_endpoints
     (JArr (map (\<lambda>e. JObj (EndPointInterface_toJSON e)) (endPointsInterface g) @
            map (\<lambda>e. JObj (EndPointInternal_toJSON e)) (endPointsInternal g) @
            map (\<lambda>e. JObj (EndPointGre_toJSON e)) (endPointsGre g) @
            map (\<lambda>e. JObj (EndPointVlan_toJSON e)) (endPointsVlan g))) (no_ids, h) =
     accept (ids_of g, with_endpoints g h)"
proof -
  let ?st = "\<lparr>usedEndpointID = [], cur_id = '''', cur_name = '''', cur_v_id = '''',
               cur_interface = '''', cur_group = '''', e_if = False, e_internal = False,
               e_vlan = False, ep_ids = no_ids, ep_graph = h\<rparr>"
  have "between ?st {} no_ids h" by (simp add: between_def)
  from parse_printed_interfaces[OF this, of "endPointsInterface g"] assms(1)
  obtain st1 where 1: "foldP parse_endpoint (map (\<lambda>e. JObj (EndPointInterface_toJSON e)) (endPointsInterface g)) ?st = accept st1"
    and b1: "between st1 (ei_id ` set (endPointsInterface g)) (fold put_interface (endPointsInterface g) no_ids)
       (fold (\<lambda>e h. snd (addEndPointInterface e h)) (endPointsInterface g) h)"
    by auto
  have "en_id ` set (endPointsInternal g) \<inter> ei_id ` set (endPointsInterface g) = {}"
    using assms(1) by auto
  from parse_printed_internals[OF b1 _ this] assms(1)
  obtain st2 where 2: "foldP parse_endpoint (map (\<lambda>e. JObj (EndPointInternal_toJSON e)) (endPointsInternal g)) st1 = accept st2"
    and b2: "between st2 (en_id ` set (endPointsInternal g) \<union> ei_id ` set (endPointsInterface g))
       (fold put_internal_group (endPointsInternal g) (fold put_interface (endPointsInterface g) no_ids))
       (fold (\<lambda>e h. snd (addEndPointInternal e h)) (endPointsInternal g)
         (fold (\<lambda>e h. snd (addEndPointInterface e h)) (endPointsInterface g) h))"
    by auto
  have "ev_id ` set (endPointsVlan g) \<inter> (en_id ` set (endPointsInternal g) \<union> ei_id ` set (endPointsInterface g)) = {}"
    using assms(1) by auto
  from parse_printed_vlans[OF b2 _ this] assms(1)
  obtain st3 where 3: "foldP parse_endpoint (map (\<lambda>e. JObj (EndPointVlan_toJSON e)) (endPointsVlan g)) st2 = accept st3"
    "ep_ids st3 = ids_of g" "ep_graph st3 = with_endpoints g h"
    by (auto simp: ids_of_def with_endpoints_def between_def)
  show ?thesis
    by (simp add: parse_endpoints_def assms(2) foldP_append 1 2 3 del: bindP_accept)
qed

lemma parse_printed_rules:
  assumes "\<forall>k < length rs. plain_rule ids (mem (length (rules h) + k)) (rs ! k)"
    "distinct (map hr_ruleID (rules h @ rs))"
  shows "\<exists>js. mapR (\<lambda>r. bindR (HLRule_toJSON r) (\<lambda>j. Inr (JObj j))) rs = Inr js \<and>
    foldP (parse_rule mem ids) js h = accept (h\<lparr>rules := rules h @ rs\<rparr>)"
  using assms
proof (induction rs arbitrary: h)
  case (Cons r rs)
  have "plain_rule ids (mem (length (rules h))) r" using Cons.prems(1) by force
  moreover have "\<not> present HLRule_eq r (rules h)"
    using Cons.prems(2) by (auto simp: present_def HLRule_eq_def image_iff)
  ultimately obtain j where j: "HLRule_toJSON r = Inr j"
    "parse_rule mem ids (JObj j) h = accept (h\<lparr>rules := rules h @ [r]\<rparr>)"
    using parse_printed_rule by blast
  have "\<forall>k < length rs. plain_rule ids (mem (length (rules (h\<lparr>rules := rules h @ [r]\<rparr>)) + k)) (rs ! k)"
    using Cons.prems(1) by (auto simp: less_Suc_eq_0_disj nth_Cons')
  with Cons.IH[of "h\<lparr>rules := rules h @ [r]\<rparr>"] Cons.prems(2) j show ?case
    by (auto simp del: bindP_accept)
qed simp

lemma with_endpoints_empty:
  assumes "distinct (map ei_id (endPointsInterface g) @ map en_id (endPointsInternal g) @
             map ev_id (endPointsVlan g))"
    "endPointsInterface h = []" "endPointsInternal h = []" "endPointsVlan h = []"
  shows "with_endpoints g h = h\<lparr>endPointsInterface := endPointsInterface g,
    endPointsInternal := endPointsInternal g, endPointsVlan := endPointsVlan g,
    endpoints := fold (\<lambda>e. om_put (en_group e) True) (endPointsInternal g) (endpoints h)\<rparr>"
proof -
  have i: "fold (\<lambda>e h. snd (addEndPointInterface e h)) es h =
      h\<lparr>endPointsInterface := endPointsInterface h @ es\<rparr>"
    if "distinct (map ei_id (endPointsInterface h @ es))" for es h
    using that
    by (induction es arbitrary: h)
       (auto simp: add_list_ops add_unique_def present_def EndPointInterface_eq_def image_iff)
  have n: "fold (\<lambda>e h. snd (addEndPointInternal e h)) es h =
      h\<lparr>endPointsInternal := endPointsInternal h @ es,
        endpoints := fold (\<lambda>e. om_put (en_group e) True) es (endpoints h)\<rparr>"
    if "distinct (map en_id (endPointsInternal h @ es))" for es h
    using that
    by (induction es arbitrary: h)
       (auto simp: addEndPointInternal_def present_def EndPointInternal_eq_def image_iff)
  have v: "fold (\<lambda>e h. snd (addEndPointVlan e h)) es h = h\<lparr>endPointsVlan := endPointsVlan h @ es\<rparr>"
    if "distinct (map ev_id (endPointsVlan h @ es))" for es h
    using that
    by (induction es arbitrary: h)
       (auto simp: add_list_ops add_unique_def present_def EndPointVlan_eq_def image_iff)
  show ?thesis
    using assms by (simp add: with_endpoints_def i n v)
qed

definition printable :: "(nat \<Rightarrow> HLMatch) \<Rightarrow> HLGraph \<Rightarrow> bool" where
  "printable mem g =
     (endPointsGre g = [] \<and>
      distinct (map ei_id (endPointsInterface g) @ map en_id (endPointsInternal g) @
        map ev_id (endPointsVlan g)) \<and>
      endpoints g = fold (\<lambda>e. om_put (en_group e) True) (endPointsInternal g) [] \<and>
      distinct (map vnf_id (vnfs g)) \<and>
      (\<forall>v \<in> set (vnfs g). \<forall>p \<in> set (vnf_ports v). mac_ok p) \<and>
      distinct (map hr_ruleID (rules g)) \<and>
      (\<forall>k < length (rules g). plain_rule (ids_of g) (mem k) (rules g ! k)))"

lemma parse_printed_vnf_list:
  assumes "distinct (map vnf_id vs)" "\<forall>v \<in> set vs. \<forall>p \<in> set (vnf_ports v). mac_ok p" "vnfs h = []"
  shows "parse_vnfs (JArr (map (\<lambda>v. JObj (VNFs_toJSON v)) vs)) h = accept (h\<lparr>vnfs := vs\<rparr>)"
proof -
  have "uniq_by VNFs_eq vs"
    using assms(1) by (induction vs) (auto simp: VNFs_eq_def)
  then have "fold addVNF vs h = h\<lparr>vnfs := vs\<rparr>"
    using fold_add_vnf_fresh[of "[]" vs] assms(3) by (simp add: fold_addVNF)
  with parse_printed_vnfs[OF assms(2,1), of "[]" h] show ?thesis
    by (auto simp: parse_vnfs_def simp del: bindP_accept)
qed

lemma parse_fg_big_switch:
  "parse_fg_member (''big-switch'', JObj bs)
     \<lparr>fg_ids = ids, fg_graph = h, foundBigSwitch = False, big_switch = []\<rparr> =
   accept \<lparr>fg_ids = ids, fg_graph = h, foundBigSwitch = True, big_switch = bs\<rparr>"
  by (simp add: parse_fg_member_def)

lemma parse_fg_endpoints:
  "parse_endpoints v (ids, h) = accept (ids', h') \<Longrightarrow>
   parse_fg_member (''end-points'', v) \<lparr>fg_ids = ids, fg_graph = h, foundBigSwitch = b, big_switch = bs\<rparr> =
   accept \<lparr>fg_ids = ids', fg_graph = h', foundBigSwitch = b, big_switch = bs\<rparr>"
  by (simp add: parse_fg_member_def del: bindP_accept)

text \<open>The object printed for a graph, and the members of it, in the order of their keys.\<close>

lemma parse_printed_members:
  assumes p: "printable mem g"
    and j: "HLGraph_toJSON g = Inr j" "mapR (\<lambda>r. bindR (HLRule_toJSON r) (\<lambda>j. Inr (JObj j))) (rules g) = Inr js"
  shows "foldP parse_fg_member j
      \<lparr>fg_ids = no_ids, fg_graph = HLGraph_new (graph_ID g), foundBigSwitch = False, big_switch = []\<rparr> =
    accept \<lparr>fg_ids = ids_of g, fg_graph = g\<lparr>rules := []\<rparr>, foundBigSwitch = True,
      big_switch = [(''flow-rules'', JArr js)]\<rparr>"
proof -
  let ?new = "HLGraph_new (graph_ID g)"
  let ?h = "?new\<lparr>vnfs := vnfs g\<rparr>"
  let ?eps = "map (\<lambda>e. JObj (EndPointInterface_toJSON e)) (endPointsInterface g) @
            map (\<lambda>e. JObj (EndPointInternal_toJSON e)) (endPointsInternal g) @
            map (\<lambda>e. JObj (EndPointGre_toJSON e)) (endPointsGre g) @
            map (\<lambda>e. JObj (EndPointVlan_toJSON e)) (endPointsVlan g)"
  have d: "distinct (map ei_id (endPointsInterface g) @ map en_id (endPointsInternal g) @
      map ev_id (endPointsVlan g))" "endPointsGre g = []"
    "endpoints g = fold (\<lambda>e. om_put (en_group e) True) (endPointsInternal g) []"
    using p by (simp_all add: printable_def)
  have vs: "parse_vnfs (JArr (map (\<lambda>v. JObj (VNFs_toJSON v)) (vnfs g))) ?new = accept ?h"
    using p by (intro parse_printed_vnf_list) (simp_all add: printable_def HLGraph_new_def)
  have no_vs: "vnfs g = [] \<Longrightarrow> ?h = ?new" by (simp add: HLGraph_new_def)
  have es: "parse_endpoints (JArr ?eps) (no_ids, ?h) = accept (ids_of g, with_endpoints g ?h)"
    by (rule parse_printed_endpoints[OF d(1,2)])
  have no_es: "?eps = [] \<Longrightarrow> ids_of g = no_ids \<and> with_endpoints g ?h = ?h"
    by (simp add: ids_of_def with_endpoints_def)
  have g: "(with_endpoints g ?h)\<lparr>graph_name := graph_name g\<rparr> = g\<lparr>rules := []\<rparr>"
    using with_endpoints_empty[OF d(1), of ?h] d by (cases g) (simp add: HLGraph_new_def)
  have jj: "j = (if vnfs g \<noteq> [] then [(''VNFs'', JArr (map (\<lambda>v. JObj (VNFs_toJSON v)) (vnfs g)))] else []) @
      (''big-switch'', JObj [(''flow-rules'', JArr js)]) #
      (if ?eps \<noteq> [] then [(''end-points'', JArr ?eps)] else []) @
      [(''id'', JStr (graph_ID g)), (''name'', JStr (graph_name g))]"
    using j by (auto simp: HLGraph_toJSON_def Let_def)
  have f1: "foldP parse_fg_member (if vnfs g \<noteq> [] then [(''VNFs'', JArr (map (\<lambda>v. JObj (VNFs_toJSON v)) (vnfs g)))] else [])
      \<lparr>fg_ids = no_ids, fg_graph = ?new, foundBigSwitch = False, big_switch = []\<rparr> =
      accept \<lparr>fg_ids = no_ids, fg_graph = ?h, foundBigSwitch = False, big_switch = []\<rparr>"
    using vs no_vs by (simp add: parse_fg_member_def del: bindP_accept)
  have f2: "foldP parse_fg_member (if ?eps \<noteq> [] then [(''end-points'', JArr ?eps)] else [])
      \<lparr>fg_ids = no_ids, fg_graph = ?h, foundBigSwitch = True, big_switch = bs\<rparr> =
      accept \<lparr>fg_ids = ids_of g, fg_graph = with_endpoints g ?h, foundBigSwitch = True, big_switch = bs\<rparr>" for bs
  proof (cases "?eps = []")
    case False
    have "parse_fg_member (''end-points'', JArr ?eps)
        \<lparr>fg_ids = no_ids, fg_graph = ?h, foundBigSwitch = True, big_switch = bs\<rparr> =
        accept \<lparr>fg_ids = ids_of g, fg_graph = with_endpoints g ?h, foundBigSwitch = True, big_switch = bs\<rparr>"
      by (rule parse_fg_endpoints[OF es])
    with False show ?thesis by (simp only: if_True foldP.simps bindP_simps not_False_eq_True)
  next
    case True
    then show ?thesis using no_es by (simp only: if_False foldP.simps simp_thms)
  qed
  show ?thesis
    unfolding jj foldP_append foldP.simps f1 bindP_simps parse_fg_big_switch f2
    using g by (simp add: parse_fg_member_def del: bindP_accept)
qed

text \<open>
  (C26) A graph without tunnels whose rules lead, without further fields and actions, from ports of
  interfaces and of functions to such ports, with identifiers that differ, addresses that the parser
  allows and priorities below \<open>2^31\<close>, is printed as a text that the parser accepts and from which it
  makes the same graph.
\<close>

theorem printed_graph_read_back:
  assumes "printable mem g"
  shows "\<exists>j. HLGraph_toJSON g = Inr j \<and>
    parseGraph mem (JObj [(''forwarding-graph'', JObj j)]) (HLGraph_new (graph_ID g)) = accept g"
proof -
  have "\<forall>k < length (rules g). plain_rule (ids_of g) (mem (length (rules (g\<lparr>rules := []\<rparr>)) + k)) (rules g ! k)"
    "distinct (map hr_ruleID (rules (g\<lparr>rules := []\<rparr>) @ rules g))"
    using assms by (simp_all add: printable_def)
  from parse_printed_rules[OF this] obtain js where
    js: "mapR (\<lambda>r. bindR (HLRule_toJSON r) (\<lambda>j. Inr (JObj j))) (rules g) = Inr js"
    and rs: "foldP (parse_rule mem (ids_of g)) js (g\<lparr>rules := []\<rparr>) = accept g" by auto
  then obtain j where j: "HLGraph_toJSON g = Inr j" by (auto simp: HLGraph_toJSON_def Let_def)
  have "parseGraph mem (JObj [(''forwarding-graph'', JObj j)]) (HLGraph_new (graph_ID g)) = accept g"
    by (simp add: parseGraph_def parse_forwarding_graph_def parse_printed_members[OF assms j js]
        parse_big_switch_def rs del: bindP_accept)
  with j show ?thesis by blast
qed

section \<open>Examples\<close>

definition ex_port :: place where
  "ex_port = At_port ''e1'' ''eth0''"

definition ex_function :: place where
  "ex_function = At_nf ''1'' ''inout'' 0"

definition ex_plain_rule :: "string \<Rightarrow> place \<Rightarrow> place \<Rightarrow> HLRule" where
  "ex_plain_rule i src dst =
     \<lparr>hr_match = place_match zero_HLMatch src,
      hr_action = \<lparr>hl_out = place_out dst, genericActions = []\<rparr>, hr_priority = 10, hr_ruleID = i\<rparr>"

definition ex_plain_graph :: HLGraph where
  "ex_plain_graph = (HLGraph_new ''g'')\<lparr>
     endPointsInterface := [\<lparr>ei_id = ''e1'', ei_name = ''in'', ei_interface = ''eth0''\<rparr>],
     vnfs := [\<lparr>vnf_id = ''1'', vnf_name = ''fw'', vnf_groups = [], vnf_template = '''',
       vnf_ports = [\<lparr>vp_id = ''inout:0'', vp_name = ''p'', vp_configuration = \<lparr>mac_address = ''''\<rparr>\<rparr>]\<rparr>],
     rules := [ex_plain_rule ''r1'' ex_port ex_function, ex_plain_rule ''r2'' ex_function ex_port]\<rparr>"

lemma ex_places_ok: "place_ok (ids_of ex_plain_graph) ex_port" "place_ok ids ex_function"
  by (simp_all add: ex_port_def ex_function_def ex_plain_graph_def ids_of_def put_interface_def no_ids_def
      HLGraph_new_def piece_def BUFFER_SIZE_def dec.simps)

lemma ex_plain_rules:
  "plain_rule (ids_of ex_plain_graph) zero_HLMatch (ex_plain_rule i ex_port ex_function)"
  "plain_rule (ids_of ex_plain_graph) zero_HLMatch (ex_plain_rule i ex_function ex_port)"
  unfolding plain_rule_def ex_plain_rule_def using ex_places_ok by auto

lemma ex_printable: "printable (\<lambda>_. zero_HLMatch) ex_plain_graph"
proof -
  have "rules ex_plain_graph = [ex_plain_rule ''r1'' ex_port ex_function, ex_plain_rule ''r2'' ex_function ex_port]"
    by (simp add: ex_plain_graph_def)
  then have "\<forall>k < length (rules ex_plain_graph).
      plain_rule (ids_of ex_plain_graph) zero_HLMatch (rules ex_plain_graph ! k)"
    using ex_plain_rules by (simp add: less_Suc_eq_0_disj nth_Cons')
  moreover have "distinct (map hr_ruleID (rules ex_plain_graph))"
    by (simp add: ex_plain_graph_def ex_plain_rule_def)
  ultimately show ?thesis
    unfolding printable_def
    by (simp add: ex_plain_graph_def HLGraph_new_def mac_ok_def)
qed

theorem printed_graph_read_back_witness:
  "\<exists>j. HLGraph_toJSON ex_plain_graph = Inr j \<and>
     parseGraph (\<lambda>_. zero_HLMatch) (JObj [(''forwarding-graph'', JObj j)]) (HLGraph_new ''g'') =
     accept ex_plain_graph"
  using printed_graph_read_back[OF ex_printable] by (simp add: ex_plain_graph_def HLGraph_new_def)

definition ex_vlan_rule :: HLRule where
  "ex_vlan_rule =
     \<lparr>hr_match = place_match zero_HLMatch ex_port,
      hr_action = \<lparr>hl_out = place_out ex_function, genericActions = [VlanAction ACTION_VLAN_PUSH '''' 5]\<rparr>,
      hr_priority = 10, hr_ruleID = ''r1''\<rparr>"

theorem printed_vlan_action_aborts_witness:
  "\<exists>j. HLRule_toJSON ex_vlan_rule = Inr j \<and>
     parse_rule (\<lambda>_. zero_HLMatch) no_ids (JObj j) (HLGraph_new ''g'') = Inl AssertFailure"
proof -
  obtain j where j: "HLRule_toJSON ex_vlan_rule = Inr j"
    by (simp add: HLRule_toJSON_def ex_vlan_rule_def place_printed)
  moreover have "\<exists>ga \<in> set (genericActions (hr_action ex_vlan_rule)).
      vlan_type ga \<in> {ACTION_VLAN_PUSH, ACTION_VLAN_POP}" by (simp add: ex_vlan_rule_def)
  ultimately show ?thesis using printed_vlan_action_aborts by blast
qed

theorem printed_protocol_not_read_witness:
  "\<exists>j. HLMatch_toJSON (setIpProto 6 (place_match zero_HLMatch ex_port)) = Inr j \<and>
     (\<forall>r. parseMatch no_ids j (HLMatch_new zero_HLMatch) None \<noteq> accept r)"
proof -
  have w: "wf_input (setIpProto 6 (place_match zero_HLMatch ex_port))"
    by (simp add: wf_input_def setIpProto_eq ex_port_def)
  obtain j where "HLMatch_toJSON (setIpProto 6 (place_match zero_HLMatch ex_port)) = Inr j"
    using HLMatch_toJSON_total[OF w] by blast
  moreover have "isIpProto (setIpProto 6 (place_match zero_HLMatch ex_port))"
    by (simp add: setIpProto_eq)
  ultimately show ?thesis using printed_protocol_not_read by blast
qed

definition ex_gre :: EndPointGre where
  "ex_gre = \<lparr>eg_id = ''g1'', eg_name = ''tunnel'', eg_local_ip = ''10.0.0.1'', eg_remote_ip = ''10.0.0.2'',
     eg_gre_key = ''1'', eg_ttl = '''', eg_is_safe = False\<rparr>"

definition ex_ep_vars :: ep_vars where
  "ex_ep_vars = \<lparr>usedEndpointID = [''e1''], cur_id = ''e1'', cur_name = ''uplink'', cur_v_id = '''',
     cur_interface = ''eth0'', cur_group = '''', e_if = False, e_internal = False,
     e_vlan = False, ep_ids = no_ids, ep_graph = HLGraph_new ''g''\<rparr>"

theorem gre_takes_previous_name_witness:
  "\<exists>st'. parse_endpoint (JObj (EndPointGre_toJSON ex_gre)) ex_ep_vars = accept st' \<and>
     endPointsGre (ep_graph st') = [ex_gre\<lparr>eg_name := ''uplink''\<rparr>]"
proof -
  obtain st' where st': "parse_endpoint (JObj (EndPointGre_toJSON ex_gre)) ex_ep_vars = accept st'"
    "ep_graph st' = snd (addEndPointGre (ex_gre\<lparr>eg_name := cur_name ex_ep_vars\<rparr>) (ep_graph ex_ep_vars))"
    using gre_takes_previous_name[of ex_gre ex_ep_vars] by (auto simp: ex_gre_def ex_ep_vars_def)
  then have "endPointsGre (ep_graph st') = [ex_gre\<lparr>eg_name := ''uplink''\<rparr>]"
    by (simp add: ex_ep_vars_def HLGraph_new_def add_list_ops add_unique_def present_def)
  with st'(1) show ?thesis by blast
qed

theorem unknown_output_aborts_witness:
  "parse_rule (\<lambda>_. zero_HLMatch) no_ids
     (JObj [(''actions'', JArr [JObj [(''output_to_port'', JStr ''endpoint:nowhere'')]])]) (HLGraph_new ''g'') =
   Inl AssertFailure"
  by (rule unknown_output_aborts[where ps = "[''nowhere'']"])
     (simp_all add: BUFFER_SIZE_def strtok.simps find_endpoint_def no_ids_def colon_piece_def)

end
