(* ===== verification/Spec2Isabelle.thy ===== *)
theory Spec2Isabelle
  imports UN_Prelude Flow_Match Json_Value Match_Json High_Level_Elements High_Level_Graph
    Low_Level_Graph Lsi_State Graph_Translator Data_Plane Exec_Monad
    OpenFlow_Controller Compute_Controller Virtual_Links Graph_Manager Sample_Node
    Graph_Lifecycle Graph_Traffic Manager_Invariant
    Parse_Result Address_Validator Match_Parser Graph_Parser Parse_Print
begin

text \<open>
  Verification of the un-orchestrator, the program that runs network function forwarding graphs on
  one node. All paths are below \<open>src/orchestrator\<close>.

  \<^bold>\<open>The program.\<close> A graph has network functions, endpoints and rules ("traffic of this port that
  matches these fields goes there"). For every graph the graph manager
  (\<open>node_resource_manager/graph_manager\<close>) makes a software switch, the tenant's \<open>LSI\<close>, joined by
  virtual links to the switch of the physical ports, the LSI-0. The graph translator lowers the
  rules to one table for each of the two switches; an OpenFlow controller for each switch keeps the
  table and installs it when the switch connects. The compute controller
  (\<open>compute_controller\<close>) asks the name resolver for the implementations of the functions, chooses
  one for each, and starts and stops them. A graph is deployed by \<open>newGraph\<close>, changed by
  \<open>updateGraph\<close>, which works on the difference of the two graphs, and taken away by \<open>deleteGraph\<close>.
  Internal endpoints of one group join graphs over a further switch for the group.

  \<^bold>\<open>The theories\<close>, in the order in which the code is layered:

  \<^item> \<open>UN_Prelude\<close>: results with faults, \<open>std::map\<close> and \<open>std::set\<close> as sorted lists, lists without
    duplicates, decimal and hexadecimal numbers, \<open>strtok\<close> and \<open>sscanf\<close>.
  \<^item> \<open>Flow_Match\<close>: \<open>graph/match.cc\<close>. A match as a record of optional values and of plain members
    guarded by flags; uninitialised members are what the storage held. \<open>isEqual\<close> is equality of
    the abstract key, copying keeps the common part of the key, and where copying faults.
  \<^item> \<open>Json_Value\<close>, \<open>Match_Json\<close>: JSON values and \<open>Match::toJSON\<close>.
  \<^item> \<open>High_Level_Elements\<close>, \<open>High_Level_Graph\<close>: \<open>graph/high_level_graph\<close> and
    \<open>graph/generic_actions\<close>. The difference of two graphs, its addition and removal; that an
    update ends in the new graph.
  \<^item> \<open>Low_Level_Graph\<close>: \<open>graph/low_level_graph\<close>, with the OpenFlow message of a rule as the list of
    the calls made on it.
  \<^item> \<open>Lsi_State\<close>: \<open>lsi.cc\<close>, \<open>virtual_link.cc\<close>. Port numbers, names of virtual links, identifiers.
  \<^item> \<open>Graph_Translator\<close>: \<open>graph_translator.cc\<close>, one definition for each branch.
  \<^item> \<open>Data_Plane\<close>: what the two tables do to a packet, and that together they do what the
    rules of the graph say.
  \<^item> \<open>Exec_Monad\<close>: state with exceptions that keep the state, and a calculus of conditions before
    and after.
  \<^item> \<open>OpenFlow_Controller\<close>: \<open>network_controller/openflow_controller/controller.cc\<close>. The table of a
    connected switch follows the rules the controller keeps.
  \<^item> \<open>Compute_Controller\<close>: \<open>compute_controller\<close>. The parser of the name resolver's answer, the
    choice of implementations, the cores, starting and stopping.
  \<^item> \<open>Virtual_Links\<close>: the parts of \<open>graph_manager.cc\<close> that decide which links a graph needs, make
    them and take them away. Enough links, none too many, also when the switch fails.
  \<^item> \<open>Graph_Manager\<close>: the rest of \<open>graph_manager.cc\<close>, and \<open>graph_info.cc\<close>.
  \<^item> \<open>Sample_Node\<close>: a concrete node, on which the manager's operations are run.
  \<^item> \<open>Graph_Lifecycle\<close>: what a deployed graph has, and what a failed deployment leaves.
  \<^item> \<open>Graph_Traffic\<close>: the way of a packet through the two switches of a deployed graph.
  \<^item> \<open>Manager_Invariant\<close>: what every sequence of operations keeps of the state of the manager.
  \<^item> \<open>Parse_Result\<close>: computations that accept, reject or fault.
  \<^item> \<open>Address_Validator\<close>, \<open>Match_Parser\<close>, \<open>Graph_Parser\<close>: \<open>graph/graph-parser\<close>, key by key in the
    order of the code. Every accepted match has the fields of the text, every accepted graph is well
    formed, and where the parsers abort.
  \<^item> \<open>Parse_Print\<close>: which graphs the parser reads back from the text \<open>toJSON\<close> makes of them, and
    which parts of a printed graph it does not.

  \<^bold>\<open>State and errors.\<close> A class is a record; a method that changes it returns the new record. A
  failed assertion, a null or dangling pointer, an end iterator, an uninitialised read, an index out
  of bounds and the exceptions of the program are values of the type \<open>fault\<close>. Where the program goes
  on after an exception, the operations are in the monad of \<open>Exec_Monad\<close>, which returns the state
  the exception left. Integers have the width of the code where they are stored; identifiers of
  virtual links, port numbers and counters are words, and the bounds under which they do not wrap are
  hypotheses of the theorems that need them.

  \<^bold>\<open>Interfaces.\<close> The virtual switch, the execution environments, the name resolver, the JSON library,
  the OpenFlow library and the contents of uninitialised memory are arguments. What a theorem needs
  of them is a hypothesis or a locale: \<open>openflow_switch\<close> (a switch that keeps a table),
  \<open>step_order\<close> (operations that keep a part of the state), and those of the earlier theories; each
  is interpreted on the model.

  \<^bold>\<open>Termination.\<close> Every definition is total; no fuel is used. The loops of the code run over lists.

  \<^bold>\<open>Build.\<close> The default one: Open vSwitch over OVSDB, functions are run, the Unify options off.

  \<^bold>\<open>Not modelled.\<close> The plugins for switches and execution environments, which run commands and
  speak protocols; the REST server, the database and the security manager; the threads, so the start of functions is sequential and the mutex of a controller does
  nothing; logging and the print functions; the name resolver, the virtualizer and the example
  functions, which are other programs.
\<close>

end
